(* ===== verification/Prelude.thy ===== *)
theory Prelude
  imports Main "HOL-Library.Word" "HOL-Library.Sublist"
begin

text \<open>
  Shared vocabulary of the development: the fixed-width and time types of the Go sources,
  the collections of facts the component proofs draw on, and generic lemmas on lists,
  options and results that no single component owns.

  \<^item> Go's \<open>int32\<close> (event, action and timer ids) is a 32-bit word; signed comparison
    is comparison of \<open>sint\<close>.
  \<^item> A point in time is a number of nanoseconds since the Unix epoch; an optional one is the
    pointer \<open>*timestamppb.Timestamp\<close>, and \<open>AsTime\<close> of a nil timestamp is the epoch.
  \<^item> An optional string is \<open>*wrapperspb.StringValue\<close> or \<open>*string\<close>; the generated getters
    return the empty string for nil, which is \<open>GetValue\<close>.
  \<^item> A fallible operation returns \<open>'e + 'a\<close>, \<open>Inl\<close> being the error.
\<close>

type_synonym int32 = "32 word"
type_synonym uint64 = "64 word"
type_synonym bytes = "8 word list"
type_synonym InstanceID = string

named_theorems rs_defs "definitions of the runtime-state operations"
named_theorems inv_intros "preservation of invariants by operations"

definition AsTime :: "int option \<Rightarrow> int" where
  "AsTime t = (case t of None \<Rightarrow> 0 | Some x \<Rightarrow> x)"

definition GetValue :: "string option \<Rightarrow> string" where
  "GetValue v = (case v of None \<Rightarrow> [] | Some s \<Rightarrow> s)"

lemma AsTime_simps [simp]: "AsTime None = 0" "AsTime (Some t) = t"
  by (simp_all add: AsTime_def)

lemma GetValue_simps [simp]: "GetValue None = []" "GetValue (Some s) = s"
  by (simp_all add: GetValue_def)

text \<open>The zero value \<open>time.Time{}\<close>: the first of January of year 1.\<close>

definition zero_time :: int where
  "zero_time = - 62135596800 * 1000000000"

subsection \<open>Results\<close>

definition is_ok :: "'e + 'a \<Rightarrow> bool" where
  "is_ok r = (case r of Inl _ \<Rightarrow> False | Inr _ \<Rightarrow> True)"

lemma is_ok_simps [simp]: "\<not> is_ok (Inl e)" "is_ok (Inr x)"
  by (simp_all add: is_ok_def)

text \<open>Applying a fallible function to every element, stopping at the first error.\<close>

text \<open>Sequencing of fallible steps: \<open>if err != nil \<lbrace> return err \<rbrace>\<close>.\<close>

definition and_then :: "'e + 'a \<Rightarrow> ('a \<Rightarrow> 'e + 'b) \<Rightarrow> 'e + 'b" where
  "and_then r f = (case r of Inl e \<Rightarrow> Inl e | Inr x \<Rightarrow> f x)"

lemma and_then_simps [simp]: "and_then (Inl e) f = Inl e" "and_then (Inr x) f = f x"
  by (simp_all add: and_then_def)

lemma and_then_Inr_iff: "and_then r f = Inr y \<longleftrightarrow> (\<exists>x. r = Inr x \<and> f x = Inr y)"
  by (cases r) simp_all

fun map_result :: "('a \<Rightarrow> 'e + 'b) \<Rightarrow> 'a list \<Rightarrow> 'e + 'b list" where
  "map_result f [] = Inr []"
| "map_result f (x # xs) =
     (case f x of
        Inl e \<Rightarrow> Inl e
      | Inr y \<Rightarrow> (case map_result f xs of Inl e \<Rightarrow> Inl e | Inr ys \<Rightarrow> Inr (y # ys)))"

lemma map_result_Inr_length: "map_result f xs = Inr ys \<Longrightarrow> length ys = length xs"
  by (induction xs arbitrary: ys) (auto split: sum.splits)

lemma map_result_roundtrip:
  assumes "map_result f xs = Inr ys" and "\<And>x y. x \<in> set xs \<Longrightarrow> f x = Inr y \<Longrightarrow> g y = Inr x"
  shows "map_result g ys = Inr xs"
  using assms
proof (induction xs arbitrary: ys)
  case Nil
  then show ?case by simp
next
  case (Cons x xs)
  from Cons.prems(1) obtain y ys' where
    y: "f x = Inr y" and ys': "map_result f xs = Inr ys'" and eq: "ys = y # ys'"
    by (auto split: sum.splits)
  from Cons.IH [OF ys'] Cons.prems(2) have "map_result g ys' = Inr xs" by simp
  moreover from Cons.prems(2) [of x y] y have "g y = Inr x" by simp
  ultimately show ?case by (simp add: eq)
qed

lemma map_result_append:
  "map_result f xs = Inr ys \<Longrightarrow> map_result f zs = Inr ws \<Longrightarrow> map_result f (xs @ zs) = Inr (ys @ ws)"
  by (induction xs arbitrary: ys) (auto split: sum.splits)

lemma map_result_map: "map_result f (map g xs) = map_result (\<lambda>x. f (g x)) xs"
  by (induction xs) (simp_all cong: sum.case_cong)

lemma map_result_all_ok:
  "(\<And>x. x \<in> set xs \<Longrightarrow> is_ok (f x)) \<Longrightarrow> is_ok (map_result f xs)"
  by (induction xs) (fastforce simp: is_ok_def split: sum.splits)+

subsection \<open>Lists\<close>

text \<open>The first element satisfying a predicate: the shape of Go's search loops with \<open>break\<close>.\<close>

fun find_first :: "('a \<Rightarrow> 'b option) \<Rightarrow> 'a list \<Rightarrow> 'b option" where
  "find_first f [] = None"
| "find_first f (x # xs) = (case f x of Some y \<Rightarrow> Some y | None \<Rightarrow> find_first f xs)"

lemma find_first_None_iff: "find_first f xs = None \<longleftrightarrow> (\<forall>x\<in>set xs. f x = None)"
  by (induction xs) (auto split: option.splits)

lemma find_first_SomeD: "find_first f xs = Some y \<Longrightarrow> \<exists>x\<in>set xs. f x = Some y"
  by (induction xs) (auto split: option.splits)

lemma find_first_append:
  "find_first f (xs @ ys) = (case find_first f xs of Some y \<Rightarrow> Some y | None \<Rightarrow> find_first f ys)"
  by (induction xs) (auto split: option.splits)

lemma distinct_map_filter_None:
  "\<forall>x\<in>set xs. f x = None \<Longrightarrow> List.map_filter f xs = []"
  by (induction xs) (auto simp: List.map_filter_def)

lemma map_filter_Nil [simp]: "List.map_filter f [] = []"
  by (simp add: List.map_filter_def)

lemma map_filter_append [simp]:
  "List.map_filter f (xs @ ys) = List.map_filter f xs @ List.map_filter f ys"
  by (simp add: List.map_filter_def)

lemma map_filter_single [simp]:
  "List.map_filter f [x] = (case f x of None \<Rightarrow> [] | Some y \<Rightarrow> [y])"
  by (simp add: List.map_filter_def split: option.splits)

lemma set_map_filter: "set (List.map_filter f xs) = {y. \<exists>x\<in>set xs. f x = Some y}"
  by (induction xs) (auto simp: List.map_filter_def)

subsection \<open>Decimal formatting\<close>

text \<open>\<open>strconv.FormatInt(n, 10)\<close> and the verb \<open>%d\<close>.\<close>

definition digit_char :: "nat \<Rightarrow> char" where
  "digit_char d = char_of (48 + d)"

fun string_of_nat :: "nat \<Rightarrow> string" where
  "string_of_nat n =
     (if n < 10 then [digit_char n] else string_of_nat (n div 10) @ [digit_char (n mod 10)])"

declare string_of_nat.simps [simp del]

definition string_of_int :: "int \<Rightarrow> string" where
  "string_of_int i = (if i < 0 then CHR ''-'' # string_of_nat (nat (- i)) else string_of_nat (nat i))"

text \<open>Reading the digits back; used only to show that formatting is injective.\<close>

fun nat_of_string :: "nat \<Rightarrow> string \<Rightarrow> nat" where
  "nat_of_string acc [] = acc"
| "nat_of_string acc (c # cs) = nat_of_string (10 * acc + (of_char c - 48)) cs"

lemma nat_of_string_append:
  "nat_of_string acc (xs @ ys) = nat_of_string (nat_of_string acc xs) ys"
  by (induction xs arbitrary: acc) auto

lemma of_char_digit [simp]: "d < 10 \<Longrightarrow> (of_char (digit_char d) :: nat) = 48 + d"
  by (simp add: digit_char_def)

lemma nat_of_string_of_nat: "nat_of_string 0 (string_of_nat n) = n"
proof (induction n rule: string_of_nat.induct)
  case (1 n)
  show ?case
  proof (cases "n < 10")
    case True
    then show ?thesis by (simp add: string_of_nat.simps [of n])
  next
    case False
    with 1 show ?thesis
      by (simp add: string_of_nat.simps [of n] nat_of_string_append)
  qed
qed

lemma string_of_nat_inject [simp]: "string_of_nat m = string_of_nat n \<longleftrightarrow> m = n"
  by (metis nat_of_string_of_nat)

lemma set_string_of_nat: "c \<in> set (string_of_nat n) \<Longrightarrow> (48::nat) \<le> of_char c \<and> of_char c \<le> (57::nat)"
proof (induction n rule: string_of_nat.induct)
  case (1 n)
  then show ?case
    by (cases "n < 10") (auto simp: string_of_nat.simps [of n])
qed

lemma minus_notin_string_of_nat: "CHR ''-'' \<notin> set (string_of_nat n)"
  using set_string_of_nat [of "CHR ''-''" n] by auto

lemma slash_notin_string_of_nat: "CHR ''/'' \<notin> set (string_of_nat n)"
  using set_string_of_nat [of "CHR ''/''" n] by auto

lemma string_of_int_inject [simp]: "string_of_int i = string_of_int j \<longleftrightarrow> i = j"
proof
  assume eq: "string_of_int i = string_of_int j"
  have hd: "string_of_nat n \<noteq> CHR ''-'' # cs" "CHR ''-'' # cs \<noteq> string_of_nat n" for n cs
    using minus_notin_string_of_nat [of n] by (metis list.set_intros(1))+
  show "i = j"
    using eq by (auto simp: string_of_int_def hd split: if_splits)
qed simp

lemma slash_notin_string_of_int: "CHR ''/'' \<notin> set (string_of_int i)"
  using slash_notin_string_of_nat by (simp add: string_of_int_def)

text \<open>A string between single quotes, as error messages show names.\<close>

definition quoted :: "string \<Rightarrow> string" where
  "quoted s = CHR 0x27 # s @ [CHR 0x27]"

end
