(* ===== verification/Protos.thy ===== *)
theory Protos
  imports Prelude
begin

text \<open>
  The messages of \<open>src/api/protos\<close>: history events, workflow actions and the workflow
  runtime state, field by field. A message pointer is an \<open>option\<close>; a \<open>oneof\<close> is a datatype
  with one constructor per alternative and one for the unset case; a generated getter such as
  \<open>GetTaskCompleted\<close> is a function into \<open>option\<close>. Tag maps are association lists. The
  enumerations are the named values of the Go enums.
\<close>

section \<open>Enumerations and small messages (orchestration.pb.go)\<close>

datatype StalledReason = PATCH_MISMATCH | VERSION_NOT_AVAILABLE | PAYLOAD_SIZE_EXCEEDED

datatype OrchestrationStatus =
    RUNNING | COMPLETED | CONTINUED_AS_NEW | FAILED | CANCELED | TERMINATED
  | PENDING | SUSPENDED | STALLED

datatype HistoryPropagationScope = SCOPE_NONE | SCOPE_OWN_HISTORY | SCOPE_LINEAGE

definition GetScope :: "HistoryPropagationScope option \<Rightarrow> HistoryPropagationScope" where
  "GetScope s = (case s of None \<Rightarrow> SCOPE_NONE | Some x \<Rightarrow> x)"

record TaskRouter =
  tr_SourceAppID :: string
  tr_TargetAppID :: "string option"
  tr_TargetAppNamespace :: "string option"

definition GetTargetAppID :: "TaskRouter option \<Rightarrow> string" where
  "GetTargetAppID r = (case r of None \<Rightarrow> [] | Some x \<Rightarrow> GetValue (tr_TargetAppID x))"

definition GetTargetAppNamespace :: "TaskRouter option \<Rightarrow> string" where
  "GetTargetAppNamespace r = (case r of None \<Rightarrow> [] | Some x \<Rightarrow> GetValue (tr_TargetAppNamespace x))"

definition GetSourceAppID :: "TaskRouter option \<Rightarrow> string" where
  "GetSourceAppID r = (case r of None \<Rightarrow> [] | Some x \<Rightarrow> tr_SourceAppID x)"

record WorkflowVersion =
  wv_Patches :: "string list"
  wv_Name :: "string option"

record WorkflowInstance =
  wi_InstanceId :: string
  wi_ExecutionId :: "string option"

datatype TaskFailureDetails = TaskFailureDetails
  (fd_ErrorType: string) (fd_ErrorMessage: string) (fd_StackTrace: "string option")
  (fd_InnerFailure: "TaskFailureDetails option") (fd_IsNonRetriable: bool)

record ParentInstanceInfo =
  pi_TaskScheduledId :: int32
  pi_Name :: "string option"
  pi_Version :: "string option"
  pi_WorkflowInstance :: "WorkflowInstance option"
  pi_AppID :: "string option"
  pi_AppNamespace :: "string option"

record TraceContext =
  tc_TraceParent :: string
  tc_SpanID :: string
  tc_TraceState :: "string option"

section \<open>History events (history\_events.pb.go)\<close>

record ExecutionStartedEvent =
  es_Name :: string
  es_Version :: "string option"
  es_Input :: "string option"
  es_WorkflowInstance :: "WorkflowInstance option"
  es_ParentInstance :: "ParentInstanceInfo option"
  es_ScheduledStartTimestamp :: "int option"
  es_ParentTraceContext :: "TraceContext option"
  es_WorkflowSpanID :: "string option"
  es_Tags :: "(string \<times> string) list"

record ExecutionCompletedEvent =
  ec_WorkflowStatus :: OrchestrationStatus
  ec_Result :: "string option"
  ec_FailureDetails :: "TaskFailureDetails option"

record ExecutionTerminatedEvent =
  et_Input :: "string option"
  et_Recurse :: bool

record TaskScheduledEvent =
  ts_Name :: string
  ts_Version :: "string option"
  ts_Input :: "string option"
  ts_ParentTraceContext :: "TraceContext option"
  ts_TaskExecutionId :: string
  ts_HistoryPropagationScope :: "HistoryPropagationScope option"

record TaskCompletedEvent =
  tcd_TaskScheduledId :: int32
  tcd_Result :: "string option"
  tcd_TaskExecutionId :: string

record TaskFailedEvent =
  tf_TaskScheduledId :: int32
  tf_FailureDetails :: "TaskFailureDetails option"
  tf_TaskExecutionId :: string

record ChildWorkflowInstanceCreatedEvent =
  cw_InstanceId :: string
  cw_Name :: string
  cw_Version :: "string option"
  cw_Input :: "string option"
  cw_ParentTraceContext :: "TraceContext option"
  cw_HistoryPropagationScope :: "HistoryPropagationScope option"
  cw_RetryParentInstanceInfo :: "string option"

record ChildWorkflowInstanceCompletedEvent =
  cc_TaskScheduledId :: int32
  cc_Result :: "string option"

record ChildWorkflowInstanceFailedEvent =
  cf_TaskScheduledId :: int32
  cf_FailureDetails :: "TaskFailureDetails option"

text \<open>\<open>isTimerCreatedEvent_Origin\<close> and \<open>isCreateTimerAction_Origin\<close> have the same alternatives.\<close>

datatype TimerOrigin =
    OriginNone
  | OriginCreateTimer
  | OriginExternalEvent string
  | OriginActivityRetry string
  | OriginChildWorkflowRetry string

record TimerCreatedEvent =
  tmc_FireAt :: "int option"
  tmc_Name :: "string option"
  tmc_Origin :: TimerOrigin

record TimerFiredEvent =
  tmf_FireAt :: "int option"
  tmf_TimerId :: int32

record EventSentEvent =
  evs_InstanceId :: string
  evs_Name :: string
  evs_Input :: "string option"

record EventRaisedEvent =
  evr_Name :: string
  evr_Input :: "string option"

record ExecutionStalledEvent =
  est_Reason :: StalledReason
  est_Description :: "string option"

datatype HistoryEventType =
    EventTypeNotSet
  | ExecutionStarted ExecutionStartedEvent
  | ExecutionCompleted ExecutionCompletedEvent
  | ExecutionTerminated ExecutionTerminatedEvent
  | TaskScheduled TaskScheduledEvent
  | TaskCompleted TaskCompletedEvent
  | TaskFailed TaskFailedEvent
  | ChildWorkflowInstanceCreated ChildWorkflowInstanceCreatedEvent
  | ChildWorkflowInstanceCompleted ChildWorkflowInstanceCompletedEvent
  | ChildWorkflowInstanceFailed ChildWorkflowInstanceFailedEvent
  | TimerCreated TimerCreatedEvent
  | TimerFired TimerFiredEvent
  | WorkflowStarted "WorkflowVersion option"
  | WorkflowCompleted
  | EventSent EventSentEvent
  | EventRaised EventRaisedEvent
  | ContinueAsNew "string option"
  | ExecutionSuspended "string option"
  | ExecutionResumed "string option"
  | ExecutionStalled ExecutionStalledEvent
  | DetachedWorkflowInstanceCreated string

record HistoryEvent =
  he_EventId :: int32
  he_Timestamp :: "int option"
  he_EventType :: HistoryEventType
  he_Router :: "TaskRouter option"

text \<open>The getters of \<open>HistoryEvent\<close>: the payload of the alternative that is set.\<close>

definition GetExecutionStarted :: "HistoryEvent \<Rightarrow> ExecutionStartedEvent option" where
  "GetExecutionStarted e = (case he_EventType e of ExecutionStarted x \<Rightarrow> Some x | _ \<Rightarrow> None)"

definition GetExecutionCompleted :: "HistoryEvent \<Rightarrow> ExecutionCompletedEvent option" where
  "GetExecutionCompleted e = (case he_EventType e of ExecutionCompleted x \<Rightarrow> Some x | _ \<Rightarrow> None)"

definition GetExecutionTerminated :: "HistoryEvent \<Rightarrow> ExecutionTerminatedEvent option" where
  "GetExecutionTerminated e = (case he_EventType e of ExecutionTerminated x \<Rightarrow> Some x | _ \<Rightarrow> None)"

definition GetWorkflowStarted :: "HistoryEvent \<Rightarrow> WorkflowVersion option option" where
  "GetWorkflowStarted e = (case he_EventType e of WorkflowStarted x \<Rightarrow> Some x | _ \<Rightarrow> None)"

definition GetChildWorkflowInstanceCreated ::
  "HistoryEvent \<Rightarrow> ChildWorkflowInstanceCreatedEvent option" where
  "GetChildWorkflowInstanceCreated e =
     (case he_EventType e of ChildWorkflowInstanceCreated x \<Rightarrow> Some x | _ \<Rightarrow> None)"

definition GetTaskScheduled :: "HistoryEvent \<Rightarrow> TaskScheduledEvent option" where
  "GetTaskScheduled e = (case he_EventType e of TaskScheduled x \<Rightarrow> Some x | _ \<Rightarrow> None)"

definition GetTaskCompleted :: "HistoryEvent \<Rightarrow> TaskCompletedEvent option" where
  "GetTaskCompleted e = (case he_EventType e of TaskCompleted x \<Rightarrow> Some x | _ \<Rightarrow> None)"

definition GetTaskFailed :: "HistoryEvent \<Rightarrow> TaskFailedEvent option" where
  "GetTaskFailed e = (case he_EventType e of TaskFailed x \<Rightarrow> Some x | _ \<Rightarrow> None)"

definition GetChildWorkflowInstanceCompleted ::
  "HistoryEvent \<Rightarrow> ChildWorkflowInstanceCompletedEvent option" where
  "GetChildWorkflowInstanceCompleted e =
     (case he_EventType e of ChildWorkflowInstanceCompleted x \<Rightarrow> Some x | _ \<Rightarrow> None)"

definition GetChildWorkflowInstanceFailed ::
  "HistoryEvent \<Rightarrow> ChildWorkflowInstanceFailedEvent option" where
  "GetChildWorkflowInstanceFailed e =
     (case he_EventType e of ChildWorkflowInstanceFailed x \<Rightarrow> Some x | _ \<Rightarrow> None)"

lemmas getter_defs = GetExecutionStarted_def GetExecutionCompleted_def GetExecutionTerminated_def
  GetWorkflowStarted_def GetChildWorkflowInstanceCreated_def GetTaskScheduled_def
  GetTaskCompleted_def GetTaskFailed_def GetChildWorkflowInstanceCompleted_def
  GetChildWorkflowInstanceFailed_def

text \<open>The execution id of a start event, through the nil-safe getter chain.\<close>

definition es_executionId :: "ExecutionStartedEvent \<Rightarrow> string option" where
  "es_executionId es = Option.bind (es_WorkflowInstance es) wi_ExecutionId"

section \<open>Propagated history (history\_events.pb.go)\<close>

record PropagatedHistoryChunk =
  pc_RawEvents :: "bytes list"
  pc_AppId :: string
  pc_InstanceId :: string
  pc_WorkflowName :: string

record PropagatedHistory =
  ph_Scope :: HistoryPropagationScope
  ph_Chunks :: "PropagatedHistoryChunk option list"

section \<open>Workflow actions (orchestrator\_actions.pb.go)\<close>

record ScheduleTaskAction =
  sta_Name :: string
  sta_Version :: "string option"
  sta_Input :: "string option"
  sta_TaskExecutionId :: string
  sta_HistoryPropagationScope :: "HistoryPropagationScope option"

record CreateChildWorkflowAction =
  cca_InstanceId :: string
  cca_Name :: string
  cca_Version :: "string option"
  cca_Input :: "string option"
  cca_HistoryPropagationScope :: "HistoryPropagationScope option"
  cca_RetryParentInstanceInfo :: "string option"

record CreateDetachedWorkflowAction =
  cda_InstanceId :: string
  cda_Name :: string
  cda_Version :: "string option"
  cda_Input :: "string option"
  cda_ScheduledStartTimestamp :: "int option"
  cda_ExecutionId :: "string option"
  cda_Tags :: "(string \<times> string) list"
  cda_ParentTraceContext :: "TraceContext option"

record CreateTimerAction =
  cta_FireAt :: "int option"
  cta_Name :: "string option"
  cta_Origin :: TimerOrigin

record SendEventAction =
  sea_Instance :: "WorkflowInstance option"
  sea_Name :: string
  sea_Data :: "string option"

record CompleteWorkflowAction =
  cwa_WorkflowStatus :: OrchestrationStatus
  cwa_Result :: "string option"
  cwa_Details :: "string option"
  cwa_NewVersion :: "string option"
  cwa_CarryoverEvents :: "HistoryEvent list"
  cwa_FailureDetails :: "TaskFailureDetails option"

record TerminateWorkflowAction =
  twa_InstanceId :: string
  twa_Reason :: "string option"
  twa_Recurse :: bool

datatype WorkflowActionType =
    ActionTypeNotSet
  | ScheduleTask ScheduleTaskAction
  | CreateChildWorkflow CreateChildWorkflowAction
  | CreateTimer CreateTimerAction
  | SendEvent SendEventAction
  | CompleteWorkflow CompleteWorkflowAction
  | TerminateWorkflow TerminateWorkflowAction
  | WorkflowVersionNotAvailable
  | CreateDetachedWorkflow CreateDetachedWorkflowAction

record WorkflowAction =
  wa_Id :: int32
  wa_Type :: WorkflowActionType
  wa_Router :: "TaskRouter option"

section \<open>The runtime state (runtime\_state.pb.go)\<close>

record RuntimeStateStalled =
  rss_Reason :: StalledReason
  rss_Description :: "string option"

record WorkflowRuntimeStateMessage =
  rm_HistoryEvent :: HistoryEvent
  rm_TargetInstanceId :: string
  rm_PropagatedHistory :: "PropagatedHistory option"

record WorkflowRuntimeState =
  rs_InstanceId :: string
  rs_NewEvents :: "HistoryEvent list"
  rs_OldEvents :: "HistoryEvent list"
  rs_PendingTasks :: "HistoryEvent list"
  rs_PendingTimers :: "HistoryEvent list"
  rs_PendingMessages :: "WorkflowRuntimeStateMessage list"
  rs_StartEvent :: "ExecutionStartedEvent option"
  rs_CompletedEvent :: "ExecutionCompletedEvent option"
  rs_CreatedTime :: "int option"
  rs_LastUpdatedTime :: "int option"
  rs_CompletedTime :: "int option"
  rs_ContinuedAsNew :: bool
  rs_IsSuspended :: bool
  rs_CustomStatus :: "string option"
  rs_Stalled :: "RuntimeStateStalled option"

section \<open>Errors\<close>

text \<open>
  The sentinel errors of \<open>api/errors.go\<close>, \<open>backend/backend.go\<close>, \<open>backend/child_generation.go\<close>,
  \<open>runtimestate.go\<close> and \<open>local/task.go\<close>, errors built by \<open>errors.New\<close> or \<open>fmt.Errorf\<close>
  (\<open>ErrorString\<close>), a run-time panic on a nil pointer (\<open>NilDereference\<close>) and errors wrapped with \<open>%w\<close> (\<open>Wrapped\<close>). \<open>errors_Is\<close> follows the wrapping.
\<close>

datatype error =
    ErrInstanceNotFound | ErrNotStarted | ErrNotCompleted | ErrNoFailures | ErrDuplicateInstance
  | ErrIgnoreInstance | ErrTaskCancelled | ErrStalled
  | UnknownTaskIDError string int32 | UnknownInstanceIDError string | UnsupportedVersionError
  | ErrDuplicateEvent
  | ErrTaskHubExists | ErrTaskHubNotFound | ErrNotInitialized | ErrWorkItemLockLost
  | ErrBackendAlreadyStarted | ErrTaskHubStopping | ErrExternalDeliveryUnsupported
  | ErrEmptyExternalDeliveryID | ErrChildExecutionProvenanceRequired | ErrTaskAlreadyPending
  | ErrPropagationNotFound | ErrTaskCanceled
  | ErrTaskHubForceShutdownUnsupported | ErrContextCanceled | ErrDeadlineExceeded
  | ErrorString string
  | NilDereference
  | Wrapped string error

fun errors_Is :: "error \<Rightarrow> error \<Rightarrow> bool" where
  "errors_Is (Wrapped m e) t = (Wrapped m e = t \<or> errors_Is e t)"
| "errors_Is e t = (e = t)"

text \<open>The generated name of a status, as \<open>OrchestrationStatus.String()\<close> prints it.\<close>

fun OrchestrationStatus_String :: "OrchestrationStatus \<Rightarrow> string" where
  "OrchestrationStatus_String RUNNING = ''ORCHESTRATION_STATUS_RUNNING''"
| "OrchestrationStatus_String COMPLETED = ''ORCHESTRATION_STATUS_COMPLETED''"
| "OrchestrationStatus_String CONTINUED_AS_NEW = ''ORCHESTRATION_STATUS_CONTINUED_AS_NEW''"
| "OrchestrationStatus_String FAILED = ''ORCHESTRATION_STATUS_FAILED''"
| "OrchestrationStatus_String CANCELED = ''ORCHESTRATION_STATUS_CANCELED''"
| "OrchestrationStatus_String TERMINATED = ''ORCHESTRATION_STATUS_TERMINATED''"
| "OrchestrationStatus_String PENDING = ''ORCHESTRATION_STATUS_PENDING''"
| "OrchestrationStatus_String SUSPENDED = ''ORCHESTRATION_STATUS_SUSPENDED''"
| "OrchestrationStatus_String STALLED = ''ORCHESTRATION_STATUS_STALLED''"

text \<open>The status column of the stores (\<open>api/helpers/history.go\<close>); an unknown name reads as the zero value.\<close>

definition ToRuntimeStatusString :: "OrchestrationStatus \<Rightarrow> string" where
  "ToRuntimeStatusString status = drop (length ''ORCHESTRATION_STATUS_'') (OrchestrationStatus_String status)"

definition FromRuntimeStatusString :: "string \<Rightarrow> OrchestrationStatus" where
  "FromRuntimeStatusString status =
     (case List.find (\<lambda>st. OrchestrationStatus_String st = ''ORCHESTRATION_STATUS_'' @ status)
             [RUNNING, COMPLETED, CONTINUED_AS_NEW, FAILED, CANCELED, TERMINATED, PENDING, SUSPENDED, STALLED] of
        Some st \<Rightarrow> st | None \<Rightarrow> RUNNING)"

lemma runtime_status_roundtrip: "FromRuntimeStatusString (ToRuntimeStatusString st) = st"
  by (cases st) (simp_all add: FromRuntimeStatusString_def ToRuntimeStatusString_def)

section \<open>Libraries outside the repository\<close>

text \<open>
  What the code takes from libraries that are not part of the repository: the protobuf codec
  (\<open>proto.Marshal\<close> and \<open>proto.Unmarshal\<close> on history events and failure details, all of which can fail) and the
  hexadecimal SHA-256 digest of the JSON encoding of a list of strings.
\<close>

record lib =
  lib_marshal :: "HistoryEvent \<Rightarrow> bytes option"
  lib_unmarshal :: "bytes \<Rightarrow> HistoryEvent option"
  lib_marshal_details :: "TaskFailureDetails \<Rightarrow> bytes option"
  lib_unmarshal_details :: "bytes \<Rightarrow> TaskFailureDetails option"
  lib_digest :: "string list \<Rightarrow> string"

text \<open>
  The documented behaviour of the codec: an encoded event decodes to the event it came from.
  Properties that depend on it name it as a hypothesis.
\<close>

definition codec_ok :: "lib \<Rightarrow> bool" where
  "codec_ok L \<longleftrightarrow> (\<forall>e b. lib_marshal L e = Some b \<longrightarrow> lib_unmarshal L b = Some e) \<and>
     (\<forall>d b. lib_marshal_details L d = Some b \<longrightarrow> lib_unmarshal_details L b = Some d)"

definition proto_Marshal :: "lib \<Rightarrow> HistoryEvent \<Rightarrow> error + bytes" where
  "proto_Marshal L e =
     (case lib_marshal L e of None \<Rightarrow> Inl (ErrorString ''proto: marshal'') | Some b \<Rightarrow> Inr b)"

definition proto_Unmarshal :: "lib \<Rightarrow> bytes \<Rightarrow> error + HistoryEvent" where
  "proto_Unmarshal L b =
     (case lib_unmarshal L b of None \<Rightarrow> Inl (ErrorString ''proto: unmarshal'') | Some e \<Rightarrow> Inr e)"

definition MarshalHistoryEvent :: "lib \<Rightarrow> HistoryEvent \<Rightarrow> error + bytes" where
  "MarshalHistoryEvent L e =
     (case proto_Marshal L e of
        Inl err \<Rightarrow> Inl (Wrapped ''failed to marshal history event'' err)
      | Inr b \<Rightarrow> Inr b)"

definition UnmarshalHistoryEvent :: "lib \<Rightarrow> bytes \<Rightarrow> error + HistoryEvent" where
  "UnmarshalHistoryEvent L b =
     (case proto_Unmarshal L b of
        Inl err \<Rightarrow> Inl (Wrapped ''unreadable history event payload'' err)
      | Inr e \<Rightarrow> Inr e)"

lemma proto_roundtrip:
  "codec_ok L \<Longrightarrow> proto_Marshal L e = Inr b \<Longrightarrow> proto_Unmarshal L b = Inr e"
  by (auto simp: codec_ok_def proto_Marshal_def proto_Unmarshal_def split: option.splits)

lemma Unmarshal_Marshal:
  "codec_ok L \<Longrightarrow> MarshalHistoryEvent L e = Inr b \<Longrightarrow> UnmarshalHistoryEvent L b = Inr e"
  by (auto simp: MarshalHistoryEvent_def UnmarshalHistoryEvent_def proto_roundtrip split: sum.splits)

text \<open>
  A codec for a fixed table of events: the encoding of an event is its position. It shows that
  the hypothesis \<open>codec_ok\<close> can hold, and the concrete instances of the properties use it.
\<close>

definition table_lib :: "HistoryEvent list \<Rightarrow> lib" where
  "table_lib evs =
     \<lparr>lib_marshal = (\<lambda>e. if e \<in> set evs then Some (replicate (length (takeWhile ((\<noteq>) e) evs)) 0) else None),
      lib_unmarshal = (\<lambda>b. if length b < length evs then Some (evs ! length b) else None),
      lib_marshal_details = (\<lambda>d. None), lib_unmarshal_details = (\<lambda>b. None),
      lib_digest = concat\<rparr>"

lemma codec_ok_table_lib: "codec_ok (table_lib evs)"
proof -
  have "length (takeWhile ((\<noteq>) e) evs) < length evs \<and> evs ! length (takeWhile ((\<noteq>) e) evs) = e"
    if "e \<in> set evs" for e
    using that by (induction evs) auto
  then show ?thesis by (auto simp: codec_ok_def table_lib_def)
qed

end
