(* ===== verification/Dedup.thy ===== *)
theory Dedup
  imports Protos
begin

unbundle bit_operations_syntax

text \<open>
  The package \<open>backend/runtimestate/dedup\<close>: the correlator of a task-resolution event, the
  linear duplicate scan and the constant-time duplicate set, whose keys pack the correlator
  into one 64-bit integer. The locale \<open>dup_detector\<close> is the contract the runtime state relies
  on; the packed set is an instance of it.
\<close>

datatype Kind = KindNone | KindTask | KindTimer | KindChild

fun kind_code :: "Kind \<Rightarrow> uint64" where
  "kind_code KindNone = 0"
| "kind_code KindTask = 1"
| "kind_code KindTimer = 2"
| "kind_code KindChild = 3"

definition Of :: "HistoryEvent \<Rightarrow> (Kind \<times> int32) option" where
  "Of e =
     (case he_EventType e of
        TaskCompleted x \<Rightarrow> Some (KindTask, tcd_TaskScheduledId x)
      | TaskFailed x \<Rightarrow> Some (KindTask, tf_TaskScheduledId x)
      | TimerFired x \<Rightarrow> Some (KindTimer, tmf_TimerId x)
      | ChildWorkflowInstanceCompleted x \<Rightarrow> Some (KindChild, cc_TaskScheduledId x)
      | ChildWorkflowInstanceFailed x \<Rightarrow> Some (KindChild, cf_TaskScheduledId x)
      | _ \<Rightarrow> None)"

fun IsPresent :: "HistoryEvent list \<Rightarrow> Kind \<Rightarrow> int32 \<Rightarrow> bool" where
  "IsPresent [] k i = False"
| "IsPresent (e # es) k i =
     (case Of e of
        Some (k', i') \<Rightarrow> if k' = k \<and> i' = i then True else IsPresent es k i
      | None \<Rightarrow> IsPresent es k i)"

section \<open>The packed set (set.go)\<close>

definition packKey :: "Kind \<Rightarrow> int32 \<Rightarrow> uint64" where
  "packKey k i = push_bit 32 (kind_code k) OR ucast i"

text \<open>A Go map used as a set; \<open>None\<close> is the nil map.\<close>

type_synonym Set = "uint64 set option"

definition New :: Set where
  "New = Some {}"

definition Has :: "Set \<Rightarrow> Kind \<Rightarrow> int32 \<Rightarrow> bool" where
  "Has s k i = (case s of None \<Rightarrow> False | Some S \<Rightarrow> packKey k i \<in> S)"

definition Add :: "Set \<Rightarrow> Kind \<Rightarrow> int32 \<Rightarrow> bool \<times> Set" where
  "Add s k i =
     (case s of
        None \<Rightarrow> (False, None)
      | Some S \<Rightarrow> if packKey k i \<in> S then (True, Some S) else (False, Some (insert (packKey k i) S)))"

fun populate :: "uint64 set \<Rightarrow> HistoryEvent list \<Rightarrow> uint64 set" where
  "populate S [] = S"
| "populate S (e # es) =
     (case Of e of
        Some (k, i) \<Rightarrow> populate (insert (packKey k i) S) es
      | None \<Rightarrow> populate S es)"

definition NewForState :: "WorkflowRuntimeState \<Rightarrow> Set" where
  "NewForState s = Some (populate (populate {} (rs_OldEvents s)) (rs_NewEvents s))"

section \<open>Packing is injective\<close>

lemma kind_code_inject: "kind_code k = kind_code k' \<longleftrightarrow> k = k'"
  by (cases k; cases k') simp_all

lemma ucast32_take: "take_bit 32 (ucast (i :: int32) :: uint64) = ucast i"
  by (rule bit_word_eqI) (auto simp: bit_simps dest: bit_imp_le_length)

lemma ucast32_drop: "drop_bit 32 (ucast (i :: int32) :: uint64) = 0"
  by (rule bit_word_eqI) (auto simp: bit_simps dest: bit_imp_le_length)

lemma ucast32_inject: "(ucast (i :: int32) :: uint64) = ucast i' \<longleftrightarrow> i = i'"
proof
  assume eq: "(ucast i :: uint64) = ucast i'"
  show "i = i'"
  proof (rule bit_word_eqI)
    fix n assume n: "n < LENGTH(32)"
    from eq have "bit (ucast i :: uint64) n = bit (ucast i' :: uint64) n" by simp
    with n show "bit i n = bit i' n" by (simp add: bit_simps)
  qed
qed simp

lemma packKey_low: "take_bit 32 (packKey k i) = (ucast i :: uint64)"
  by (simp add: packKey_def take_bit_or take_bit_push_bit ucast32_take)

lemma packKey_high: "drop_bit 32 (packKey k i) = kind_code k"
  by (cases k) (simp_all add: packKey_def ucast32_drop)

lemma packKey_inject: "packKey k i = packKey k' i' \<longleftrightarrow> k = k' \<and> i = i'"
proof
  assume eq: "packKey k i = packKey k' i'"
  then have "drop_bit 32 (packKey k i) = drop_bit 32 (packKey k' i')"
    and "take_bit 32 (packKey k i) = take_bit 32 (packKey k' i')"
    by simp_all
  then have "kind_code k = kind_code k'" and "(ucast i :: uint64) = ucast i'"
    unfolding packKey_high packKey_low .
  then show "k = k' \<and> i = i'" by (simp add: kind_code_inject ucast32_inject)
qed simp

section \<open>The scan and the set agree\<close>

text \<open>The correlators recorded by a list of events, in order.\<close>

abbreviation resolution_keys :: "HistoryEvent list \<Rightarrow> (Kind \<times> int32) list" where
  "resolution_keys es \<equiv> List.map_filter Of es"

lemma IsPresent_iff: "IsPresent es k i \<longleftrightarrow> (k, i) \<in> set (resolution_keys es)"
  by (induction es) (auto simp: List.map_filter_def split: option.splits)

lemma populate_eq: "populate S es = S \<union> (\<lambda>(k, i). packKey k i) ` set (resolution_keys es)"
  by (induction es arbitrary: S) (auto simp: List.map_filter_def split: option.splits)

definition key_set :: "Set \<Rightarrow> (Kind \<times> int32) set" where
  "key_set s = (case s of None \<Rightarrow> {} | Some S \<Rightarrow> {(k, i). packKey k i \<in> S})"

lemma key_set_New [simp]: "key_set New = {}"
  by (simp add: key_set_def New_def)

lemma packKey_image [simp]: "packKey k i \<in> (\<lambda>(k, i). packKey k i) ` A \<longleftrightarrow> (k, i) \<in> A"
  by (force simp: packKey_inject)

lemma key_set_NewForState:
  "key_set (NewForState s) = set (resolution_keys (rs_OldEvents s @ rs_NewEvents s))"
  by (auto simp: key_set_def NewForState_def populate_eq)

section \<open>The contract of a duplicate detector\<close>

text \<open>
  A detector answers whether a correlator was seen and records it. Whatever the
  representation, running it over a sequence of correlators reports exactly those that
  occurred before.
\<close>

fun note_all :: "('s \<Rightarrow> Kind \<Rightarrow> int32 \<Rightarrow> bool \<times> 's) \<Rightarrow> 's \<Rightarrow> (Kind \<times> int32) list \<Rightarrow> bool list \<times> 's" where
  "note_all nt s [] = ([], s)"
| "note_all nt s ((k, i) # ks) =
     (let (d, s') = nt s k i; (ds, s'') = note_all nt s' ks in (d # ds, s''))"

locale dup_detector =
  fixes present :: "'s \<Rightarrow> Kind \<Rightarrow> int32 \<Rightarrow> bool"
    and nt :: "'s \<Rightarrow> Kind \<Rightarrow> int32 \<Rightarrow> bool \<times> 's"
    and keys :: "'s \<Rightarrow> (Kind \<times> int32) set"
    and invar :: "'s \<Rightarrow> bool"
  assumes present_iff: "invar s \<Longrightarrow> present s k i \<longleftrightarrow> (k, i) \<in> keys s"
    and fst_note: "invar s \<Longrightarrow> fst (nt s k i) \<longleftrightarrow> (k, i) \<in> keys s"
    and keys_note: "invar s \<Longrightarrow> keys (snd (nt s k i)) = insert (k, i) (keys s)"
    and invar_note: "invar s \<Longrightarrow> invar (snd (nt s k i))"
begin

lemma note_all_spec:
  assumes "invar s"
  shows "fst (note_all nt s ks) =
           map (\<lambda>j. ks ! j \<in> keys s \<union> set (take j ks)) [0..<length ks]"
    and "keys (snd (note_all nt s ks)) = keys s \<union> set ks"
    and "invar (snd (note_all nt s ks))"
proof -
  have "fst (note_all nt s ks) = map (\<lambda>j. ks ! j \<in> keys s \<union> set (take j ks)) [0..<length ks] \<and>
     keys (snd (note_all nt s ks)) = keys s \<union> set ks \<and> invar (snd (note_all nt s ks))"
    using assms
  proof (induction ks arbitrary: s)
    case Nil
    then show ?case by simp
  next
    case (Cons ki ks)
    obtain k i where ki: "ki = (k, i)" by (cases ki)
    note st = fst_note [OF Cons.prems, of k i] keys_note [OF Cons.prems, of k i]
      invar_note [OF Cons.prems, of k i]
    from Cons.IH [OF st(3)] st(1,2) show ?case
      by (auto simp: ki case_prod_unfold Let_def map_upt_Suc simp del: upt_Suc)
  qed
  then show "fst (note_all nt s ks) = map (\<lambda>j. ks ! j \<in> keys s \<union> set (take j ks)) [0..<length ks]"
    and "keys (snd (note_all nt s ks)) = keys s \<union> set ks"
    and "invar (snd (note_all nt s ks))" by simp_all
qed

lemma note_idempotent: "invar s \<Longrightarrow> fst (nt (snd (nt s k i)) k i)"
  by (simp add: fst_note invar_note keys_note)

end

interpretation packed: dup_detector Has Add key_set "\<lambda>s. s \<noteq> None"
  by unfold_locales
    (auto simp: Has_def Add_def key_set_def packKey_inject split: option.splits if_splits)

end
