(* ===== verification/RuntimeState.thy ===== *)
theory RuntimeState
  imports Dedup
begin

text \<open>
  The package \<open>backend/runtimestate\<close>, file \<open>runtimestate.go\<close>: loading a committed history,
  appending new events with duplicate detection, and the read accessors.

  The abstract specification is the log, the committed events followed by the new ones: every
  derived field of the state is a function of it (\<open>rs_wf\<close>), every operation keeps it so, and
  loading the log of a state gives the derived fields of that state back.
\<close>

section \<open>Operations\<close>

definition emptyWorkflowRuntimeState :: "string \<Rightarrow> string option \<Rightarrow> WorkflowRuntimeState" where
  "emptyWorkflowRuntimeState iid cs =
     \<lparr>rs_InstanceId = iid, rs_NewEvents = [], rs_OldEvents = [], rs_PendingTasks = [],
      rs_PendingTimers = [], rs_PendingMessages = [], rs_StartEvent = None,
      rs_CompletedEvent = None, rs_CreatedTime = None, rs_LastUpdatedTime = None,
      rs_CompletedTime = None, rs_ContinuedAsNew = False, rs_IsSuspended = False,
      rs_CustomStatus = cs, rs_Stalled = None\<rparr>"

text \<open>
  The tail of \<open>addEventWithDedup\<close>, reached by every event that is not a duplicate: clear a
  prior stall, append, stamp the update time.
\<close>

definition appendEvent :: "WorkflowRuntimeState \<Rightarrow> HistoryEvent \<Rightarrow> bool \<Rightarrow> WorkflowRuntimeState" where
  "appendEvent s e isNew =
     (let s1 = (case he_EventType e of ExecutionStalled _ \<Rightarrow> s | _ \<Rightarrow> s\<lparr>rs_Stalled := None\<rparr>);
          s2 = (if isNew then s1\<lparr>rs_NewEvents := rs_NewEvents s1 @ [e]\<rparr>
                else s1\<lparr>rs_OldEvents := rs_OldEvents s1 @ [e]\<rparr>)
      in s2\<lparr>rs_LastUpdatedTime := Some (AsTime (he_Timestamp e))\<rparr>)"

definition addEventWithDedup ::
  "WorkflowRuntimeState \<Rightarrow> HistoryEvent \<Rightarrow> bool \<Rightarrow> Set
     \<Rightarrow> error option \<times> WorkflowRuntimeState \<times> Set" where
  "addEventWithDedup s e isNew seen =
     (case he_EventType e of
        ExecutionStarted startEvent \<Rightarrow>
          if rs_StartEvent s \<noteq> None then (Some ErrDuplicateEvent, s, seen)
          else (None, appendEvent (s\<lparr>rs_StartEvent := Some startEvent,
                  rs_CreatedTime := Some (AsTime (he_Timestamp e))\<rparr>) e isNew, seen)
      | ExecutionCompleted completedEvent \<Rightarrow>
          if rs_CompletedEvent s \<noteq> None then (Some ErrDuplicateEvent, s, seen)
          else (None, appendEvent (s\<lparr>rs_CompletedEvent := Some completedEvent,
                  rs_CompletedTime := Some (AsTime (he_Timestamp e))\<rparr>) e isNew, seen)
      | ExecutionSuspended _ \<Rightarrow> (None, appendEvent (s\<lparr>rs_IsSuspended := True\<rparr>) e isNew, seen)
      | ExecutionResumed _ \<Rightarrow> (None, appendEvent (s\<lparr>rs_IsSuspended := False\<rparr>) e isNew, seen)
      | ExecutionStalled stalledEvent \<Rightarrow>
          (None, appendEvent (s\<lparr>rs_Stalled := Some \<lparr>rss_Reason = est_Reason stalledEvent,
                  rss_Description = est_Description stalledEvent\<rparr>\<rparr>) e isNew, seen)
      | _ \<Rightarrow>
          (case Of e of
             None \<Rightarrow> (None, appendEvent s e isNew, seen)
           | Some (kind, i) \<Rightarrow>
               if seen \<noteq> None then
                 (let (dup, seen') = Add seen kind i in
                  if dup then (Some ErrDuplicateEvent, s, seen')
                  else (None, appendEvent s e isNew, seen'))
               else if IsPresent (rs_OldEvents s) kind i \<or> IsPresent (rs_NewEvents s) kind i
               then (Some ErrDuplicateEvent, s, seen)
               else (None, appendEvent s e isNew, seen)))"

definition AddEvent :: "WorkflowRuntimeState \<Rightarrow> HistoryEvent \<Rightarrow> error option \<times> WorkflowRuntimeState" where
  "AddEvent s e = (let (err, s', _) = addEventWithDedup s e True None in (err, s'))"

text \<open>The loops of \<open>AddEvents\<close> and \<open>NewWorkflowRuntimeState\<close>: one set threaded through all events.\<close>

fun addAllWithDedup ::
  "bool \<Rightarrow> WorkflowRuntimeState \<Rightarrow> Set \<Rightarrow> HistoryEvent list \<Rightarrow> error option list \<times> WorkflowRuntimeState" where
  "addAllWithDedup isNew s seen [] = ([], s)"
| "addAllWithDedup isNew s seen (e # es) =
     (let (err, s', seen') = addEventWithDedup s e isNew seen;
          (errs, s'') = addAllWithDedup isNew s' seen' es
      in (err # errs, s''))"

definition AddEvents ::
  "WorkflowRuntimeState \<Rightarrow> HistoryEvent list \<Rightarrow> error option list \<times> WorkflowRuntimeState" where
  "AddEvents s events =
     (if events = [] then ([], s) else addAllWithDedup True s (NewForState s) events)"

definition NewWorkflowRuntimeState ::
  "string \<Rightarrow> string option \<Rightarrow> HistoryEvent list \<Rightarrow> WorkflowRuntimeState" where
  "NewWorkflowRuntimeState iid cs existingHistory =
     snd (addAllWithDedup False (emptyWorkflowRuntimeState iid cs) New existingHistory)"

definition IsValid :: "WorkflowRuntimeState \<Rightarrow> bool" where
  "IsValid s =
     (if rs_OldEvents s = [] \<and> rs_NewEvents s = [] then True
      else if rs_StartEvent s \<noteq> None then True else False)"

definition Name :: "WorkflowRuntimeState \<Rightarrow> error + string" where
  "Name s = (case rs_StartEvent s of None \<Rightarrow> Inl ErrNotStarted | Some es \<Rightarrow> Inr (es_Name es))"

definition Input :: "WorkflowRuntimeState \<Rightarrow> error + string option" where
  "Input s = (case rs_StartEvent s of None \<Rightarrow> Inl ErrNotStarted | Some es \<Rightarrow> Inr (es_Input es))"

definition Output :: "WorkflowRuntimeState \<Rightarrow> error + string option" where
  "Output s = (case rs_CompletedEvent s of None \<Rightarrow> Inl ErrNotCompleted | Some ec \<Rightarrow> Inr (ec_Result ec))"

definition RuntimeStatus :: "WorkflowRuntimeState \<Rightarrow> OrchestrationStatus" where
  "RuntimeStatus s =
     (case rs_StartEvent s of
        None \<Rightarrow> if rs_Stalled s \<noteq> None then STALLED else PENDING
      | Some _ \<Rightarrow>
          (case rs_CompletedEvent s of
             Some ec \<Rightarrow> ec_WorkflowStatus ec
           | None \<Rightarrow> if rs_Stalled s \<noteq> None then STALLED
                     else if rs_IsSuspended s then SUSPENDED else RUNNING))"

definition CreatedTime :: "WorkflowRuntimeState \<Rightarrow> error + int" where
  "CreatedTime s =
     (if rs_StartEvent s = None then Inl ErrNotStarted else Inr (AsTime (rs_CreatedTime s)))"

definition LastUpdatedTime :: "WorkflowRuntimeState \<Rightarrow> error + int" where
  "LastUpdatedTime s =
     (if rs_StartEvent s = None then Inl ErrNotStarted else Inr (AsTime (rs_LastUpdatedTime s)))"

definition CompletedTime :: "WorkflowRuntimeState \<Rightarrow> error + int" where
  "CompletedTime s =
     (if rs_CompletedEvent s = None then Inl ErrNotCompleted else Inr (AsTime (rs_CompletedTime s)))"

definition FailureDetails :: "WorkflowRuntimeState \<Rightarrow> error + TaskFailureDetails" where
  "FailureDetails s =
     (case rs_CompletedEvent s of
        None \<Rightarrow> Inl ErrNotCompleted
      | Some ec \<Rightarrow>
          (case ec_FailureDetails ec of None \<Rightarrow> Inl ErrNoFailures | Some fd \<Rightarrow> Inr fd))"

definition CancelPending :: "WorkflowRuntimeState \<Rightarrow> WorkflowRuntimeState" where
  "CancelPending s =
     s\<lparr>rs_NewEvents := [], rs_PendingMessages := [], rs_PendingTasks := [], rs_PendingTimers := []\<rparr>"

definition GetStartedTime :: "WorkflowRuntimeState \<Rightarrow> int" where
  "GetStartedTime s =
     (case rs_OldEvents s of
        e # _ \<Rightarrow> AsTime (he_Timestamp e)
      | [] \<Rightarrow> (case rs_NewEvents s of e # _ \<Rightarrow> AsTime (he_Timestamp e) | [] \<Rightarrow> zero_time))"

definition IsCompleted :: "WorkflowRuntimeState \<Rightarrow> bool" where
  "IsCompleted s = (rs_CompletedEvent s \<noteq> None)"

section \<open>The log specification\<close>

abbreviation rs_log :: "WorkflowRuntimeState \<Rightarrow> HistoryEvent list" where
  "rs_log s \<equiv> rs_OldEvents s @ rs_NewEvents s"

fun log_suspended :: "bool \<Rightarrow> HistoryEvent list \<Rightarrow> bool" where
  "log_suspended b [] = b"
| "log_suspended b (e # es) =
     log_suspended (case he_EventType e of ExecutionSuspended _ \<Rightarrow> True
                    | ExecutionResumed _ \<Rightarrow> False | _ \<Rightarrow> b) es"

lemma log_suspended_append: "log_suspended b (xs @ ys) = log_suspended (log_suspended b xs) ys"
  by (induction xs arbitrary: b) auto

definition log_updated :: "HistoryEvent list \<Rightarrow> int option" where
  "log_updated es = (if es = [] then None else Some (AsTime (he_Timestamp (last es))))"

definition stamped :: "(HistoryEvent \<Rightarrow> 'a option) \<Rightarrow> HistoryEvent \<Rightarrow> int option" where
  "stamped f e = map_option (\<lambda>_. AsTime (he_Timestamp e)) (f e)"

text \<open>
  No duplicates: at most one start, one completion, and one resolution per correlator.
\<close>

definition log_ok :: "HistoryEvent list \<Rightarrow> bool" where
  "log_ok es \<longleftrightarrow>
     distinct (resolution_keys es) \<and>
     length (List.map_filter GetExecutionStarted es) \<le> 1 \<and>
     length (List.map_filter GetExecutionCompleted es) \<le> 1"

text \<open>The derived fields are what the log says.\<close>

definition rs_wf :: "WorkflowRuntimeState \<Rightarrow> bool" where
  "rs_wf s \<longleftrightarrow>
     log_ok (rs_log s) \<and>
     rs_StartEvent s = find_first GetExecutionStarted (rs_log s) \<and>
     rs_CompletedEvent s = find_first GetExecutionCompleted (rs_log s) \<and>
     rs_CreatedTime s = find_first (stamped GetExecutionStarted) (rs_log s) \<and>
     rs_CompletedTime s = find_first (stamped GetExecutionCompleted) (rs_log s) \<and>
     rs_IsSuspended s = log_suspended False (rs_log s) \<and>
     rs_LastUpdatedTime s = log_updated (rs_log s)"


section \<open>One step\<close>

text \<open>When an event repeats one the log already holds, and what a log makes of a new event.\<close>

definition dup_in :: "HistoryEvent list \<Rightarrow> HistoryEvent \<Rightarrow> bool" where
  "dup_in es e \<longleftrightarrow>
     (GetExecutionStarted e \<noteq> None \<and> find_first GetExecutionStarted es \<noteq> None) \<or>
     (GetExecutionCompleted e \<noteq> None \<and> find_first GetExecutionCompleted es \<noteq> None) \<or>
     (\<exists>k. Of e = Some k \<and> k \<in> set (resolution_keys es))"

text \<open>What the state itself answers, before it is known to agree with the log.\<close>

definition dup_event :: "WorkflowRuntimeState \<Rightarrow> HistoryEvent \<Rightarrow> bool" where
  "dup_event s e \<longleftrightarrow>
     (GetExecutionStarted e \<noteq> None \<and> rs_StartEvent s \<noteq> None) \<or>
     (GetExecutionCompleted e \<noteq> None \<and> rs_CompletedEvent s \<noteq> None) \<or>
     (\<exists>k. Of e = Some k \<and> k \<in> set (resolution_keys (rs_log s)))"

definition rs_keys :: "WorkflowRuntimeState \<Rightarrow> (Kind \<times> int32) set" where
  "rs_keys s = set (resolution_keys (rs_log s))"

definition seen_ok :: "WorkflowRuntimeState \<Rightarrow> Set \<Rightarrow> bool" where
  "seen_ok s seen \<longleftrightarrow> seen = None \<or> key_set seen = rs_keys s"

lemma seen_ok_simps [simp]: "seen_ok s None" "seen_ok s (NewForState s)"
  by (simp_all add: seen_ok_def rs_keys_def key_set_NewForState)

definition accept :: "WorkflowRuntimeState \<Rightarrow> HistoryEvent \<Rightarrow> bool \<Rightarrow> WorkflowRuntimeState" where
  "accept s e isNew =
     appendEvent
       (case he_EventType e of
          ExecutionStarted x \<Rightarrow> s\<lparr>rs_StartEvent := Some x, rs_CreatedTime := Some (AsTime (he_Timestamp e))\<rparr>
        | ExecutionCompleted x \<Rightarrow>
            s\<lparr>rs_CompletedEvent := Some x, rs_CompletedTime := Some (AsTime (he_Timestamp e))\<rparr>
        | ExecutionSuspended _ \<Rightarrow> s\<lparr>rs_IsSuspended := True\<rparr>
        | ExecutionResumed _ \<Rightarrow> s\<lparr>rs_IsSuspended := False\<rparr>
        | ExecutionStalled x \<Rightarrow>
            s\<lparr>rs_Stalled := Some \<lparr>rss_Reason = est_Reason x, rss_Description = est_Description x\<rparr>\<rparr>
        | _ \<Rightarrow> s) e isNew"

lemma accept_fields [simp]:
  "rs_NewEvents (accept s e isNew) = (if isNew then rs_NewEvents s @ [e] else rs_NewEvents s)"
  "rs_OldEvents (accept s e isNew) = (if isNew then rs_OldEvents s else rs_OldEvents s @ [e])"
  "rs_StartEvent (accept s e isNew) =
     (case GetExecutionStarted e of None \<Rightarrow> rs_StartEvent s | Some x \<Rightarrow> Some x)"
  "rs_CompletedEvent (accept s e isNew) =
     (case GetExecutionCompleted e of None \<Rightarrow> rs_CompletedEvent s | Some x \<Rightarrow> Some x)"
  "rs_CreatedTime (accept s e isNew) =
     (case stamped GetExecutionStarted e of None \<Rightarrow> rs_CreatedTime s | Some t \<Rightarrow> Some t)"
  "rs_CompletedTime (accept s e isNew) =
     (case stamped GetExecutionCompleted e of None \<Rightarrow> rs_CompletedTime s | Some t \<Rightarrow> Some t)"
  "rs_IsSuspended (accept s e isNew) = log_suspended (rs_IsSuspended s) [e]"
  "rs_LastUpdatedTime (accept s e isNew) = Some (AsTime (he_Timestamp e))"
  "rs_InstanceId (accept s e isNew) = rs_InstanceId s"
  "rs_CustomStatus (accept s e isNew) = rs_CustomStatus s"
  "rs_ContinuedAsNew (accept s e isNew) = rs_ContinuedAsNew s"
  "rs_PendingTasks (accept s e isNew) = rs_PendingTasks s"
  "rs_PendingTimers (accept s e isNew) = rs_PendingTimers s"
  "rs_PendingMessages (accept s e isNew) = rs_PendingMessages s"
  "rs_Stalled (accept s e isNew) =
     (case he_EventType e of
        ExecutionStalled x \<Rightarrow> Some \<lparr>rss_Reason = est_Reason x, rss_Description = est_Description x\<rparr>
      | _ \<Rightarrow> None)"
  by (cases "he_EventType e"; simp add: accept_def appendEvent_def Let_def getter_defs stamped_def)+

lemma rs_log_accept:
  "isNew \<or> rs_NewEvents s = [] \<Longrightarrow> rs_log (accept s e isNew) = rs_log s @ [e]"
  by auto

lemma rs_keys_accept:
  "isNew \<or> rs_NewEvents s = [] \<Longrightarrow> rs_keys (accept s e isNew) = rs_keys s \<union> set_option (Of e)"
  by (simp only: rs_keys_def rs_log_accept) (auto split: option.splits)

lemma Of_start_complete:
  "GetExecutionStarted e = Some x \<Longrightarrow> Of e = None \<and> GetExecutionCompleted e = None"
  "GetExecutionCompleted e = Some y \<Longrightarrow> Of e = None \<and> GetExecutionStarted e = None"
  "Of e = Some k \<Longrightarrow> GetExecutionStarted e = None \<and> GetExecutionCompleted e = None"
  by (auto simp: getter_defs Of_def split: HistoryEventType.splits)

lemma addEventWithDedup_no_key:
  assumes "Of e = None"
  shows "addEventWithDedup s e isNew seen =
     (if dup_event s e then (Some ErrDuplicateEvent, s, seen) else (None, accept s e isNew, seen))"
  using assms
  by (cases "he_EventType e")
    (simp_all add: addEventWithDedup_def dup_event_def accept_def getter_defs Of_def)

lemma addEventWithDedup_key:
  assumes "Of e = Some (k, i)"
  shows "addEventWithDedup s e isNew seen =
     (if seen \<noteq> None then
        (let (dup, seen') = Add seen k i in
         if dup then (Some ErrDuplicateEvent, s, seen') else (None, accept s e isNew, seen'))
      else if IsPresent (rs_OldEvents s) k i \<or> IsPresent (rs_NewEvents s) k i
      then (Some ErrDuplicateEvent, s, seen) else (None, accept s e isNew, seen))"
proof -
  from assms have acc: "accept s e isNew = appendEvent s e isNew"
    by (cases "he_EventType e") (simp_all add: accept_def Of_def)
  show ?thesis
    unfolding acc using assms
    by (cases "he_EventType e") (simp_all add: addEventWithDedup_def Of_def)
qed

text \<open>
  The step in terms of the state alone: with a set that agrees with the events, or with none,
  an event is rejected exactly when it is a duplicate.
\<close>

lemma addEventWithDedup_spec:
  assumes "seen_ok s seen" and "addEventWithDedup s e isNew seen = (err, s', seen')"
  shows "err = (if dup_event s e then Some ErrDuplicateEvent else None)"
    and "s' = (if dup_event s e then s else accept s e isNew)"
    and "isNew \<or> rs_NewEvents s = [] \<Longrightarrow> seen_ok s' seen'"
proof -
  have "err = (if dup_event s e then Some ErrDuplicateEvent else None) \<and>
     s' = (if dup_event s e then s else accept s e isNew) \<and>
     (isNew \<or> rs_NewEvents s = [] \<longrightarrow> seen_ok s' seen')"
  proof (cases "Of e")
    case None
    then have "addEventWithDedup s e isNew seen =
        (if dup_event s e then (Some ErrDuplicateEvent, s, seen) else (None, accept s e isNew, seen))"
      by (rule addEventWithDedup_no_key)
    with assms(2) have r: "err = (if dup_event s e then Some ErrDuplicateEvent else None)"
      "s' = (if dup_event s e then s else accept s e isNew)" "seen' = seen"
      by (simp_all split: if_splits)
    with None assms(1) rs_keys_accept [of isNew s e] show ?thesis
      by (auto simp: seen_ok_def split: if_splits)
  next
    case (Some key)
    obtain k i where ki: "key = (k, i)" by (cases key)
    have dup: "dup_event s e \<longleftrightarrow> (k, i) \<in> rs_keys s"
      using Some ki Of_start_complete(3) [of e key] by (simp add: dup_event_def rs_keys_def)
    show ?thesis
    proof (cases "seen = None")
      case True
      with Some ki dup have "addEventWithDedup s e isNew seen =
          (if dup_event s e then (Some ErrDuplicateEvent, s, None) else (None, accept s e isNew, None))"
        by (simp add: addEventWithDedup_key IsPresent_iff rs_keys_def)
      with assms(2) show ?thesis by (simp split: if_splits)
    next
      case False
      obtain d seen'' where add: "Add seen k i = (d, seen'')" by (cases "Add seen k i")
      with False have d: "d \<longleftrightarrow> (k, i) \<in> key_set seen"
        and ks: "key_set seen'' = insert (k, i) (key_set seen)"
        using packed.fst_note [of seen k i] packed.keys_note [of seen k i] by simp_all
      from False assms(1) have kl: "key_set seen = rs_keys s"
        by (auto simp: seen_ok_def)
      have "addEventWithDedup s e isNew seen =
          (if d then (Some ErrDuplicateEvent, s, seen'') else (None, accept s e isNew, seen''))"
        using Some ki False by (simp add: addEventWithDedup_key add)
      with assms(2) have r: "err = (if d then Some ErrDuplicateEvent else None)"
        "s' = (if d then s else accept s e isNew)" "seen' = seen''"
        by (simp_all split: if_splits)
      from r d ks kl dup Some ki rs_keys_accept [of isNew s e] show ?thesis
        by (cases d) (auto simp: seen_ok_def)
    qed
  qed
  then show "err = (if dup_event s e then Some ErrDuplicateEvent else None)"
    and "s' = (if dup_event s e then s else accept s e isNew)"
    and "isNew \<or> rs_NewEvents s = [] \<Longrightarrow> seen_ok s' seen'" by blast+
qed

lemma AddEvent_eq:
  "AddEvent s e = (if dup_event s e then (Some ErrDuplicateEvent, s) else (None, accept s e True))"
proof -
  obtain err s' seen' where r: "addEventWithDedup s e True None = (err, s', seen')"
    by (cases "addEventWithDedup s e True None")
  from addEventWithDedup_spec [OF seen_ok_simps(1) this] show ?thesis
    by (simp add: AddEvent_def r)
qed


section \<open>Batches\<close>

text \<open>Adding the events one at a time, each with the linear scan.\<close>

fun addEach :: "WorkflowRuntimeState \<Rightarrow> HistoryEvent list \<Rightarrow> error option list \<times> WorkflowRuntimeState" where
  "addEach s [] = ([], s)"
| "addEach s (e # es) =
     (let (err, s') = AddEvent s e; (errs, s'') = addEach s' es in (err # errs, s''))"

lemma addAllWithDedup_eq_addEach:
  "seen_ok s seen \<Longrightarrow> addAllWithDedup True s seen es = addEach s es"
proof (induction es arbitrary: s seen)
  case Nil
  then show ?case by simp
next
  case (Cons e es)
  obtain err s' seen' where r: "addEventWithDedup s e True seen = (err, s', seen')"
    by (cases "addEventWithDedup s e True seen")
  note spec = addEventWithDedup_spec [OF Cons.prems r]
  from spec(1,2) have "AddEvent s e = (err, s')" by (simp add: AddEvent_eq)
  moreover from spec(3) have "addAllWithDedup True s' seen' es = addEach s' es"
    by (intro Cons.IH) simp
  ultimately show ?case by (simp add: r)
qed

lemma AddEvents_eq_addEach: "AddEvents s es = addEach s es"
  by (simp add: AddEvents_def addAllWithDedup_eq_addEach)

section \<open>The log is kept\<close>

lemma find_first_None_map_filter: "find_first f es = None \<longleftrightarrow> List.map_filter f es = []"
  by (induction es) (auto simp: List.map_filter_def split: option.splits)

lemma at_most_one_snoc:
  "length (List.map_filter f (es @ [e])) \<le> 1 \<longleftrightarrow>
     length (List.map_filter f es) \<le> 1 \<and> \<not> (f e \<noteq> None \<and> find_first f es \<noteq> None)"
  by (cases "f e") (auto simp: find_first_None_map_filter)

lemma distinct_keys_snoc:
  "distinct (resolution_keys (es @ [e])) \<longleftrightarrow>
     distinct (resolution_keys es) \<and> \<not> (\<exists>k. Of e = Some k \<and> k \<in> set (resolution_keys es))"
  by (cases "Of e") auto

lemma log_ok_snoc: "log_ok (es @ [e]) \<longleftrightarrow> log_ok es \<and> \<not> dup_in es e"
  unfolding log_ok_def at_most_one_snoc distinct_keys_snoc dup_in_def by blast

lemma log_ok_Nil [simp]: "log_ok []"
  by (simp add: log_ok_def)

lemma dup_event_wf: "rs_wf s \<Longrightarrow> dup_event s e \<longleftrightarrow> dup_in (rs_log s) e"
  by (simp add: rs_wf_def dup_event_def dup_in_def)

lemma rs_wf_empty [simp]: "rs_wf (emptyWorkflowRuntimeState iid cs)"
  by (simp add: rs_wf_def emptyWorkflowRuntimeState_def log_updated_def)

lemma find_first_fresh:
  assumes "\<not> (f e \<noteq> None \<and> find_first f es \<noteq> None)"
  shows "find_first f (es @ [e]) = (case f e of None \<Rightarrow> find_first f es | Some x \<Rightarrow> Some x)"
  using assms by (auto simp: find_first_append split: option.splits)

lemma find_first_stamped_None: "find_first (stamped f) es = None \<longleftrightarrow> find_first f es = None"
  by (simp add: find_first_None_iff stamped_def)

lemma rs_wf_accept [inv_intros]:
  assumes wf: "rs_wf s" and new: "isNew \<or> rs_NewEvents s = []" and ok: "\<not> dup_in (rs_log s) e"
  shows "rs_wf (accept s e isNew)"
proof -
  let ?L = "rs_log s"
  have log: "rs_log (accept s e isNew) = ?L @ [e]" by (rule rs_log_accept [OF new])
  from ok have "find_first GetExecutionStarted (?L @ [e]) =
      (case GetExecutionStarted e of None \<Rightarrow> find_first GetExecutionStarted ?L | Some x \<Rightarrow> Some x)"
    and "find_first GetExecutionCompleted (?L @ [e]) =
      (case GetExecutionCompleted e of None \<Rightarrow> find_first GetExecutionCompleted ?L | Some x \<Rightarrow> Some x)"
    and "find_first (stamped GetExecutionStarted) (?L @ [e]) =
      (case stamped GetExecutionStarted e of
         None \<Rightarrow> find_first (stamped GetExecutionStarted) ?L | Some x \<Rightarrow> Some x)"
    and "find_first (stamped GetExecutionCompleted) (?L @ [e]) =
      (case stamped GetExecutionCompleted e of
         None \<Rightarrow> find_first (stamped GetExecutionCompleted) ?L | Some x \<Rightarrow> Some x)"
    by (intro find_first_fresh; simp add: dup_in_def find_first_stamped_None; simp add: stamped_def)+
  moreover have "log_updated (?L @ [e]) = Some (AsTime (he_Timestamp e))"
    by (simp add: log_updated_def)
  moreover have "log_ok (?L @ [e])"
    unfolding log_ok_snoc using wf ok by (simp add: rs_wf_def)
  ultimately show ?thesis
    using wf unfolding rs_wf_def log
    by (simp add: log_suspended_append cong: option.case_cong)
qed

lemma rs_wf_AddEvent [inv_intros]: "rs_wf s \<Longrightarrow> rs_wf (snd (AddEvent s e))"
  by (simp add: AddEvent_eq dup_event_wf rs_wf_accept)

text \<open>What a log becomes when events arrive: duplicates are dropped, the rest are appended.\<close>

fun accept_log :: "HistoryEvent list \<Rightarrow> HistoryEvent list \<Rightarrow> HistoryEvent list" where
  "accept_log L [] = L"
| "accept_log L (e # es) = accept_log (if dup_in L e then L else L @ [e]) es"

fun dup_flags :: "HistoryEvent list \<Rightarrow> HistoryEvent list \<Rightarrow> error option list" where
  "dup_flags L [] = []"
| "dup_flags L (e # es) =
     (if dup_in L e then Some ErrDuplicateEvent # dup_flags L es else None # dup_flags (L @ [e]) es)"

lemma addAll_refines_log:
  assumes "rs_wf s" and "isNew \<or> rs_NewEvents s = []" and "seen_ok s seen"
    and "addAllWithDedup isNew s seen es = (errs, s')"
  shows "rs_wf s'" and "rs_log s' = accept_log (rs_log s) es" and "errs = dup_flags (rs_log s) es"
    and "isNew \<Longrightarrow> rs_OldEvents s' = rs_OldEvents s" and "\<not> isNew \<Longrightarrow> rs_NewEvents s' = []"
proof -
  have "rs_wf s' \<and> rs_log s' = accept_log (rs_log s) es \<and> errs = dup_flags (rs_log s) es \<and>
    (isNew \<longrightarrow> rs_OldEvents s' = rs_OldEvents s) \<and> (\<not> isNew \<longrightarrow> rs_NewEvents s' = [])"
    using assms
  proof (induction es arbitrary: s seen errs s')
    case Nil
    then show ?case by auto
  next
    case (Cons e es)
    obtain err s1 seen1 where r: "addEventWithDedup s e isNew seen = (err, s1, seen1)"
      by (cases "addEventWithDedup s e isNew seen")
    obtain errs1 s2 where r2: "addAllWithDedup isNew s1 seen1 es = (errs1, s2)"
      by (cases "addAllWithDedup isNew s1 seen1 es")
    from Cons.prems(4) r r2 have out: "errs = err # errs1" "s' = s2" by simp_all
    note spec = addEventWithDedup_spec [OF Cons.prems(3) r]
    have dup: "dup_event s e \<longleftrightarrow> dup_in (rs_log s) e" by (rule dup_event_wf [OF Cons.prems(1)])
    have log1: "rs_log s1 = (if dup_in (rs_log s) e then rs_log s else rs_log s @ [e])"
      using spec(2) dup rs_log_accept [OF Cons.prems(2)] by (simp only: if_split_eq1) auto
    have wf1: "rs_wf s1"
      using spec(2) dup Cons.prems(1,2) rs_wf_accept [of s isNew e] by (simp split: if_splits)
    have new1: "isNew \<or> rs_NewEvents s1 = []"
      and old1: "isNew \<longrightarrow> rs_OldEvents s1 = rs_OldEvents s"
      using spec(2) Cons.prems(2) by (auto split: if_splits)
    from Cons.IH [OF wf1 new1 spec(3) [OF Cons.prems(2)] r2] out spec(1) dup log1 old1
    show ?case by (auto split: if_splits)
  qed
  then show "rs_wf s'" and "rs_log s' = accept_log (rs_log s) es" and "errs = dup_flags (rs_log s) es"
    and "isNew \<Longrightarrow> rs_OldEvents s' = rs_OldEvents s" and "\<not> isNew \<Longrightarrow> rs_NewEvents s' = []"
    by blast+
qed

lemma AddEvents_refines:
  assumes "rs_wf s" and "AddEvents s es = (errs, s')"
  shows "rs_wf s'" and "rs_log s' = accept_log (rs_log s) es" and "errs = dup_flags (rs_log s) es"
    and "rs_OldEvents s' = rs_OldEvents s"
proof -
  from assms(2) have "addAllWithDedup True s (NewForState s) es = (errs, s')"
    by (cases es) (simp_all add: AddEvents_def)
  from addAll_refines_log [OF assms(1) _ seen_ok_simps(2) this]
  show "rs_wf s'" and "rs_log s' = accept_log (rs_log s) es" and "errs = dup_flags (rs_log s) es"
    and "rs_OldEvents s' = rs_OldEvents s" by simp_all
qed

lemma accept_log_ok: "log_ok L \<Longrightarrow> log_ok (accept_log L es)"
  by (induction es arbitrary: L) (auto simp: log_ok_snoc)

lemma accept_log_clean: "log_ok (L @ es) \<Longrightarrow> accept_log L es = L @ es"
proof (induction es arbitrary: L)
  case Nil
  then show ?case by simp
next
  case (Cons e es)
  have prefix: "log_ok (xs @ ys) \<Longrightarrow> log_ok xs" for xs ys
    by (induction ys rule: rev_induct) (simp_all add: log_ok_snoc flip: append_assoc)
  from Cons.prems have "log_ok ((L @ [e]) @ es)" by simp
  then have "log_ok (L @ [e])" by (rule prefix)
  then have "\<not> dup_in L e" by (simp add: log_ok_snoc)
  with Cons.IH [of "L @ [e]"] Cons.prems show ?case by simp
qed

section \<open>Loading\<close>

lemma New_seen_ok [simp]: "seen_ok (emptyWorkflowRuntimeState iid cs) New"
  by (simp add: seen_ok_def rs_keys_def emptyWorkflowRuntimeState_def)

lemma NewWorkflowRuntimeState_refines:
  "rs_wf (NewWorkflowRuntimeState iid cs es)"
  "rs_OldEvents (NewWorkflowRuntimeState iid cs es) = accept_log [] es"
  "rs_NewEvents (NewWorkflowRuntimeState iid cs es) = []"
proof -
  let ?s = "emptyWorkflowRuntimeState iid cs"
  obtain errs s' where r: "addAllWithDedup False ?s New es = (errs, s')"
    by (cases "addAllWithDedup False ?s New es")
  have e: "rs_NewEvents ?s = []" "rs_OldEvents ?s = []"
    by (simp_all add: emptyWorkflowRuntimeState_def)
  from addAll_refines_log [OF rs_wf_empty _ New_seen_ok r] e
  show "rs_wf (NewWorkflowRuntimeState iid cs es)"
    and "rs_OldEvents (NewWorkflowRuntimeState iid cs es) = accept_log [] es"
    and "rs_NewEvents (NewWorkflowRuntimeState iid cs es) = []"
    by (simp_all add: NewWorkflowRuntimeState_def r)
qed

lemma addAll_frame:
  "addAllWithDedup isNew s seen es = (errs, s') \<Longrightarrow>
     rs_InstanceId s' = rs_InstanceId s \<and> rs_CustomStatus s' = rs_CustomStatus s \<and>
     rs_ContinuedAsNew s' = rs_ContinuedAsNew s \<and> rs_PendingTasks s' = rs_PendingTasks s \<and>
     rs_PendingTimers s' = rs_PendingTimers s \<and> rs_PendingMessages s' = rs_PendingMessages s"
proof (induction es arbitrary: s seen errs s')
  case Nil
  then show ?case by simp
next
  case (Cons e es)
  obtain err s1 seen1 where r: "addEventWithDedup s e isNew seen = (err, s1, seen1)"
    by (cases "addEventWithDedup s e isNew seen")
  obtain errs1 s2 where r2: "addAllWithDedup isNew s1 seen1 es = (errs1, s2)"
    by (cases "addAllWithDedup isNew s1 seen1 es")
  have "s1 = s \<or> s1 = accept s e isNew"
  proof (cases "Of e")
    case None
    with r show ?thesis by (simp add: addEventWithDedup_no_key split: if_splits)
  next
    case (Some ki)
    obtain k i where "ki = (k, i)" by (cases ki)
    with Some have "addEventWithDedup s e isNew seen = (err, s1, seen1) \<Longrightarrow> ?thesis"
      by (simp add: addEventWithDedup_key case_prod_unfold Let_def split: if_splits)
    with r show ?thesis by blast
  qed
  with Cons.IH [OF r2] Cons.prems r r2 show ?case by auto
qed


section \<open>Redelivery\<close>

lemma dup_event_key: "Of e = Some k \<Longrightarrow> dup_event s e \<longleftrightarrow> k \<in> rs_keys s"
  using Of_start_complete(3) [of e k] by (simp add: dup_event_def rs_keys_def)

lemma addEach_keys:
  "addEach s es = (errs, s') \<Longrightarrow> rs_keys s \<subseteq> rs_keys s' \<and> set (resolution_keys es) \<subseteq> rs_keys s'"
proof (induction es arbitrary: s errs s')
  case Nil
  then show ?case by simp
next
  case (Cons e es)
  obtain err s1 where r: "AddEvent s e = (err, s1)" by (cases "AddEvent s e")
  obtain errs1 s2 where r2: "addEach s1 es = (errs1, s2)" by (cases "addEach s1 es")
  from r have "rs_keys s \<subseteq> rs_keys s1 \<and> set_option (Of e) \<subseteq> rs_keys s1"
    using rs_keys_accept [of True s e] dup_event_key [of e _ s]
    by (cases "Of e") (auto simp: AddEvent_eq split: if_splits)
  with Cons.IH [OF r2] Cons.prems r r2 show ?case
    by (cases "Of e") (auto simp: List.map_filter_def)
qed

lemma addEach_all_dup:
  "\<forall>e\<in>set es. dup_event s e \<Longrightarrow> addEach s es = (replicate (length es) (Some ErrDuplicateEvent), s)"
  by (induction es) (simp_all add: AddEvent_eq)

section \<open>Properties\<close>

text \<open>
  C1. Appending a batch with the constant-time set gives exactly what appending its events one
  at a time with the linear scan gives: the same errors, in order, and the same state.
\<close>

theorem AddEvents_batch_eq_sequential: "AddEvents s es = addEach s es"
  by (rule AddEvents_eq_addEach)

text \<open>
  C2. Every load yields a state that agrees with its log, and appending a batch to such a state
  refines the log: duplicates are reported and dropped, every other event is appended in order,
  the committed part is untouched, and the derived fields still agree with the log.
\<close>

theorem runtime_state_refines_log:
  assumes "AddEvents (NewWorkflowRuntimeState iid cs history) es = (errs, s')"
  shows "rs_wf s' \<and> rs_log s' = accept_log (accept_log [] history) es \<and>
         rs_OldEvents s' = accept_log [] history \<and>
         errs = dup_flags (accept_log [] history) es"
  using AddEvents_refines [OF NewWorkflowRuntimeState_refines(1) assms]
  by (simp add: NewWorkflowRuntimeState_refines)

definition sample_done :: "int32 \<Rightarrow> HistoryEvent" where
  "sample_done i = \<lparr>he_EventId = -1, he_Timestamp = Some 5,
     he_EventType = TaskCompleted \<lparr>tcd_TaskScheduledId = i, tcd_Result = None, tcd_TaskExecutionId = []\<rparr>,
     he_Router = None\<rparr>"

theorem runtime_state_refines_log_witness:
  "\<exists>s'. AddEvents (NewWorkflowRuntimeState ''wf'' None [sample_done 1]) [sample_done 2, sample_done 1] =
       ([None, Some ErrDuplicateEvent], s') \<and> rs_log s' = [sample_done 1, sample_done 2]"
proof -
  obtain errs s' where r:
    "AddEvents (NewWorkflowRuntimeState ''wf'' None [sample_done 1]) [sample_done 2, sample_done 1] = (errs, s')"
    by (cases "AddEvents (NewWorkflowRuntimeState ''wf'' None [sample_done 1]) [sample_done 2, sample_done 1]")
  from runtime_state_refines_log [OF r]
  have "errs = [None, Some ErrDuplicateEvent]" and "rs_log s' = [sample_done 1, sample_done 2]"
    by (auto simp: dup_in_def getter_defs sample_done_def Of_def)
  with r show ?thesis by blast
qed




text \<open>
  C4. At-least-once delivery is harmless: after a batch of task, timer or child resolutions has
  been appended, delivering the same batch again reports every event as a duplicate and leaves
  the state unchanged.
\<close>

theorem redelivery_is_idempotent:
  assumes "AddEvents s es = (errs, s')" and "list_all (\<lambda>e. Of e \<noteq> None) es"
  shows "AddEvents s' es = (replicate (length es) (Some ErrDuplicateEvent), s')"
proof -
  from assms(1) have "set (resolution_keys es) \<subseteq> rs_keys s'"
    by (simp add: AddEvents_eq_addEach addEach_keys)
  moreover have "\<exists>k. Of e = Some k \<and> k \<in> set (resolution_keys es)" if "e \<in> set es" for e
    using assms(2) that by (fastforce simp: set_map_filter list_all_iff)
  ultimately have "\<forall>e\<in>set es. dup_event s' e"
    using dup_event_key by blast
  then show ?thesis by (simp add: AddEvents_eq_addEach addEach_all_dup)
qed

theorem redelivery_is_idempotent_witness:
  "\<exists>s'. snd (AddEvents (emptyWorkflowRuntimeState ''wf'' None) [sample_done 1, sample_done 2]) = s' \<and>
     AddEvents s' [sample_done 1, sample_done 2] =
       ([Some ErrDuplicateEvent, Some ErrDuplicateEvent], s')"
proof -
  let ?es = "[sample_done 1, sample_done 2]"
  obtain errs s' where r: "AddEvents (emptyWorkflowRuntimeState ''wf'' None) ?es = (errs, s')"
    by (cases "AddEvents (emptyWorkflowRuntimeState ''wf'' None) ?es")
  have "list_all (\<lambda>e. Of e \<noteq> None) ?es" by (simp add: sample_done_def Of_def)
  from redelivery_is_idempotent [OF r this] r show ?thesis by (simp add: numeral_2_eq_2)
qed



end
