(* ===== verification/Propagation.thy ===== *)
theory Propagation
  imports RuntimeState "HOL-Library.Multiset"
begin

text \<open>
  History propagation: how a workflow hands its history to the activities and children it
  starts (\<open>src/backend/runtimestate/propagation.go\<close>) and how the receiver reads it
  (\<open>src/api/propagation.go\<close>). The wire form is a list of chunks, each with the encoded events of
  one workflow instance; the decoded form is one list of events with a range per chunk. The
  lemmas show that the ranges tile the event list, and that what one workflow assembles is what
  the next one reads, ancestors first.
\<close>

section \<open>Assembling (runtimestate/propagation.go)\<close>

definition canForwardScope :: "PropagatedHistory option \<Rightarrow> HistoryPropagationScope" where
  "canForwardScope receivedHistory =
     (case receivedHistory of Some h \<Rightarrow> ph_Scope h | None \<Rightarrow> SCOPE_NONE)"

definition AssembleProtoPropagatedHistory ::
  "lib \<Rightarrow> WorkflowRuntimeState \<Rightarrow> HistoryPropagationScope \<Rightarrow> PropagatedHistory option \<Rightarrow> string
    \<Rightarrow> error + PropagatedHistory option" where
  "AssembleProtoPropagatedHistory L state scope receivedHistory appID =
     (if scope = SCOPE_NONE then Inr None
      else
        let chunks = (if scope = SCOPE_LINEAGE
                      then (case receivedHistory of Some h \<Rightarrow> ph_Chunks h | None \<Rightarrow> [])
                      else []);
            ownEvents = rs_OldEvents state @ rs_NewEvents state
        in if ownEvents = [] then Inr (Some \<lparr>ph_Scope = scope, ph_Chunks = chunks\<rparr>)
           else
             let workflowName = (case find_first GetExecutionStarted ownEvents of
                                   Some es \<Rightarrow> es_Name es | None \<Rightarrow> [])
             in case map_result (proto_Marshal L) ownEvents of
                  Inl err \<Rightarrow> Inl err
                | Inr rawEvents \<Rightarrow>
                    Inr (Some \<lparr>ph_Scope = scope,
                               ph_Chunks = chunks @
                                 [Some \<lparr>pc_RawEvents = rawEvents, pc_AppId = appID,
                                        pc_InstanceId = rs_InstanceId state,
                                        pc_WorkflowName = workflowName\<rparr>]\<rparr>))"

section \<open>Reading (api/propagation.go)\<close>

text \<open>
  A \<open>PropagationOption\<close> is a function that updates a scope; the zero value of the enum is
  \<open>SCOPE_NONE\<close>.
\<close>

type_synonym PropagationOption = "HistoryPropagationScope \<Rightarrow> HistoryPropagationScope"

definition PropagateOwnHistory :: PropagationOption where
  "PropagateOwnHistory s = SCOPE_OWN_HISTORY"

definition PropagateLineage :: PropagationOption where
  "PropagateLineage s = SCOPE_LINEAGE"

definition NewHistoryPropagationScope :: "PropagationOption option \<Rightarrow> HistoryPropagationScope" where
  "NewHistoryPropagationScope opt = (case opt of None \<Rightarrow> SCOPE_NONE | Some f \<Rightarrow> f SCOPE_NONE)"

record historyChunk =
  hc_appID :: string
  hc_startEventIndex :: int
  hc_eventCount :: int
  hc_instanceID :: string
  hc_workflowName :: string

text \<open>The decoded \<open>api.PropagatedHistory\<close>, as opposed to the wire message of the same name.\<close>

record api_PropagatedHistory =
  aph_events :: "HistoryEvent list"
  aph_scope :: HistoryPropagationScope
  aph_chunks :: "historyChunk list"

fun GetAppIDs_loop :: "string list \<Rightarrow> historyChunk list \<Rightarrow> string list" where
  "GetAppIDs_loop seen [] = []"
| "GetAppIDs_loop seen (chunk # rest) =
     (if hc_appID chunk \<in> set seen then GetAppIDs_loop seen rest
      else hc_appID chunk # GetAppIDs_loop (hc_appID chunk # seen) rest)"

definition GetAppIDs :: "api_PropagatedHistory \<Rightarrow> string list" where
  "GetAppIDs ph = GetAppIDs_loop [] (aph_chunks ph)"

text \<open>\<open>proto.Clone\<close> copies an event; values have no identity here, so it is the identity.\<close>

definition chunkEvents :: "api_PropagatedHistory \<Rightarrow> historyChunk \<Rightarrow> HistoryEvent list" where
  "chunkEvents ph chunk =
     (let start = hc_startEventIndex chunk; n = int (length (aph_events ph))
      in if start < 0 \<or> start > n then []
         else
           let end' = start + hc_eventCount chunk;
               end'' = (if end' > n then n else end')
           in if end'' < start then []
              else take (nat (end'' - start)) (drop (nat start) (aph_events ph)))"

definition GetEventsByAppID :: "api_PropagatedHistory \<Rightarrow> string \<Rightarrow> HistoryEvent list" where
  "GetEventsByAppID ph appID =
     concat (map (chunkEvents ph) [c \<leftarrow> aph_chunks ph. hc_appID c = appID])"

definition GetEventsByInstanceID :: "api_PropagatedHistory \<Rightarrow> string \<Rightarrow> HistoryEvent list" where
  "GetEventsByInstanceID ph instanceID =
     concat (map (chunkEvents ph) [c \<leftarrow> aph_chunks ph. hc_instanceID c = instanceID])"

definition GetEventsByWorkflowName :: "api_PropagatedHistory \<Rightarrow> string \<Rightarrow> HistoryEvent list" where
  "GetEventsByWorkflowName ph name =
     concat (map (chunkEvents ph) [c \<leftarrow> aph_chunks ph. hc_workflowName c = name])"

record WorkflowResult =
  wr_Found :: bool
  wr_InstanceID :: string
  wr_AppID :: string
  wr_Name :: string
  wr_events :: "HistoryEvent list"

record ActivityResult =
  ar_Name :: string
  ar_Started :: bool
  ar_Completed :: bool
  ar_Failed :: bool
  ar_Input :: "string option"
  ar_Output :: "string option"
  ar_Error :: "TaskFailureDetails option"

record ChildWorkflowResult =
  cr_Name :: string
  cr_Started :: bool
  cr_Completed :: bool
  cr_Failed :: bool
  cr_Output :: "string option"
  cr_Error :: "TaskFailureDetails option"

definition makeWorkflowResult :: "api_PropagatedHistory \<Rightarrow> historyChunk \<Rightarrow> WorkflowResult" where
  "makeWorkflowResult ph chunk =
     \<lparr>wr_Found = True, wr_InstanceID = hc_instanceID chunk, wr_AppID = hc_appID chunk,
      wr_Name = hc_workflowName chunk, wr_events = chunkEvents ph chunk\<rparr>"

definition GetWorkflows :: "api_PropagatedHistory \<Rightarrow> WorkflowResult list" where
  "GetWorkflows ph = map (makeWorkflowResult ph) (aph_chunks ph)"

definition GetWorkflowsByName :: "api_PropagatedHistory \<Rightarrow> string \<Rightarrow> WorkflowResult list" where
  "GetWorkflowsByName ph name =
     map (makeWorkflowResult ph) [c \<leftarrow> aph_chunks ph. hc_workflowName c = name]"

definition GetLastWorkflowByName ::
  "api_PropagatedHistory \<Rightarrow> string \<Rightarrow> error + WorkflowResult" where
  "GetLastWorkflowByName ph name =
     (let all = GetWorkflowsByName ph name
      in if all = [] then Inl ErrPropagationNotFound else Inr (last all))"

fun resolveActivity_loop ::
  "int32 \<Rightarrow> HistoryEvent list \<Rightarrow> ActivityResult \<Rightarrow> ActivityResult" where
  "resolveActivity_loop scheduleID [] r = r"
| "resolveActivity_loop scheduleID (e # es) r =
     (let r1 = (case GetTaskCompleted e of
                  Some tc \<Rightarrow> if tcd_TaskScheduledId tc = scheduleID
                             then r\<lparr>ar_Completed := True, ar_Output := tcd_Result tc\<rparr> else r
                | None \<Rightarrow> r);
          r2 = (case GetTaskFailed e of
                  Some tf \<Rightarrow> if tf_TaskScheduledId tf = scheduleID
                             then r1\<lparr>ar_Failed := True, ar_Error := tf_FailureDetails tf\<rparr> else r1
                | None \<Rightarrow> r1)
      in resolveActivity_loop scheduleID es r2)"

definition resolveActivity :: "HistoryEvent list \<Rightarrow> HistoryEvent \<Rightarrow> ActivityResult" where
  "resolveActivity events scheduleEvent =
     (let ts = GetTaskScheduled scheduleEvent
      in resolveActivity_loop (he_EventId scheduleEvent) events
           \<lparr>ar_Name = (case ts of Some t \<Rightarrow> ts_Name t | None \<Rightarrow> []), ar_Started = True,
            ar_Completed = False, ar_Failed = False,
            ar_Input = Option.bind ts ts_Input, ar_Output = None, ar_Error = None\<rparr>)"

definition GetActivitiesByName :: "WorkflowResult \<Rightarrow> string \<Rightarrow> ActivityResult list" where
  "GetActivitiesByName wr name =
     (if \<not> wr_Found wr then []
      else map (resolveActivity (wr_events wr))
             [e \<leftarrow> wr_events wr. case GetTaskScheduled e of Some ts \<Rightarrow> ts_Name ts = name | None \<Rightarrow> False])"

definition GetLastActivityByName :: "WorkflowResult \<Rightarrow> string \<Rightarrow> error + ActivityResult" where
  "GetLastActivityByName wr name =
     (let all = GetActivitiesByName wr name
      in if all = [] then Inl ErrPropagationNotFound else Inr (last all))"

fun resolveChildWorkflow_loop ::
  "int32 \<Rightarrow> HistoryEvent list \<Rightarrow> ChildWorkflowResult \<Rightarrow> ChildWorkflowResult" where
  "resolveChildWorkflow_loop eventID [] r = r"
| "resolveChildWorkflow_loop eventID (e # es) r =
     (let r1 = (case GetChildWorkflowInstanceCreated e of
                  Some cw \<Rightarrow> if he_EventId e = eventID then r\<lparr>cr_Name := cw_Name cw\<rparr> else r
                | None \<Rightarrow> r);
          r2 = (case GetChildWorkflowInstanceCompleted e of
                  Some cc \<Rightarrow> if cc_TaskScheduledId cc = eventID
                             then r1\<lparr>cr_Completed := True, cr_Output := cc_Result cc\<rparr> else r1
                | None \<Rightarrow> r1);
          r3 = (case GetChildWorkflowInstanceFailed e of
                  Some cf \<Rightarrow> if cf_TaskScheduledId cf = eventID
                             then r2\<lparr>cr_Failed := True, cr_Error := cf_FailureDetails cf\<rparr> else r2
                | None \<Rightarrow> r2)
      in resolveChildWorkflow_loop eventID es r3)"

definition resolveChildWorkflow :: "HistoryEvent list \<Rightarrow> int32 \<Rightarrow> ChildWorkflowResult" where
  "resolveChildWorkflow events eventID =
     resolveChildWorkflow_loop eventID events
       \<lparr>cr_Name = [], cr_Started = True, cr_Completed = False, cr_Failed = False,
        cr_Output = None, cr_Error = None\<rparr>"

definition GetChildWorkflowsByName :: "WorkflowResult \<Rightarrow> string \<Rightarrow> ChildWorkflowResult list" where
  "GetChildWorkflowsByName wr name =
     (if \<not> wr_Found wr then []
      else map (\<lambda>e. resolveChildWorkflow (wr_events wr) (he_EventId e))
             [e \<leftarrow> wr_events wr.
                case GetChildWorkflowInstanceCreated e of Some cw \<Rightarrow> cw_Name cw = name | None \<Rightarrow> False])"

definition GetLastChildWorkflowByName ::
  "WorkflowResult \<Rightarrow> string \<Rightarrow> error + ChildWorkflowResult" where
  "GetLastChildWorkflowByName wr name =
     (let all = GetChildWorkflowsByName wr name
      in if all = [] then Inl ErrPropagationNotFound else Inr (last all))"

text \<open>Validation and decoding. The loops carry the index of the chunk and of the raw event.\<close>

fun ValidatePropagatedHistory_loop ::
  "nat \<Rightarrow> PropagatedHistoryChunk option list \<Rightarrow> error option" where
  "ValidatePropagatedHistory_loop i [] = None"
| "ValidatePropagatedHistory_loop i (None # cs) =
     Some (ErrorString (''propagated history: chunk '' @ string_of_nat i @ '' is nil''))"
| "ValidatePropagatedHistory_loop i (Some c # cs) =
     (if pc_AppId c = []
      then Some (ErrorString (''propagated history: chunk '' @ string_of_nat i @ '' has empty appId''))
      else ValidatePropagatedHistory_loop (Suc i) cs)"

definition ValidatePropagatedHistory :: "PropagatedHistory \<Rightarrow> error option" where
  "ValidatePropagatedHistory ph = ValidatePropagatedHistory_loop 0 (ph_Chunks ph)"

fun decodeRawEvents :: "lib \<Rightarrow> nat \<Rightarrow> string \<Rightarrow> nat \<Rightarrow> bytes list \<Rightarrow> error + HistoryEvent list" where
  "decodeRawEvents L i app j [] = Inr []"
| "decodeRawEvents L i app j (raw # rs) =
     (case proto_Unmarshal L raw of
        Inl err \<Rightarrow>
          Inl (Wrapped (''propagated history: chunk '' @ string_of_nat i @ '' (app '' @ app @
                 ''): failed to decode rawEvent '' @ string_of_nat j) err)
      | Inr e \<Rightarrow> (case decodeRawEvents L i app (Suc j) rs of Inl err \<Rightarrow> Inl err | Inr es \<Rightarrow> Inr (e # es)))"

text \<open>
  The chunk loop accumulates the events decoded so far; a nil chunk reads as the empty message,
  which validation has excluded.
\<close>

fun decodeChunks ::
  "lib \<Rightarrow> nat \<Rightarrow> PropagatedHistoryChunk option list \<Rightarrow> HistoryEvent list \<times> historyChunk list
    \<Rightarrow> error + HistoryEvent list \<times> historyChunk list" where
  "decodeChunks L i [] acc = Inr acc"
| "decodeChunks L i (co # cs) (events, chunks) =
     (let c = (case co of Some c \<Rightarrow> c
                | None \<Rightarrow> \<lparr>pc_RawEvents = [], pc_AppId = [], pc_InstanceId = [], pc_WorkflowName = []\<rparr>);
          start = int (length events)
      in case decodeRawEvents L i (pc_AppId c) 0 (pc_RawEvents c) of
           Inl err \<Rightarrow> Inl err
         | Inr es \<Rightarrow>
             let events' = events @ es
             in decodeChunks L (Suc i) cs
                  (events', chunks @ [\<lparr>hc_appID = pc_AppId c, hc_startEventIndex = start,
                     hc_eventCount = int (length events') - start, hc_instanceID = pc_InstanceId c,
                     hc_workflowName = pc_WorkflowName c\<rparr>]))"

definition PropagatedHistoryFromProto ::
  "lib \<Rightarrow> PropagatedHistory option \<Rightarrow> error + api_PropagatedHistory option" where
  "PropagatedHistoryFromProto L pho =
     (case pho of
        None \<Rightarrow> Inr None
      | Some ph \<Rightarrow>
          (case ValidatePropagatedHistory ph of
             Some err \<Rightarrow> Inl err
           | None \<Rightarrow>
               (case decodeChunks L 0 (ph_Chunks ph) ([], []) of
                  Inl err \<Rightarrow> Inl err
                | Inr (events, chunks) \<Rightarrow>
                    Inr (Some \<lparr>aph_events = events, aph_scope = ph_Scope ph, aph_chunks = chunks\<rparr>))))"

section \<open>The ranges tile the events\<close>

text \<open>
  The abstract view: the raw events of each chunk, decoded on their own (\<open>segments\<close>), and the
  ranges that lay such a list of segments out one after the other from position \<open>n\<close>
  (\<open>layout\<close>). Decoding produces exactly this.
\<close>

definition rawEvents_of :: "PropagatedHistoryChunk option \<Rightarrow> bytes list" where
  "rawEvents_of co = (case co of Some c \<Rightarrow> pc_RawEvents c | None \<Rightarrow> [])"

definition segments ::
  "lib \<Rightarrow> PropagatedHistoryChunk option list \<Rightarrow> error + HistoryEvent list list" where
  "segments L cs = map_result (\<lambda>co. map_result (proto_Unmarshal L) (rawEvents_of co)) cs"

definition range_of :: "PropagatedHistoryChunk option \<Rightarrow> nat \<Rightarrow> nat \<Rightarrow> historyChunk" where
  "range_of co n k =
     (let c = (case co of Some c \<Rightarrow> c
                | None \<Rightarrow> \<lparr>pc_RawEvents = [], pc_AppId = [], pc_InstanceId = [], pc_WorkflowName = []\<rparr>)
      in \<lparr>hc_appID = pc_AppId c, hc_startEventIndex = int n, hc_eventCount = int k,
          hc_instanceID = pc_InstanceId c, hc_workflowName = pc_WorkflowName c\<rparr>)"

fun layout :: "nat \<Rightarrow> (PropagatedHistoryChunk option \<times> HistoryEvent list) list \<Rightarrow> historyChunk list" where
  "layout n [] = []"
| "layout n ((co, es) # r) = range_of co n (length es) # layout (n + length es) r"

lemma layout_append:
  "layout n (xs @ ys) = layout n xs @ layout (n + length (concat (map snd xs))) ys"
  by (induction n xs rule: layout.induct) (auto simp: add.assoc)

lemma decodeRawEvents_iff:
  "decodeRawEvents L i app j rs = Inr es \<longleftrightarrow> map_result (proto_Unmarshal L) rs = Inr es"
proof (induction rs arbitrary: j es)
  case (Cons r rs)
  show ?case
  proof (cases "map_result (proto_Unmarshal L) rs")
    case (Inl e)
    with Cons.IH [of "Suc j"] show ?thesis by (auto split: sum.splits)
  next
    case (Inr es')
    with Cons.IH [of "Suc j" es'] show ?thesis by (auto split: sum.splits)
  qed
qed simp

lemma decodeChunks_iff:
  "decodeChunks L i cs (evs, chs) = Inr r \<longleftrightarrow>
     (\<exists>segs. segments L cs = Inr segs
           \<and> r = (evs @ concat segs, chs @ layout (length evs) (zip cs segs)))"
proof (induction cs arbitrary: i evs chs)
  case Nil
  then show ?case by (auto simp: segments_def)
next
  case (Cons co cs)
  have raw: "(case co of None \<Rightarrow> [] | Some c \<Rightarrow> pc_RawEvents c) = rawEvents_of co"
    by (simp add: rawEvents_of_def split: option.splits)
  have c: "pc_RawEvents (case co of None \<Rightarrow> \<lparr>pc_RawEvents = [], pc_AppId = [], pc_InstanceId = [],
              pc_WorkflowName = []\<rparr> | Some c \<Rightarrow> c) = rawEvents_of co"
    by (simp add: rawEvents_of_def split: option.splits)
  show ?case
  proof (cases "map_result (proto_Unmarshal L) (rawEvents_of co)")
    case (Inl e)
    then show ?thesis
      by (auto simp: Let_def c segments_def decodeRawEvents_iff split: sum.splits)
  next
    case (Inr es)
    then show ?thesis
      using decodeRawEvents_iff [of L i _ 0 "rawEvents_of co" es]
      by (auto simp: Let_def c Cons.IH segments_def range_of_def split: sum.splits)
  qed
qed

lemma chunkEvents_range:
  assumes "aph_events ph = pre @ es @ post"
  shows "chunkEvents ph (range_of co (length pre) (length es)) = es"
  using assms by (simp add: chunkEvents_def range_of_def Let_def)

lemma chunkEvents_layout:
  assumes "aph_events ph = pre @ concat (map snd xs) @ post"
  shows "map (chunkEvents ph) (layout (length pre) xs) = map snd xs"
  using assms
proof (induction xs arbitrary: pre)
  case Nil
  then show ?case by simp
next
  case (Cons x xs)
  obtain co es where x: "x = (co, es)" by (cases x)
  have "chunkEvents ph (range_of co (length pre) (length es)) = es"
    using Cons.prems x by (intro chunkEvents_range [where post = "concat (map snd xs) @ post"]) simp
  moreover have "map (chunkEvents ph) (layout (length (pre @ es)) xs) = map snd xs"
    using Cons.prems x by (intro Cons.IH) simp
  ultimately show ?case by (simp add: x)
qed

text \<open>The decoded form, characterised by the segments.\<close>

lemma FromProto_iff:
  "PropagatedHistoryFromProto L (Some ph) = Inr (Some g) \<longleftrightarrow>
     ValidatePropagatedHistory ph = None \<and>
     (\<exists>segs. segments L (ph_Chunks ph) = Inr segs
           \<and> g = \<lparr>aph_events = concat segs, aph_scope = ph_Scope ph,
                  aph_chunks = layout 0 (zip (ph_Chunks ph) segs)\<rparr>)"
proof -
  have "decodeChunks L 0 (ph_Chunks ph) ([], []) = Inr r \<longleftrightarrow>
     (\<exists>segs. segments L (ph_Chunks ph) = Inr segs \<and> r = (concat segs, layout 0 (zip (ph_Chunks ph) segs)))"
    for r by (simp add: decodeChunks_iff)
  note dec = this
  show ?thesis
  proof (cases "decodeChunks L 0 (ph_Chunks ph) ([], [])")
    case (Inl e)
    with dec show ?thesis by (auto simp: PropagatedHistoryFromProto_def split: option.splits)
  next
    case (Inr r)
    with dec [of r] obtain segs where "segments L (ph_Chunks ph) = Inr segs"
      and "r = (concat segs, layout 0 (zip (ph_Chunks ph) segs))" by auto
    with Inr show ?thesis by (auto simp: PropagatedHistoryFromProto_def split: option.splits)
  qed
qed

lemma segments_length: "segments L cs = Inr segs \<Longrightarrow> length segs = length cs"
  by (simp add: segments_def map_result_Inr_length)

lemma chunkEvents_decoded:
  assumes "PropagatedHistoryFromProto L (Some ph) = Inr (Some g)"
    and "segments L (ph_Chunks ph) = Inr segs"
  shows "map (chunkEvents g) (aph_chunks g) = segs" and "aph_events g = concat segs"
proof -
  from assms have g: "aph_events g = concat segs" "aph_chunks g = layout 0 (zip (ph_Chunks ph) segs)"
    by (auto simp: FromProto_iff)
  then show "aph_events g = concat segs" by simp
  have "map snd (zip (ph_Chunks ph) segs) = segs"
    using segments_length [OF assms(2)] by simp
  with g chunkEvents_layout [of g "[]" "zip (ph_Chunks ph) segs" "[]"]
  show "map (chunkEvents g) (aph_chunks g) = segs" by simp
qed

lemma decoded_tiles:
  assumes "PropagatedHistoryFromProto L pho = Inr (Some g)"
  shows "concat (map (chunkEvents g) (aph_chunks g)) = aph_events g"
proof -
  from assms obtain ph where ph: "pho = Some ph"
    by (cases pho) (auto simp: PropagatedHistoryFromProto_def)
  then obtain segs where "segments L (ph_Chunks ph) = Inr segs"
    using assms by (auto simp: FromProto_iff)
  with chunkEvents_decoded assms ph show ?thesis by metis
qed

lemma GetAppIDs_loop_set:
  "set (GetAppIDs_loop seen cs) = hc_appID ` set cs - set seen"
  by (induction seen cs rule: GetAppIDs_loop.induct) auto

lemma GetAppIDs_loop_distinct: "distinct (GetAppIDs_loop seen cs)"
  by (induction seen cs rule: GetAppIDs_loop.induct) (auto simp: GetAppIDs_loop_set)

text \<open>Splitting a list by the value of a key and joining the parts again permutes it.\<close>

lemma mset_by_key:
  assumes "distinct ks" and "f ` set xs \<subseteq> set ks"
  shows "mset (concat (map (\<lambda>k. concat (map g [x \<leftarrow> xs. f x = k])) ks)) = mset (concat (map g xs))"
  using assms(2)
proof (induction xs)
  case Nil
  then show ?case by (induction ks) auto
next
  case (Cons x xs)
  have split: "mset (concat (map (\<lambda>k. concat (map g [y \<leftarrow> x # xs. f y = k])) ks')) =
      (if f x \<in> set ks' then mset (g x) else {#}) +
      mset (concat (map (\<lambda>k. concat (map g [y \<leftarrow> xs. f y = k])) ks'))"
    if "distinct ks'" for ks'
    using that by (induction ks') auto
  from split [OF assms(1)] Cons show ?case by simp
qed

section \<open>A concrete received history\<close>

definition sample_chunk :: "string \<Rightarrow> PropagatedHistoryChunk" where
  "sample_chunk app = \<lparr>pc_RawEvents = [[], [0]], pc_AppId = app, pc_InstanceId = ''p'', pc_WorkflowName = ''parent''\<rparr>"

definition sample_received :: PropagatedHistory where
  "sample_received = \<lparr>ph_Scope = SCOPE_LINEAGE, ph_Chunks = [Some (sample_chunk ''app1''), Some (sample_chunk ''app2'')]\<rparr>"

lemma sample_received_decodes:
  "\<exists>g. PropagatedHistoryFromProto (table_lib [sample_done 1, sample_done 2]) (Some sample_received) = Inr (Some g)
     \<and> aph_events g = [sample_done 1, sample_done 2, sample_done 1, sample_done 2]"
  by (simp add: FromProto_iff sample_received_def sample_chunk_def ValidatePropagatedHistory_def
      segments_def rawEvents_of_def table_lib_def proto_Unmarshal_def)

section \<open>Properties\<close>

text \<open>
  C6. The ranges of a decoded propagated history are ordered, do not overlap and cover it: the
  chunk views in order are the event list, and the per-app views over the deduplicated list of
  app ids are a rearrangement of it, so no event is lost and none is reported twice.
\<close>

theorem propagated_history_partition:
  assumes "PropagatedHistoryFromProto L pho = Inr (Some g)"
  shows "concat (map (chunkEvents g) (aph_chunks g)) = aph_events g
       \<and> concat (map wr_events (GetWorkflows g)) = aph_events g
       \<and> distinct (GetAppIDs g)
       \<and> mset (concat (map (GetEventsByAppID g) (GetAppIDs g))) = mset (aph_events g)"
proof -
  have tile: "concat (map (chunkEvents g) (aph_chunks g)) = aph_events g"
    by (rule decoded_tiles [OF assms])
  have "mset (concat (map (GetEventsByAppID g) (GetAppIDs g)))
        = mset (concat (map (chunkEvents g) (aph_chunks g)))"
    unfolding GetEventsByAppID_def GetAppIDs_def
    by (rule mset_by_key) (auto simp: GetAppIDs_loop_set GetAppIDs_loop_distinct)
  moreover have "map wr_events (GetWorkflows g) = map (chunkEvents g) (aph_chunks g)"
    by (simp add: GetWorkflows_def makeWorkflowResult_def)
  ultimately show ?thesis
    using tile by (simp add: GetAppIDs_def GetAppIDs_loop_distinct)
qed

theorem propagated_history_partition_witness:
  "\<exists>g. PropagatedHistoryFromProto (table_lib [sample_done 1, sample_done 2]) (Some sample_received) = Inr (Some g)
     \<and> mset (concat (map (GetEventsByAppID g) (GetAppIDs g))) =
         mset [sample_done 1, sample_done 2, sample_done 1, sample_done 2]"
  using sample_received_decodes propagated_history_partition by metis

lemma Validate_append:
  "ValidatePropagatedHistory_loop i (cs @ [Some c]) = None \<longleftrightarrow>
     ValidatePropagatedHistory_loop i cs = None \<and> pc_AppId c \<noteq> []"
  by (induction i cs rule: ValidatePropagatedHistory_loop.induct) auto

lemma map_result_snoc:
  "map_result f xs = Inr ys \<Longrightarrow> map_result f (xs @ [x]) = (case f x of Inl e \<Rightarrow> Inl e | Inr y \<Rightarrow> Inr (ys @ [y]))"
  by (induction xs arbitrary: ys) (auto split: sum.splits)

lemma segments_snoc:
  assumes "segments L cs = Inr segs" and "map_result (proto_Unmarshal L) (pc_RawEvents c) = Inr es"
  shows "segments L (cs @ [Some c]) = Inr (segs @ [es])"
  using assms by (simp add: segments_def map_result_snoc rawEvents_of_def)

text \<open>
  C7. Lineage forwarding preserves the chain of custody. When a workflow that received a
  readable propagated history assembles its own under the lineage scope, the receiver decodes it
  without error, and reads the ancestors' events first and unchanged, followed by the whole
  history of the sender, attributed to the sender's app, instance and workflow name.
\<close>

theorem lineage_chain_of_custody:
  assumes codec: "codec_ok L" and app: "appID \<noteq> []"
    and received: "PropagatedHistoryFromProto L (Some rh) = Inr (Some g)"
    and own: "rs_log s \<noteq> []"
    and sent: "AssembleProtoPropagatedHistory L s SCOPE_LINEAGE (Some rh) appID = Inr pho"
  shows "\<exists>g'. PropagatedHistoryFromProto L pho = Inr (Some g')
            \<and> aph_events g' = aph_events g @ rs_log s
            \<and> GetWorkflows g' = GetWorkflows g @
                [\<lparr>wr_Found = True, wr_InstanceID = rs_InstanceId s, wr_AppID = appID,
                  wr_Name = (case find_first GetExecutionStarted (rs_log s) of
                               Some es \<Rightarrow> es_Name es | None \<Rightarrow> []),
                  wr_events = rs_log s\<rparr>]"
proof -
  define c where "c the_raw = \<lparr>pc_RawEvents = the_raw, pc_AppId = appID, pc_InstanceId = rs_InstanceId s,
    pc_WorkflowName = (case find_first GetExecutionStarted (rs_log s) of Some es \<Rightarrow> es_Name es | None \<Rightarrow> [])\<rparr>"
    for the_raw
  from sent own obtain raw where raw: "map_result (proto_Marshal L) (rs_log s) = Inr raw"
    and pho: "pho = Some \<lparr>ph_Scope = SCOPE_LINEAGE, ph_Chunks = ph_Chunks rh @ [Some (c raw)]\<rparr>"
    by (auto simp: AssembleProtoPropagatedHistory_def c_def Let_def split: sum.splits)
  have decoded: "map_result (proto_Unmarshal L) (pc_RawEvents (c raw)) = Inr (rs_log s)"
    by (auto simp: c_def intro: map_result_roundtrip [OF raw] proto_roundtrip [OF codec])
  from received obtain segs where val: "ValidatePropagatedHistory rh = None"
    and segs: "segments L (ph_Chunks rh) = Inr segs"
    and g: "g = \<lparr>aph_events = concat segs, aph_scope = ph_Scope rh, aph_chunks = layout 0 (zip (ph_Chunks rh) segs)\<rparr>"
    by (auto simp: FromProto_iff)
  have len: "length segs = length (ph_Chunks rh)" by (rule segments_length [OF segs])
  then have snd: "map snd (zip (ph_Chunks rh) segs) = segs" by simp
  define g' where "g' = \<lparr>aph_events = concat segs @ rs_log s, aph_scope = SCOPE_LINEAGE,
    aph_chunks = aph_chunks g @ [range_of (Some (c raw)) (length (concat segs)) (length (rs_log s))]\<rparr>"
  have dec: "PropagatedHistoryFromProto L pho = Inr (Some g')"
    using val segments_snoc [OF segs decoded] len snd app
    by (simp add: pho FromProto_iff ValidatePropagatedHistory_def Validate_append c_def g'_def g layout_append)
  have "map (chunkEvents g') (aph_chunks g) = segs"
    using chunkEvents_layout [of g' "[]" "zip (ph_Chunks rh) segs" "rs_log s"] snd
    by (simp add: g'_def g)
  then have same: "map (chunkEvents g') (aph_chunks g) = map (chunkEvents g) (aph_chunks g)"
    using chunkEvents_decoded [OF received segs] by simp
  have last: "chunkEvents g' (range_of (Some (c raw)) (length (concat segs)) (length (rs_log s))) = rs_log s"
    by (rule chunkEvents_range [where post = "[]"]) (simp add: g'_def)
  have "GetWorkflows g' = GetWorkflows g @ [makeWorkflowResult g'
      (range_of (Some (c raw)) (length (concat segs)) (length (rs_log s)))]"
    using same by (simp add: GetWorkflows_def g'_def makeWorkflowResult_def)
  moreover have "makeWorkflowResult g' (range_of (Some (c raw)) (length (concat segs)) (length (rs_log s))) =
      \<lparr>wr_Found = True, wr_InstanceID = rs_InstanceId s, wr_AppID = appID,
       wr_Name = (case find_first GetExecutionStarted (rs_log s) of Some es \<Rightarrow> es_Name es | None \<Rightarrow> []),
       wr_events = rs_log s\<rparr>"
    unfolding makeWorkflowResult_def last by (simp add: range_of_def c_def)
  moreover have "aph_events g' = aph_events g @ rs_log s" by (simp add: g'_def g)
  ultimately show ?thesis using dec by metis
qed

theorem lineage_chain_of_custody_witness:
  "\<exists>g'. PropagatedHistoryFromProto (table_lib [sample_done 1, sample_done 2])
           (Some \<lparr>ph_Scope = SCOPE_LINEAGE, ph_Chunks = ph_Chunks sample_received @
              [Some \<lparr>pc_RawEvents = [[0]], pc_AppId = ''app3'', pc_InstanceId = ''wf'', pc_WorkflowName = []\<rparr>]\<rparr>)
         = Inr (Some g')
     \<and> aph_events g' = [sample_done 1, sample_done 2, sample_done 1, sample_done 2, sample_done 2]"
proof -
  let ?L = "table_lib [sample_done 1, sample_done 2]"
  let ?s = "(emptyWorkflowRuntimeState ''wf'' None)\<lparr>rs_OldEvents := [sample_done 2]\<rparr>"
  obtain g where g: "PropagatedHistoryFromProto ?L (Some sample_received) = Inr (Some g)"
    "aph_events g = [sample_done 1, sample_done 2, sample_done 1, sample_done 2]"
    using sample_received_decodes by blast
  have ne: "rs_log ?s \<noteq> []" by simp
  have "AssembleProtoPropagatedHistory ?L ?s SCOPE_LINEAGE (Some sample_received) ''app3'' =
     Inr (Some \<lparr>ph_Scope = SCOPE_LINEAGE, ph_Chunks = ph_Chunks sample_received @
       [Some \<lparr>pc_RawEvents = [[0]], pc_AppId = ''app3'', pc_InstanceId = ''wf'', pc_WorkflowName = []\<rparr>]\<rparr>)"
    by (simp add: AssembleProtoPropagatedHistory_def emptyWorkflowRuntimeState_def table_lib_def
        proto_Marshal_def sample_done_def getter_defs)
  from lineage_chain_of_custody [OF codec_ok_table_lib _ g(1) ne this] g(2)
  show ?thesis by (auto simp: emptyWorkflowRuntimeState_def)
qed

end
