(* ===== verification/Applier.thy ===== *)
theory Applier
  imports Propagation
begin

text \<open>
  The applier (\<open>src/backend/runtimestate/applier.go\<close>): it turns the actions a workflow returned
  into history events and outgoing work. \<open>Actions\<close> is the loop; each branch of its body is a
  definition of its own. What the code reads from its environment while it handles an action (the
  clock, a fresh UUID, a fresh root trace context) is a \<open>reading\<close>, one per action.

  The lemmas show that the runtime state invariant is kept, that the first completion wins, that
  what is dispatched is exactly the unresolved part of what is recorded, what continue-as-new
  keeps of the old generation, and which inputs make the applier fail.
\<close>

section \<open>Generated child instance ids (api/helpers/task.go)\<close>

definition GenerateChildWorkflowInstanceIDForExecution ::
  "lib \<Rightarrow> string \<Rightarrow> string \<Rightarrow> int32 \<Rightarrow> string" where
  "GenerateChildWorkflowInstanceIDForExecution L parentInstanceID executionID actionID =
     parentInstanceID @ '':g:'' @
       lib_digest L [parentInstanceID, executionID, string_of_int (sint actionID)]"

section \<open>Child results (backend/child\_generation.go)\<close>

definition IsChildResult :: "HistoryEvent \<Rightarrow> bool" where
  "IsChildResult e \<longleftrightarrow>
     GetChildWorkflowInstanceCompleted e \<noteq> None \<or> GetChildWorkflowInstanceFailed e \<noteq> None"

text \<open>\<open>ErrChildExecutionProvenanceRequired\<close> is wrapped with the target; the getters are nil-safe.\<close>

definition ChildResultExecutionID :: "WorkflowRuntimeState \<Rightarrow> string \<Rightarrow> error + string" where
  "ChildResultExecutionID state target =
     (let parent = Option.bind (Option.bind (rs_StartEvent state) es_ParentInstance) pi_WorkflowInstance;
          instanceId = (case parent of None \<Rightarrow> [] | Some p \<Rightarrow> wi_InstanceId p);
          executionId = GetValue (Option.bind parent wi_ExecutionId)
      in if instanceId \<noteq> target \<or> executionId = []
         then Inl (Wrapped (''missing captured parent identity for '' @ target) ErrChildExecutionProvenanceRequired)
         else Inr executionId)"

section \<open>Types\<close>

record Applier =
  ap_appID :: string
  ap_namespace :: string

record ActionsResult =
  res_ContinuedAsNew :: bool
  res_OutgoingHistory :: "int32 \<rightharpoonup> PropagatedHistory option"
  res_NewIncomingHistory :: "PropagatedHistory option"

definition NewApplier :: "string \<Rightarrow> string \<Rightarrow> Applier" where
  "NewApplier appID namespace = \<lparr>ap_appID = appID, ap_namespace = namespace\<rparr>"

definition emptyActionsResult :: ActionsResult where
  "emptyActionsResult =
     \<lparr>res_ContinuedAsNew = False, res_OutgoingHistory = Map.empty, res_NewIncomingHistory = None\<rparr>"

text \<open>
  The readings of one action: the first and the second call of \<open>time.Now\<close>, the UUID and the
  result of \<open>helpers.NewRootTraceContext\<close> (nil when the random source fails).
\<close>

record reading =
  rd_now1 :: int
  rd_now2 :: int
  rd_uuid :: string
  rd_root :: "TraceContext option"

text \<open>
  How one iteration of the loop ends: \<open>continue\<close> or falling through (\<open>Next\<close>), returning from
  \<open>Actions\<close> without error (\<open>Return\<close>), or failing (\<open>Fail\<close>). The state is updated in place, so a
  failure carries the state it leaves behind.
\<close>

datatype step =
    Next ActionsResult WorkflowRuntimeState
  | Return ActionsResult WorkflowRuntimeState
  | Fail error ActionsResult WorkflowRuntimeState

text \<open>\<open>_ = AddEvent(s, e)\<close>: the error is discarded.\<close>

abbreviation addIgnoring :: "WorkflowRuntimeState \<Rightarrow> HistoryEvent \<Rightarrow> WorkflowRuntimeState" where
  "addIgnoring s e \<equiv> snd (AddEvent s e)"

definition mkEvent :: "int32 \<Rightarrow> int \<Rightarrow> HistoryEventType \<Rightarrow> TaskRouter option \<Rightarrow> HistoryEvent" where
  "mkEvent i now t r = \<lparr>he_EventId = i, he_Timestamp = Some now, he_EventType = t, he_Router = r\<rparr>"

definition stampRouter :: "string \<Rightarrow> TaskRouter option \<Rightarrow> TaskRouter" where
  "stampRouter appID r =
     (case r of
        None \<Rightarrow> \<lparr>tr_SourceAppID = appID, tr_TargetAppID = None, tr_TargetAppNamespace = None\<rparr>
      | Some x \<Rightarrow> x\<lparr>tr_SourceAppID := appID\<rparr>)"

section \<open>Continue-as-new\<close>

definition replaceWorkflowRuntimeState ::
  "WorkflowRuntimeState \<Rightarrow> WorkflowRuntimeState \<Rightarrow> WorkflowRuntimeState" where
  "replaceWorkflowRuntimeState destination source =
     \<lparr>rs_InstanceId = rs_InstanceId source, rs_NewEvents = rs_NewEvents source,
      rs_OldEvents = rs_OldEvents source, rs_PendingTasks = rs_PendingTasks source,
      rs_PendingTimers = rs_PendingTimers source, rs_PendingMessages = rs_PendingMessages source,
      rs_StartEvent = rs_StartEvent source, rs_CompletedEvent = rs_CompletedEvent source,
      rs_CreatedTime = rs_CreatedTime source, rs_LastUpdatedTime = rs_LastUpdatedTime source,
      rs_CompletedTime = rs_CompletedTime source, rs_ContinuedAsNew = rs_ContinuedAsNew source,
      rs_IsSuspended = rs_IsSuspended source, rs_CustomStatus = rs_CustomStatus source,
      rs_Stalled = rs_Stalled source\<rparr>"

text \<open>The start event of the new generation.\<close>

definition newGenerationStart ::
  "reading \<Rightarrow> WorkflowRuntimeState \<Rightarrow> ExecutionStartedEvent \<Rightarrow> CompleteWorkflowAction \<Rightarrow> ExecutionStartedEvent" where
  "newGenerationStart rd s start completedAction =
     \<lparr>es_Name = es_Name start, es_Version = None, es_Input = cwa_Result completedAction,
      es_WorkflowInstance = Some \<lparr>wi_InstanceId = rs_InstanceId s, wi_ExecutionId = Some (rd_uuid rd)\<rparr>,
      es_ParentInstance = es_ParentInstance start, es_ScheduledStartTimestamp = None,
      es_ParentTraceContext = (if es_ParentTraceContext start \<noteq> None then rd_root rd else None),
      es_WorkflowSpanID = None, es_Tags = []\<rparr>"

definition newGeneration ::
  "reading \<Rightarrow> WorkflowRuntimeState \<Rightarrow> string option \<Rightarrow> ExecutionStartedEvent \<Rightarrow> CompleteWorkflowAction
    \<Rightarrow> TaskRouter \<Rightarrow> WorkflowRuntimeState" where
  "newGeneration rd s customStatus start completedAction router =
     (let n0 = (NewWorkflowRuntimeState (rs_InstanceId s) customStatus [])\<lparr>rs_ContinuedAsNew := True\<rparr>;
          n1 = addIgnoring n0 (mkEvent (-1) (rd_now1 rd) (WorkflowStarted None) (Some router));
          n2 = addIgnoring n1 (mkEvent (-1) (rd_now2 rd)
                 (ExecutionStarted (newGenerationStart rd s start completedAction)) (Some router))
      in fold (\<lambda>e n. addIgnoring n e) (cwa_CarryoverEvents completedAction) n2)"

definition applyContinueAsNew ::
  "lib \<Rightarrow> Applier \<Rightarrow> reading \<Rightarrow> string option \<Rightarrow> PropagatedHistory option \<Rightarrow> TaskRouter
    \<Rightarrow> CompleteWorkflowAction \<Rightarrow> ActionsResult \<Rightarrow> WorkflowRuntimeState \<Rightarrow> step" where
  "applyContinueAsNew L a rd customStatus receivedHistory router completedAction result s =
     (let scope = canForwardScope receivedHistory;
          assembled = (if scope \<noteq> SCOPE_NONE
                       then AssembleProtoPropagatedHistory L s scope receivedHistory (ap_appID a)
                       else Inr (res_NewIncomingHistory result))
      in case assembled of
           Inl err \<Rightarrow> Fail (Wrapped ''failed to assemble propagated history for ContinueAsNew'' err) result s
         | Inr ph \<Rightarrow>
             let result1 = result\<lparr>res_NewIncomingHistory := ph\<rparr>
             in case rs_StartEvent s of
                  None \<Rightarrow> Fail NilDereference result1 s
                | Some start \<Rightarrow>
                    Return (result1\<lparr>res_ContinuedAsNew := True\<rparr>)
                      (replaceWorkflowRuntimeState s
                        (newGeneration rd s customStatus start completedAction router)))"

section \<open>Completion\<close>

definition completionRouter :: "TaskRouter \<Rightarrow> ParentInstanceInfo \<Rightarrow> TaskRouter" where
  "completionRouter router parentInstance =
     (case pi_AppID parentInstance of
        Some app \<Rightarrow>
          \<lparr>tr_SourceAppID = tr_SourceAppID router, tr_TargetAppID = Some app,
           tr_TargetAppNamespace = pi_AppNamespace parentInstance\<rparr>
      | None \<Rightarrow> router)"

definition childOutcome :: "int32 \<Rightarrow> CompleteWorkflowAction \<Rightarrow> HistoryEventType" where
  "childOutcome taskScheduledId completedAction =
     (if cwa_WorkflowStatus completedAction = COMPLETED then
        ChildWorkflowInstanceCompleted
          \<lparr>cc_TaskScheduledId = taskScheduledId, cc_Result = cwa_Result completedAction\<rparr>
      else
        ChildWorkflowInstanceFailed
          \<lparr>cf_TaskScheduledId = taskScheduledId,
           cf_FailureDetails =
             (case cwa_FailureDetails completedAction of
                Some fd \<Rightarrow> Some fd
              | None \<Rightarrow> Some (TaskFailureDetails ''ChildWorkflowFailed''
                  (''child workflow ended with status '' @
                     OrchestrationStatus_String (cwa_WorkflowStatus completedAction)) None None False))\<rparr>)"

definition applyComplete ::
  "reading \<Rightarrow> int32 \<Rightarrow> TaskRouter \<Rightarrow> CompleteWorkflowAction \<Rightarrow> ActionsResult \<Rightarrow> WorkflowRuntimeState
    \<Rightarrow> step" where
  "applyComplete rd actionId router completedAction result s =
     (let s1 = addIgnoring s (mkEvent actionId (rd_now1 rd)
                 (ExecutionCompleted \<lparr>ec_WorkflowStatus = cwa_WorkflowStatus completedAction,
                    ec_Result = cwa_Result completedAction,
                    ec_FailureDetails = cwa_FailureDetails completedAction\<rparr>) (Some router))
      in case Option.bind (rs_StartEvent s1) es_ParentInstance of
           None \<Rightarrow> Next result s1
         | Some parentInstance \<Rightarrow>
             (case pi_WorkflowInstance parentInstance of
                None \<Rightarrow> Fail NilDereference result s1
              | Some pwi \<Rightarrow>
                  Next result
                    (s1\<lparr>rs_PendingMessages := rs_PendingMessages s1 @
                        [\<lparr>rm_HistoryEvent = mkEvent (-1) (rd_now2 rd)
                            (childOutcome (pi_TaskScheduledId parentInstance) completedAction)
                            (Some (completionRouter router parentInstance)),
                          rm_TargetInstanceId = wi_InstanceId pwi,
                          rm_PropagatedHistory = None\<rparr>]\<rparr>)))"

section \<open>Timers, activities and child workflows\<close>

definition applyCreateTimer ::
  "Set \<Rightarrow> reading \<Rightarrow> int32 \<Rightarrow> TaskRouter \<Rightarrow> CreateTimerAction \<Rightarrow> ActionsResult \<Rightarrow> WorkflowRuntimeState
    \<Rightarrow> step" where
  "applyCreateTimer resolved rd actionId router timerAction result s =
     (let s1 = addIgnoring s (mkEvent actionId (rd_now1 rd)
                 (TimerCreated \<lparr>tmc_FireAt = cta_FireAt timerAction, tmc_Name = cta_Name timerAction,
                    tmc_Origin = cta_Origin timerAction\<rparr>) (Some router))
      in if Has resolved KindTimer actionId then Next result s1
         else Next result
                (s1\<lparr>rs_PendingTimers := rs_PendingTimers s1 @
                    [mkEvent (-1) (rd_now2 rd)
                       (TimerFired \<lparr>tmf_FireAt = cta_FireAt timerAction, tmf_TimerId = actionId\<rparr>) None]\<rparr>))"

definition applyScheduleTask ::
  "lib \<Rightarrow> Applier \<Rightarrow> Set \<Rightarrow> reading \<Rightarrow> TraceContext option \<Rightarrow> PropagatedHistory option \<Rightarrow> int32 \<Rightarrow> TaskRouter
    \<Rightarrow> ScheduleTaskAction \<Rightarrow> ActionsResult \<Rightarrow> WorkflowRuntimeState \<Rightarrow> step" where
  "applyScheduleTask L a resolved rd currentTraceContext receivedHistory actionId router scheduleTask result s =
     (let scheduledEvent = mkEvent actionId (rd_now1 rd)
            (TaskScheduled \<lparr>ts_Name = sta_Name scheduleTask, ts_Version = sta_Version scheduleTask,
               ts_Input = sta_Input scheduleTask, ts_ParentTraceContext = currentTraceContext,
               ts_TaskExecutionId = sta_TaskExecutionId scheduleTask,
               ts_HistoryPropagationScope = sta_HistoryPropagationScope scheduleTask\<rparr>) (Some router);
          s1 = addIgnoring s scheduledEvent
      in if Has resolved KindTask actionId then Next result s1
         else
           let s2 = s1\<lparr>rs_PendingTasks := rs_PendingTasks s1 @ [scheduledEvent]\<rparr>;
               scope = GetScope (sta_HistoryPropagationScope scheduleTask)
           in if scope = SCOPE_NONE then Next result s2
              else case AssembleProtoPropagatedHistory L s2 scope receivedHistory (ap_appID a) of
                     Inl err \<Rightarrow> Fail (Wrapped ''failed to assemble propagated history for activity'' err) result s2
                   | Inr ph \<Rightarrow>
                       Next (result\<lparr>res_OutgoingHistory := (res_OutgoingHistory result)(actionId \<mapsto> ph)\<rparr>) s2)"

definition parentInstanceInfo ::
  "string \<Rightarrow> int32 \<Rightarrow> TaskRouter \<Rightarrow> WorkflowRuntimeState \<Rightarrow> ExecutionStartedEvent \<Rightarrow> ParentInstanceInfo" where
  "parentInstanceInfo parentNamespace actionId router s start =
     \<lparr>pi_TaskScheduledId = actionId, pi_Name = Some (es_Name start), pi_Version = None,
      pi_WorkflowInstance = Some \<lparr>wi_InstanceId = rs_InstanceId s, wi_ExecutionId = es_executionId start\<rparr>,
      pi_AppID = Some (tr_SourceAppID router),
      pi_AppNamespace = (if parentNamespace \<noteq> [] then Some parentNamespace else None)\<rparr>"

definition childInstanceId ::
  "lib \<Rightarrow> WorkflowRuntimeState \<Rightarrow> int32 \<Rightarrow> CreateChildWorkflowAction \<Rightarrow> string" where
  "childInstanceId L s actionId createSO =
     (if cca_InstanceId createSO = [] then
        GenerateChildWorkflowInstanceIDForExecution L (rs_InstanceId s)
          (GetValue (Option.bind (rs_StartEvent s) es_executionId)) actionId
      else cca_InstanceId createSO)"

definition applyCreateChildWorkflow ::
  "lib \<Rightarrow> Applier \<Rightarrow> Set \<Rightarrow> reading \<Rightarrow> TraceContext option \<Rightarrow> PropagatedHistory option \<Rightarrow> int32 \<Rightarrow> TaskRouter
    \<Rightarrow> CreateChildWorkflowAction \<Rightarrow> ActionsResult \<Rightarrow> WorkflowRuntimeState \<Rightarrow> step" where
  "applyCreateChildWorkflow L a resolved rd currentTraceContext receivedHistory actionId router createSO result s =
     (let iid = childInstanceId L s actionId createSO;
          s1 = addIgnoring s (mkEvent actionId (rd_now1 rd)
                 (ChildWorkflowInstanceCreated \<lparr>cw_InstanceId = iid, cw_Name = cca_Name createSO,
                    cw_Version = cca_Version createSO, cw_Input = cca_Input createSO,
                    cw_ParentTraceContext = currentTraceContext,
                    cw_HistoryPropagationScope = cca_HistoryPropagationScope createSO,
                    cw_RetryParentInstanceInfo = cca_RetryParentInstanceInfo createSO\<rparr>) (Some router))
      in if Has resolved KindChild actionId then Next result s1
         else case rs_StartEvent s1 of
           None \<Rightarrow> Fail NilDereference result s1
         | Some start \<Rightarrow>
             let startEvent = mkEvent (-1) (rd_now2 rd)
                   (ExecutionStarted \<lparr>es_Name = cca_Name createSO, es_Version = None,
                      es_Input = cca_Input createSO,
                      es_WorkflowInstance = Some \<lparr>wi_InstanceId = iid, wi_ExecutionId = Some (rd_uuid rd)\<rparr>,
                      es_ParentInstance = Some (parentInstanceInfo (ap_namespace a) actionId router s1 start),
                      es_ScheduledStartTimestamp = None, es_ParentTraceContext = currentTraceContext,
                      es_WorkflowSpanID = None, es_Tags = []\<rparr>) (Some router);
                 scope = GetScope (cca_HistoryPropagationScope createSO);
                 assembled = (if scope \<noteq> SCOPE_NONE
                              then AssembleProtoPropagatedHistory L s1 scope receivedHistory (ap_appID a)
                              else Inr None)
             in case assembled of
                  Inl err \<Rightarrow> Fail (Wrapped ''failed to assemble propagated history for child workflow'' err) result s1
                | Inr ph \<Rightarrow>
                    Next result
                      (s1\<lparr>rs_PendingMessages := rs_PendingMessages s1 @
                          [\<lparr>rm_HistoryEvent = startEvent, rm_TargetInstanceId = iid,
                            rm_PropagatedHistory = ph\<rparr>]\<rparr>))"

section \<open>Detached workflows, events, termination, version checks\<close>

definition spawnedRouter :: "TaskRouter \<Rightarrow> TaskRouter option" where
  "spawnedRouter r =
     (if GetTargetAppID (Some r) \<noteq> [] then
        Some \<lparr>tr_SourceAppID = [], tr_TargetAppID = Some (GetTargetAppID (Some r)),
              tr_TargetAppNamespace =
                (if GetTargetAppNamespace (Some r) \<noteq> [] then Some (GetTargetAppNamespace (Some r)) else None)\<rparr>
      else None)"

definition applyCreateDetachedWorkflow ::
  "reading \<Rightarrow> TraceContext option \<Rightarrow> int32 \<Rightarrow> TaskRouter \<Rightarrow> CreateDetachedWorkflowAction
    \<Rightarrow> ActionsResult \<Rightarrow> WorkflowRuntimeState \<Rightarrow> step" where
  "applyCreateDetachedWorkflow rd currentTraceContext actionId router createDetached result s =
     (if cda_InstanceId createDetached = [] then
        Fail (ErrorString ''CreateDetachedWorkflowAction requires an instance ID'') result s
      else
        let s1 = addIgnoring s (mkEvent actionId (rd_now1 rd)
                   (DetachedWorkflowInstanceCreated (cda_InstanceId createDetached)) (Some router));
            executionID = (if GetValue (cda_ExecutionId createDetached) = []
                           then Some (rd_uuid rd) else cda_ExecutionId createDetached);
            traceContext = (case cda_ParentTraceContext createDetached of
                              None \<Rightarrow> currentTraceContext | Some t \<Rightarrow> Some t);
            startEvent = mkEvent (-1) (rd_now2 rd)
              (ExecutionStarted \<lparr>es_Name = cda_Name createDetached, es_Version = None,
                 es_Input = cda_Input createDetached,
                 es_WorkflowInstance =
                   Some \<lparr>wi_InstanceId = cda_InstanceId createDetached, wi_ExecutionId = executionID\<rparr>,
                 es_ParentInstance = None,
                 es_ScheduledStartTimestamp = cda_ScheduledStartTimestamp createDetached,
                 es_ParentTraceContext = traceContext, es_WorkflowSpanID = None,
                 es_Tags = cda_Tags createDetached\<rparr>) (spawnedRouter router)
        in Next result
             (s1\<lparr>rs_PendingMessages := rs_PendingMessages s1 @
                 [\<lparr>rm_HistoryEvent = startEvent, rm_TargetInstanceId = cda_InstanceId createDetached,
                   rm_PropagatedHistory = None\<rparr>]\<rparr>))"

definition applySendEvent ::
  "reading \<Rightarrow> int32 \<Rightarrow> TaskRouter \<Rightarrow> SendEventAction \<Rightarrow> ActionsResult \<Rightarrow> WorkflowRuntimeState \<Rightarrow> step" where
  "applySendEvent rd actionId router sendEvent result s =
     (case sea_Instance sendEvent of
        None \<Rightarrow> Fail NilDereference result s
      | Some target \<Rightarrow>
          let e = mkEvent actionId (rd_now1 rd)
                (EventSent \<lparr>evs_InstanceId = wi_InstanceId target, evs_Name = sea_Name sendEvent,
                   evs_Input = sea_Data sendEvent\<rparr>) (Some router);
              s1 = addIgnoring s e
          in Next result
               (s1\<lparr>rs_PendingMessages := rs_PendingMessages s1 @
                   [\<lparr>rm_HistoryEvent = e, rm_TargetInstanceId = wi_InstanceId target,
                     rm_PropagatedHistory = None\<rparr>]\<rparr>))"

definition applyTerminateWorkflow ::
  "reading \<Rightarrow> TaskRouter \<Rightarrow> TerminateWorkflowAction \<Rightarrow> ActionsResult \<Rightarrow> WorkflowRuntimeState \<Rightarrow> step" where
  "applyTerminateWorkflow rd router terminate result s =
     Next result
       (s\<lparr>rs_PendingMessages := rs_PendingMessages s @
          [\<lparr>rm_HistoryEvent = mkEvent (-1) (rd_now1 rd)
              (ExecutionTerminated \<lparr>et_Input = twa_Reason terminate, et_Recurse = twa_Recurse terminate\<rparr>)
              (Some router),
            rm_TargetInstanceId = twa_InstanceId terminate, rm_PropagatedHistory = None\<rparr>]\<rparr>)"

definition applyVersionNotAvailable ::
  "reading \<Rightarrow> TaskRouter \<Rightarrow> ActionsResult \<Rightarrow> WorkflowRuntimeState \<Rightarrow> step" where
  "applyVersionNotAvailable rd router result s =
     (let versionName = (case find_first GetWorkflowStarted (rs_OldEvents s) of
                           None \<Rightarrow> []
                         | Some v \<Rightarrow> GetValue (Option.bind v wv_Name))
      in Next result
           (s\<lparr>rs_PendingMessages := rs_PendingMessages s @
              [\<lparr>rm_HistoryEvent = mkEvent (-1) (rd_now1 rd)
                  (ExecutionStalled \<lparr>est_Reason = VERSION_NOT_AVAILABLE,
                     est_Description = Some (''Version not available: '' @ versionName)\<rparr>) (Some router),
                rm_TargetInstanceId = [], rm_PropagatedHistory = None\<rparr>]\<rparr>))"

section \<open>The loop\<close>

definition applyAction ::
  "lib \<Rightarrow> Applier \<Rightarrow> Set \<Rightarrow> reading \<Rightarrow> string option \<Rightarrow> TraceContext option \<Rightarrow> PropagatedHistory option
    \<Rightarrow> WorkflowAction \<Rightarrow> ActionsResult \<Rightarrow> WorkflowRuntimeState \<Rightarrow> step" where
  "applyAction L a resolved rd customStatus ctc receivedHistory action result s =
     (let router = stampRouter (ap_appID a) (wa_Router action); i = wa_Id action
      in case wa_Type action of
           CompleteWorkflow completedAction \<Rightarrow>
             if rs_CompletedEvent s \<noteq> None then Next result s
             else if cwa_WorkflowStatus completedAction = CONTINUED_AS_NEW
             then applyContinueAsNew L a rd customStatus receivedHistory router completedAction result s
             else applyComplete rd i router completedAction result s
         | CreateTimer timerAction \<Rightarrow> applyCreateTimer resolved rd i router timerAction result s
         | ScheduleTask scheduleTask \<Rightarrow>
             applyScheduleTask L a resolved rd ctc receivedHistory i router scheduleTask result s
         | CreateChildWorkflow createSO \<Rightarrow>
             applyCreateChildWorkflow L a resolved rd ctc receivedHistory i router createSO result s
         | CreateDetachedWorkflow createDetached \<Rightarrow>
             applyCreateDetachedWorkflow rd ctc i router createDetached result s
         | SendEvent sendEvent \<Rightarrow> applySendEvent rd i router sendEvent result s
         | TerminateWorkflow terminate \<Rightarrow> applyTerminateWorkflow rd router terminate result s
         | WorkflowVersionNotAvailable \<Rightarrow> applyVersionNotAvailable rd router result s
         | ActionTypeNotSet \<Rightarrow> Fail (ErrorString ''unknown action type'') result s)"

fun applyActions ::
  "lib \<Rightarrow> Applier \<Rightarrow> Set \<Rightarrow> (nat \<Rightarrow> reading) \<Rightarrow> string option \<Rightarrow> TraceContext option
    \<Rightarrow> PropagatedHistory option \<Rightarrow> nat \<Rightarrow> WorkflowAction list \<Rightarrow> ActionsResult \<Rightarrow> WorkflowRuntimeState
    \<Rightarrow> error option \<times> ActionsResult \<times> WorkflowRuntimeState" where
  "applyActions L a resolved env cs ctc rh i [] result s = (None, result, s)"
| "applyActions L a resolved env cs ctc rh i (action # rest) result s =
     (case applyAction L a resolved (env i) cs ctc rh action result s of
        Next result' s' \<Rightarrow> applyActions L a resolved env cs ctc rh (Suc i) rest result' s'
      | Return result' s' \<Rightarrow> (None, result', s')
      | Fail err result' s' \<Rightarrow> (Some err, result', s'))"

definition Actions ::
  "lib \<Rightarrow> Applier \<Rightarrow> (nat \<Rightarrow> reading) \<Rightarrow> WorkflowRuntimeState \<Rightarrow> string option \<Rightarrow> WorkflowAction list
    \<Rightarrow> TraceContext option \<Rightarrow> PropagatedHistory option
    \<Rightarrow> error option \<times> ActionsResult \<times> WorkflowRuntimeState" where
  "Actions L a env s customStatus actions currentTraceContext receivedHistory =
     (let s0 = s\<lparr>rs_CustomStatus := customStatus, rs_Stalled := None\<rparr>
      in applyActions L a (NewForState s0) env customStatus currentTraceContext receivedHistory 0 actions
           emptyActionsResult s0)"


section \<open>Effect of a recorded event\<close>

lemma Has_NewForState: "Has (NewForState s) k i \<longleftrightarrow> (k, i) \<in> rs_keys s"
  by (simp add: packed.present_iff NewForState_def key_set_NewForState [unfolded NewForState_def] rs_keys_def)

lemma mkEvent_sel [simp]:
  "he_EventId (mkEvent i now t r) = i" "he_EventType (mkEvent i now t r) = t"
  "he_Timestamp (mkEvent i now t r) = Some now" "he_Router (mkEvent i now t r) = r"
  by (simp_all add: mkEvent_def)

text \<open>The event kinds the applier records never count as duplicates, completions apart.\<close>

definition plain_type :: "HistoryEventType \<Rightarrow> bool" where
  "plain_type t \<longleftrightarrow> (case t of TimerCreated _ \<Rightarrow> True | TaskScheduled _ \<Rightarrow> True
      | ChildWorkflowInstanceCreated _ \<Rightarrow> True | DetachedWorkflowInstanceCreated _ \<Rightarrow> True
      | EventSent _ \<Rightarrow> True | WorkflowStarted _ \<Rightarrow> True | _ \<Rightarrow> False)"

lemma plain_getters:
  assumes "plain_type (he_EventType e)"
  shows "Of e = None" "GetExecutionStarted e = None" "GetExecutionCompleted e = None"
    "stamped GetExecutionStarted e = None" "stamped GetExecutionCompleted e = None"
    "log_suspended b [e] = b"
  using assms
  by (cases "he_EventType e"; simp add: plain_type_def Of_def getter_defs stamped_def)+

lemma addIgnoring_plain [simp]:
  "plain_type t \<Longrightarrow> addIgnoring s (mkEvent i now t r) = accept s (mkEvent i now t r) True"
  by (simp add: AddEvent_eq dup_event_def plain_getters)

lemma plain_type_simps [simp]:
  "plain_type (TimerCreated a)" "plain_type (TaskScheduled b)" "plain_type (ChildWorkflowInstanceCreated c)"
  "plain_type (DetachedWorkflowInstanceCreated d)" "plain_type (EventSent e)" "plain_type (WorkflowStarted f)"
  by (simp_all add: plain_type_def)

lemma accept_plain_fields [simp]:
  assumes "plain_type t"
  shows "rs_StartEvent (accept s (mkEvent i now t r) True) = rs_StartEvent s"
    "rs_CompletedEvent (accept s (mkEvent i now t r) True) = rs_CompletedEvent s"
  using assms by (simp_all add: plain_getters)

lemma addIgnoring_completed:
  assumes "rs_CompletedEvent s = None"
  shows "addIgnoring s (mkEvent i now (ExecutionCompleted c) r)
           = accept s (mkEvent i now (ExecutionCompleted c) r) True"
  using assms by (simp add: AddEvent_eq dup_event_def getter_defs Of_def)

lemma rs_wf_updates [simp]:
  "rs_wf (s\<lparr>rs_PendingTasks := a\<rparr>) = rs_wf s" "rs_wf (s\<lparr>rs_PendingTimers := b\<rparr>) = rs_wf s"
  "rs_wf (s\<lparr>rs_PendingMessages := c\<rparr>) = rs_wf s" "rs_wf (s\<lparr>rs_ContinuedAsNew := d\<rparr>) = rs_wf s"
  "rs_wf (s\<lparr>rs_CustomStatus := f\<rparr>) = rs_wf s" "rs_wf (s\<lparr>rs_Stalled := g\<rparr>) = rs_wf s"
  by (simp_all add: rs_wf_def)

lemma rs_keys_updates [simp]:
  "rs_keys (s\<lparr>rs_CustomStatus := f\<rparr>) = rs_keys s" "rs_keys (s\<lparr>rs_Stalled := g\<rparr>) = rs_keys s"
  by (simp_all add: rs_keys_def)

section \<open>The invariant\<close>

fun step_state :: "step \<Rightarrow> WorkflowRuntimeState" where
  "step_state (Next r s) = s" | "step_state (Return r s) = s" | "step_state (Fail e r s) = s"

lemma replace_eq [simp]: "replaceWorkflowRuntimeState d s = s"
  by (simp add: replaceWorkflowRuntimeState_def)

lemma rs_wf_fold_add [inv_intros]: "rs_wf s \<Longrightarrow> rs_wf (fold (\<lambda>e n. addIgnoring n e) es s)"
  by (induction es arbitrary: s) (simp_all add: rs_wf_AddEvent)

lemma rs_wf_newGeneration [inv_intros]: "rs_wf (newGeneration rd s cs start c r)"
  unfolding newGeneration_def Let_def
  by (intro inv_intros rs_wf_fold_add rs_wf_AddEvent) (simp add: NewWorkflowRuntimeState_refines)

lemmas apply_defs = applyContinueAsNew_def applyComplete_def applyCreateTimer_def applyScheduleTask_def
  applyCreateChildWorkflow_def applyCreateDetachedWorkflow_def applySendEvent_def
  applyTerminateWorkflow_def applyVersionNotAvailable_def

lemma rs_wf_accept_plain [inv_intros]:
  "rs_wf s \<Longrightarrow> plain_type t \<Longrightarrow> rs_wf (accept s (mkEvent i now t r) True)"
  using rs_wf_AddEvent [of s "mkEvent i now t r"] by simp

lemma rs_wf_applyAction:
  "rs_wf s \<Longrightarrow> rs_wf (step_state (applyAction L a R rd cs ctc rh action result s))"
  unfolding applyAction_def apply_defs Let_def
  by (auto simp: rs_wf_AddEvent rs_wf_accept_plain rs_wf_newGeneration
      split: WorkflowActionType.split option.split sum.split)

lemma rs_wf_applyActions:
  "rs_wf s \<Longrightarrow> applyActions L a R env cs ctc rh i actions result s = (err, result', s') \<Longrightarrow> rs_wf s'"
proof (induction actions arbitrary: i result s)
  case (Cons action rest)
  from rs_wf_applyAction [OF Cons.prems(1)]
  have "rs_wf (step_state (applyAction L a R (env i) cs ctc rh action result s))" .
  with Cons show ?case by (auto split: step.splits)
qed simp


section \<open>What is dispatched\<close>

text \<open>
  The work a stretch of new history asks for, given the correlators \<open>K\<close> that already have a
  resolution: the activities, the timers with their due time, and the instances to start.
\<close>

definition tasks_of :: "(Kind \<times> int32) set \<Rightarrow> HistoryEvent list \<Rightarrow> HistoryEvent list" where
  "tasks_of K es = [e \<leftarrow> es. GetTaskScheduled e \<noteq> None \<and> (KindTask, he_EventId e) \<notin> K]"

definition timer_of :: "(Kind \<times> int32) set \<Rightarrow> HistoryEvent \<Rightarrow> (int32 \<times> int option) option" where
  "timer_of K e =
     (case he_EventType e of
        TimerCreated t \<Rightarrow> if (KindTimer, he_EventId e) \<in> K then None else Some (he_EventId e, tmc_FireAt t)
      | _ \<Rightarrow> None)"

definition start_of :: "(Kind \<times> int32) set \<Rightarrow> HistoryEvent \<Rightarrow> string option" where
  "start_of K e =
     (case he_EventType e of
        ChildWorkflowInstanceCreated c \<Rightarrow>
          if (KindChild, he_EventId e) \<in> K then None else Some (cw_InstanceId c)
      | DetachedWorkflowInstanceCreated iid \<Rightarrow> Some iid
      | _ \<Rightarrow> None)"

text \<open>What is in the outbox of a state.\<close>

definition fired_of :: "HistoryEvent \<Rightarrow> (int32 \<times> int option) option" where
  "fired_of e = (case he_EventType e of TimerFired t \<Rightarrow> Some (tmf_TimerId t, tmf_FireAt t) | _ \<Rightarrow> None)"

definition started_of :: "WorkflowRuntimeStateMessage \<Rightarrow> string option" where
  "started_of m = (case he_EventType (rm_HistoryEvent m) of
      ExecutionStarted es \<Rightarrow> Some (rm_TargetInstanceId m) | _ \<Rightarrow> None)"

text \<open>The id under which an action is recorded in the history, completions apart.\<close>

definition recorded_id :: "WorkflowAction \<Rightarrow> int32 option" where
  "recorded_id action =
     (case wa_Type action of
        CreateTimer _ \<Rightarrow> Some (wa_Id action) | ScheduleTask _ \<Rightarrow> Some (wa_Id action)
      | CreateChildWorkflow _ \<Rightarrow> Some (wa_Id action) | CreateDetachedWorkflow _ \<Rightarrow> Some (wa_Id action)
      | SendEvent _ \<Rightarrow> Some (wa_Id action) | _ \<Rightarrow> None)"

text \<open>The state \<open>s'\<close> extends \<open>s\<close> by recording \<open>ids\<close> and putting the unresolved part in the outbox.\<close>

definition dispatched ::
  "(Kind \<times> int32) set \<Rightarrow> int32 list \<Rightarrow> WorkflowRuntimeState \<Rightarrow> WorkflowRuntimeState \<Rightarrow> bool" where
  "dispatched K ids s s' \<longleftrightarrow>
     (\<exists>new. rs_NewEvents s' = rs_NewEvents s @ new \<and> rs_OldEvents s' = rs_OldEvents s
        \<and> map he_EventId [e \<leftarrow> new. GetExecutionCompleted e = None] = ids
        \<and> rs_PendingTasks s' = rs_PendingTasks s @ tasks_of K new
        \<and> List.map_filter fired_of (rs_PendingTimers s') =
            List.map_filter fired_of (rs_PendingTimers s) @ List.map_filter (timer_of K) new
        \<and> List.map_filter started_of (rs_PendingMessages s') =
            List.map_filter started_of (rs_PendingMessages s) @ List.map_filter (start_of K) new)"

lemma dispatched_refl: "dispatched K [] s s"
  by (simp add: dispatched_def tasks_of_def)

lemma dispatched_trans:
  assumes "dispatched K ids s s'" and "dispatched K ids' s' s''"
  shows "dispatched K (ids @ ids') s s''"
proof -
  from assms(1) obtain n1 where n1: "rs_NewEvents s' = rs_NewEvents s @ n1" "rs_OldEvents s' = rs_OldEvents s"
    "map he_EventId [e \<leftarrow> n1. GetExecutionCompleted e = None] = ids"
    "rs_PendingTasks s' = rs_PendingTasks s @ tasks_of K n1"
    "List.map_filter fired_of (rs_PendingTimers s') =
       List.map_filter fired_of (rs_PendingTimers s) @ List.map_filter (timer_of K) n1"
    "List.map_filter started_of (rs_PendingMessages s') =
       List.map_filter started_of (rs_PendingMessages s) @ List.map_filter (start_of K) n1"
    unfolding dispatched_def by blast
  from assms(2) obtain n2 where n2: "rs_NewEvents s'' = rs_NewEvents s' @ n2" "rs_OldEvents s'' = rs_OldEvents s'"
    "map he_EventId [e \<leftarrow> n2. GetExecutionCompleted e = None] = ids'"
    "rs_PendingTasks s'' = rs_PendingTasks s' @ tasks_of K n2"
    "List.map_filter fired_of (rs_PendingTimers s'') =
       List.map_filter fired_of (rs_PendingTimers s') @ List.map_filter (timer_of K) n2"
    "List.map_filter started_of (rs_PendingMessages s'') =
       List.map_filter started_of (rs_PendingMessages s') @ List.map_filter (start_of K) n2"
    unfolding dispatched_def by blast
  show ?thesis unfolding dispatched_def
    by (rule exI [of _ "n1 @ n2"]) (simp add: n1 n2 tasks_of_def)
qed

lemma map_filter_single': "List.map_filter f (xs @ [x]) = List.map_filter f xs @ (case f x of None \<Rightarrow> [] | Some y \<Rightarrow> [y])"
  by (simp split: option.split)

lemma dispatchedI:
  assumes "rs_NewEvents s' = rs_NewEvents s @ new" "rs_OldEvents s' = rs_OldEvents s"
    "map he_EventId [e \<leftarrow> new. GetExecutionCompleted e = None] = ids"
    "rs_PendingTasks s' = rs_PendingTasks s @ tasks_of K new"
    "List.map_filter fired_of (rs_PendingTimers s') =
       List.map_filter fired_of (rs_PendingTimers s) @ List.map_filter (timer_of K) new"
    "List.map_filter started_of (rs_PendingMessages s') =
       List.map_filter started_of (rs_PendingMessages s) @ List.map_filter (start_of K) new"
  shows "dispatched K ids s s'"
  using assms unfolding dispatched_def by blast

lemmas outbox_defs = tasks_of_def timer_of_def start_of_def fired_of_def started_of_def recorded_id_def
  getter_defs map_filter_single'

lemma dispatched_applyAction:
  assumes R: "\<And>k i. Has R k i \<longleftrightarrow> (k, i) \<in> K"
    and step: "applyAction L a R rd cs ctc rh action result s = Next result' s'"
  shows "dispatched K (List.map_filter recorded_id [action]) s s'"
proof (cases "wa_Type action")
  case (CompleteWorkflow c)
  show ?thesis
  proof (cases "rs_CompletedEvent s")
    case None
    with step CompleteWorkflow show ?thesis
      by (auto simp: applyAction_def applyComplete_def applyContinueAsNew_def Let_def addIgnoring_completed
          outbox_defs childOutcome_def R intro!: dispatchedI
          split: if_splits option.splits sum.splits)
  next
    case (Some ec)
    with step CompleteWorkflow show ?thesis
      by (auto simp: applyAction_def recorded_id_def map_filter_single dispatched_refl)
  qed
qed (use step in \<open>auto simp: applyAction_def apply_defs Let_def outbox_defs R intro!: dispatchedI
      split: if_splits option.splits sum.splits\<close>)

lemma map_filter_Cons_single: "List.map_filter f (x # xs) = List.map_filter f [x] @ List.map_filter f xs"
  by (simp add: List.map_filter_def)

text \<open>
  A pass over the actions that does not continue as new is a sequence of \<open>Next\<close> steps; a pass that
  does is such a sequence up to the completion action.
\<close>

lemma applyAction_Next_continued:
  assumes "applyAction L a R rd cs ctc rh action result s = Next r' s'"
  shows "res_ContinuedAsNew r' = res_ContinuedAsNew result"
  using assms
  by (cases "wa_Type action")
    (auto simp: applyAction_def apply_defs Let_def split: if_splits option.splits sum.splits)

lemma applyAction_Return:
  assumes "applyAction L a R rd cs ctc rh action result s = Return r' s'"
  shows "res_ContinuedAsNew r' \<and> rs_CompletedEvent s = None
           \<and> (\<exists>c start. wa_Type action = CompleteWorkflow c \<and> cwa_WorkflowStatus c = CONTINUED_AS_NEW
                \<and> rs_StartEvent s = Some start
                \<and> s' = newGeneration rd s cs start c (stampRouter (ap_appID a) (wa_Router action)))"
  using assms
  by (cases "wa_Type action")
    (auto simp: applyAction_def apply_defs Let_def split: if_splits option.splits sum.splits)

lemma dispatched_applyActions:
  assumes R: "\<And>k i. Has R k i \<longleftrightarrow> (k, i) \<in> K"
    and "applyActions L a R env cs ctc rh i actions result s = (None, result', s')"
    and "\<not> res_ContinuedAsNew result'"
  shows "dispatched K (List.map_filter recorded_id actions) s s'"
  using assms(2,3)
proof (induction actions arbitrary: i result s)
  case Nil
  then show ?case by (simp add: dispatched_refl)
next
  case (Cons action rest)
  show ?case
  proof (cases "applyAction L a R (env i) cs ctc rh action result s")
    case (Next r1 s1)
    then have "dispatched K (List.map_filter recorded_id [action]) s s1"
      by (rule dispatched_applyAction [OF R])
    moreover from Next Cons have "dispatched K (List.map_filter recorded_id rest) s1 s'" by simp
    ultimately show ?thesis
      unfolding map_filter_Cons_single [of _ action rest] by (rule dispatched_trans)
  next
    case (Return r1 s1)
    with applyAction_Return [OF Return] Cons.prems show ?thesis by auto
  next
    case (Fail e r1 s1)
    with Cons.prems show ?thesis by simp
  qed
qed

section \<open>The first completion wins\<close>

definition GetCompleteWorkflow :: "WorkflowAction \<Rightarrow> CompleteWorkflowAction option" where
  "GetCompleteWorkflow action = (case wa_Type action of CompleteWorkflow c \<Rightarrow> Some c | _ \<Rightarrow> None)"

definition completedBy :: "CompleteWorkflowAction \<Rightarrow> ExecutionCompletedEvent" where
  "completedBy c = \<lparr>ec_WorkflowStatus = cwa_WorkflowStatus c, ec_Result = cwa_Result c,
                    ec_FailureDetails = cwa_FailureDetails c\<rparr>"

lemma completed_applyAction:
  assumes "applyAction L a R rd cs ctc rh action result s = Next r' s'"
  shows "rs_CompletedEvent s' =
           (case rs_CompletedEvent s of
              Some ec \<Rightarrow> Some ec
            | None \<Rightarrow> map_option completedBy (GetCompleteWorkflow action))"
    and "rs_CompletedEvent s = None \<Longrightarrow> GetCompleteWorkflow action = Some c
           \<Longrightarrow> cwa_WorkflowStatus c \<noteq> CONTINUED_AS_NEW"
  using assms
  by (cases "wa_Type action";
      auto simp: applyAction_def apply_defs Let_def GetCompleteWorkflow_def completedBy_def
        addIgnoring_completed GetExecutionCompleted_def
      split: if_splits option.splits sum.splits)+

lemma completed_stays_on_Fail:
  assumes "applyAction L a R rd cs ctc rh action result s = Fail e r' s'"
    and "rs_CompletedEvent s = Some ec"
  shows "rs_CompletedEvent s' = Some ec \<and> res_ContinuedAsNew r' = res_ContinuedAsNew result"
  using assms
  by (cases "wa_Type action")
    (auto simp: applyAction_def apply_defs Let_def GetExecutionCompleted_def split: if_splits option.splits sum.splits)

lemma completed_stays_applyActions:
  assumes "rs_CompletedEvent s = Some ec"
    and "applyActions L a R env cs ctc rh i actions result s = (err, result', s')"
  shows "rs_CompletedEvent s' = Some ec \<and> res_ContinuedAsNew result' = res_ContinuedAsNew result"
  using assms
proof (induction actions arbitrary: i result s)
  case (Cons action rest)
  show ?case
  proof (cases "applyAction L a R (env i) cs ctc rh action result s")
    case (Next r1 s1)
    with completed_applyAction(1) [OF Next] applyAction_Next_continued [OF Next] Cons
    show ?thesis by auto
  next
    case (Return r1 s1)
    from applyAction_Return [OF this] Cons.prems(1) show ?thesis by simp
  next
    case (Fail e r1 s1)
    with completed_stays_on_Fail [OF Fail Cons.prems(1)] Cons.prems(2) show ?thesis by simp
  qed
qed simp

lemma first_completion_applyActions:
  assumes "rs_CompletedEvent s = None" and "\<not> res_ContinuedAsNew result"
    and "applyActions L a R env cs ctc rh i actions result s = (None, result', s')"
  shows "case find_first GetCompleteWorkflow actions of
           None \<Rightarrow> rs_CompletedEvent s' = None \<and> \<not> res_ContinuedAsNew result'
         | Some c \<Rightarrow>
             if cwa_WorkflowStatus c = CONTINUED_AS_NEW then res_ContinuedAsNew result'
             else rs_CompletedEvent s' = Some (completedBy c) \<and> \<not> res_ContinuedAsNew result'"
  using assms
proof (induction actions arbitrary: i result s)
  case (Cons action rest)
  show ?case
  proof (cases "applyAction L a R (env i) cs ctc rh action result s")
    case (Next r1 s1)
    note run = Cons.prems(3) [simplified applyActions.simps Next step.case]
    from applyAction_Next_continued [OF Next] Cons.prems(2) have r1: "\<not> res_ContinuedAsNew r1" by simp
    show ?thesis
    proof (cases "GetCompleteWorkflow action")
      case None
      with completed_applyAction(1) [OF Next] Cons.prems(1) have "rs_CompletedEvent s1 = None" by simp
      from Cons.IH [OF this r1 run] None show ?thesis by simp
    next
      case (Some c)
      with completed_applyAction(1) [OF Next] Cons.prems(1)
      have "rs_CompletedEvent s1 = Some (completedBy c)" by simp
      from completed_stays_applyActions [OF this run] r1 Some
        completed_applyAction(2) [OF Next Cons.prems(1) Some] show ?thesis by simp
    qed
  next
    case (Return r1 s1)
    with applyAction_Return [OF Return] Cons.prems(3) show ?thesis
      by (auto simp: GetCompleteWorkflow_def)
  next
    case (Fail e r1 s1)
    with Cons.prems show ?thesis by simp
  qed
qed simp


section \<open>The next generation\<close>

lemma applyAction_Next_frame:
  assumes "applyAction L a R rd cs ctc rh action result s = Next r' s'"
  shows "rs_StartEvent s' = rs_StartEvent s \<and> rs_InstanceId s' = rs_InstanceId s"
  using assms
  by (cases "wa_Type action")
    (auto simp: applyAction_def apply_defs Let_def AddEvent_eq getter_defs
      split: if_splits option.splits sum.splits)

lemma newGeneration_cong:
  "rs_InstanceId s1 = rs_InstanceId s \<Longrightarrow> newGeneration rd s1 cs start c r = newGeneration rd s cs start c r"
  by (simp add: newGeneration_def newGenerationStart_def)

definition next_generation_of ::
  "(nat \<Rightarrow> reading) \<Rightarrow> Applier \<Rightarrow> string option \<Rightarrow> CompleteWorkflowAction \<Rightarrow> WorkflowRuntimeState
    \<Rightarrow> WorkflowRuntimeState \<Rightarrow> bool" where
  "next_generation_of env a cs c s s' \<longleftrightarrow>
     (\<exists>j start router. rs_StartEvent s = Some start \<and> tr_SourceAppID router = ap_appID a
        \<and> s' = newGeneration (env j) s cs start c router)"

lemma next_generation_of_cong:
  assumes "rs_StartEvent s1 = rs_StartEvent s" and "rs_InstanceId s1 = rs_InstanceId s"
  shows "next_generation_of env a cs c s1 s' = next_generation_of env a cs c s s'"
  unfolding next_generation_of_def using newGeneration_cong [OF assms(2)] assms(1) by simp

lemma stampRouter_source [simp]: "tr_SourceAppID (stampRouter app r) = app"
  by (simp add: stampRouter_def split: option.split)

lemma applyActions_continued:
  assumes "applyActions L a R env cs ctc rh i actions result s = (None, result', s')"
    and "res_ContinuedAsNew result'" and "\<not> res_ContinuedAsNew result" and "rs_CompletedEvent s = None"
  shows "\<exists>c. find_first GetCompleteWorkflow actions = Some c \<and> cwa_WorkflowStatus c = CONTINUED_AS_NEW
           \<and> next_generation_of env a cs c s s'"
  using assms
proof (induction actions arbitrary: i result s)
  case (Cons action rest)
  show ?case
  proof (cases "applyAction L a R (env i) cs ctc rh action result s")
    case (Next r1 s1)
    with Cons.prems(1) have run: "applyActions L a R env cs ctc rh (Suc i) rest r1 s1 = (None, result', s')" by simp
    have r1: "\<not> res_ContinuedAsNew r1" using applyAction_Next_continued [OF Next] Cons.prems(3) by simp
    have none: "GetCompleteWorkflow action = None"
    proof (rule ccontr)
      assume "GetCompleteWorkflow action \<noteq> None"
      then obtain ec where "rs_CompletedEvent s1 = Some ec"
        using completed_applyAction(1) [OF Next] Cons.prems(4) by auto
      from completed_stays_applyActions [OF this run] r1 Cons.prems(2) show False by simp
    qed
    then have "rs_CompletedEvent s1 = None" using completed_applyAction(1) [OF Next] Cons.prems(4) by simp
    from Cons.IH [OF run Cons.prems(2) r1 this] none show ?thesis
      using next_generation_of_cong [of s1 s] applyAction_Next_frame [OF Next] by simp
  next
    case (Return r1 s1)
    with Cons.prems(1) have "s' = s1" by simp
    with applyAction_Return [OF Return] obtain c start where
      c: "wa_Type action = CompleteWorkflow c" "cwa_WorkflowStatus c = CONTINUED_AS_NEW"
      and "rs_StartEvent s = Some start"
      and "s' = newGeneration (env i) s cs start c (stampRouter (ap_appID a) (wa_Router action))" by blast
    then have "next_generation_of env a cs c s s'"
      unfolding next_generation_of_def using stampRouter_source by blast
    with c show ?thesis by (simp add: GetCompleteWorkflow_def)
  next
    case (Fail e r1 s1)
    with Cons.prems show ?thesis by simp
  qed
qed simp

lemma snd_addEach_Cons: "snd (addEach s (e # es)) = snd (addEach (addIgnoring s e) es)"
  by (simp split: prod.split)

lemma fold_addIgnoring: "fold (\<lambda>e n. addIgnoring n e) es s = snd (AddEvents s es)"
  unfolding AddEvents_eq_addEach
  by (induction es arbitrary: s) (simp_all only: snd_addEach_Cons fold.simps comp_apply, simp)

lemma start_addIgnoring:
  "rs_StartEvent s = Some x \<Longrightarrow> rs_StartEvent (addIgnoring s e) = Some x"
  by (auto simp: AddEvent_eq dup_event_def split: option.split)

lemma rs_start_addEach:
  "rs_StartEvent s = Some x \<Longrightarrow> rs_StartEvent (snd (addEach s es)) = Some x"
proof (induction es arbitrary: s)
  case (Cons e es)
  from Cons.IH [OF start_addIgnoring [OF Cons.prems]] show ?case by (simp only: snd_addEach_Cons)
qed simp

lemma newGeneration_spec:
  fixes rd s cs start c router
  defines "n \<equiv> newGeneration rd s cs start c router"
  shows "rs_OldEvents n = []" "rs_PendingTasks n = []" "rs_PendingTimers n = []" "rs_PendingMessages n = []"
    "rs_ContinuedAsNew n" "rs_CustomStatus n = cs" "rs_InstanceId n = rs_InstanceId s"
    "rs_NewEvents n = accept_log
       [mkEvent (-1) (rd_now1 rd) (WorkflowStarted None) (Some router),
        mkEvent (-1) (rd_now2 rd) (ExecutionStarted (newGenerationStart rd s start c)) (Some router)]
       (cwa_CarryoverEvents c)"
    "rs_StartEvent n = Some (newGenerationStart rd s start c)"
proof -
  define n0 where "n0 = (NewWorkflowRuntimeState (rs_InstanceId s) cs [])\<lparr>rs_ContinuedAsNew := True\<rparr>"
  have n0: "n0 = (emptyWorkflowRuntimeState (rs_InstanceId s) cs)\<lparr>rs_ContinuedAsNew := True\<rparr>"
    by (simp add: n0_def NewWorkflowRuntimeState_def)
  let ?w = "mkEvent (-1) (rd_now1 rd) (WorkflowStarted None) (Some router)"
  let ?x = "mkEvent (-1) (rd_now2 rd) (ExecutionStarted (newGenerationStart rd s start c)) (Some router)"
  define n2 where "n2 = accept (accept n0 ?w True) ?x True"
  have x: "addIgnoring (accept n0 ?w True) ?x = n2"
    by (simp add: n2_def AddEvent_eq dup_event_def n0 emptyWorkflowRuntimeState_def getter_defs Of_def)
  have n: "n = snd (AddEvents n2 (cwa_CarryoverEvents c))"
    unfolding n_def newGeneration_def Let_def n0_def [symmetric]
    by (simp only: addIgnoring_plain plain_type_simps x fold_addIgnoring)
  obtain errs where r: "AddEvents n2 (cwa_CarryoverEvents c) = (errs, n)"
    using n by (cases "AddEvents n2 (cwa_CarryoverEvents c)") simp
  have "rs_wf (accept n0 ?w True)" by (rule rs_wf_accept_plain) (simp_all add: n0)
  then have wf: "rs_wf n2" using rs_wf_AddEvent x by metis
  have log2: "rs_OldEvents n2 = []" "rs_NewEvents n2 = [?w, ?x]"
    by (simp_all add: n2_def n0 emptyWorkflowRuntimeState_def)
  from AddEvents_refines [OF wf r] log2
  show "rs_OldEvents n = []" and "rs_NewEvents n = accept_log [?w, ?x] (cwa_CarryoverEvents c)" by simp_all
  have frame: "addAllWithDedup True n2 (NewForState n2) (cwa_CarryoverEvents c) = (errs, n)"
    using r by (cases "cwa_CarryoverEvents c") (simp_all add: AddEvents_def)
  from addAll_frame [OF frame]
  show "rs_PendingTasks n = []" "rs_PendingTimers n = []" "rs_PendingMessages n = []"
    "rs_ContinuedAsNew n" "rs_CustomStatus n = cs" "rs_InstanceId n = rs_InstanceId s"
    by (simp_all add: n2_def n0 emptyWorkflowRuntimeState_def)
  have "rs_StartEvent n2 = Some (newGenerationStart rd s start c)" by (simp add: n2_def getter_defs)
  from rs_start_addEach [OF this] n show "rs_StartEvent n = Some (newGenerationStart rd s start c)"
    by (simp add: AddEvents_eq_addEach)
qed

section \<open>The parent hears once\<close>

definition results_of :: "WorkflowRuntimeStateMessage list \<Rightarrow> (string \<times> HistoryEventType) list" where
  "results_of ms = map (\<lambda>m. (rm_TargetInstanceId m, he_EventType (rm_HistoryEvent m)))
                     [m \<leftarrow> ms. IsChildResult (rm_HistoryEvent m)]"

text \<open>The report a completion owes the parent named in the start event.\<close>

definition report :: "ExecutionStartedEvent option \<Rightarrow> CompleteWorkflowAction \<Rightarrow> (string \<times> HistoryEventType) list" where
  "report start c =
     (case Option.bind start es_ParentInstance of
        None \<Rightarrow> []
      | Some p \<Rightarrow> (case pi_WorkflowInstance p of
                     None \<Rightarrow> [] | Some w \<Rightarrow> [(wi_InstanceId w, childOutcome (pi_TaskScheduledId p) c)]))"

lemma results_applyAction:
  assumes "applyAction L a R rd cs ctc rh action result s = Next r' s'"
  shows "results_of (rs_PendingMessages s') = results_of (rs_PendingMessages s) @
           (case (rs_CompletedEvent s, GetCompleteWorkflow action) of
              (None, Some c) \<Rightarrow> report (rs_StartEvent s) c | _ \<Rightarrow> [])"
  using assms
  by (cases "wa_Type action";
      auto simp: applyAction_def apply_defs Let_def GetCompleteWorkflow_def results_of_def IsChildResult_def
        addIgnoring_completed GetExecutionStarted_def GetChildWorkflowInstanceCompleted_def
        GetChildWorkflowInstanceFailed_def report_def childOutcome_def
      split: if_splits option.splits sum.splits)

lemma results_applyActions:
  assumes "applyActions L a R env cs ctc rh i actions result s = (None, result', s')"
    and "\<not> res_ContinuedAsNew result'"
  shows "results_of (rs_PendingMessages s') = results_of (rs_PendingMessages s) @
           (case (rs_CompletedEvent s, find_first GetCompleteWorkflow actions) of
              (None, Some c) \<Rightarrow> report (rs_StartEvent s) c | _ \<Rightarrow> [])"
  using assms
proof (induction actions arbitrary: i result s)
  case Nil
  then show ?case by (simp split: option.split)
next
  case (Cons action rest)
  show ?case
  proof (cases "applyAction L a R (env i) cs ctc rh action result s")
    case (Next r1 s1)
    with Cons.prems(1) have run: "applyActions L a R env cs ctc rh (Suc i) rest r1 s1 = (None, result', s')" by simp
    have start: "rs_StartEvent s1 = rs_StartEvent s" using applyAction_Next_frame [OF Next] by simp
    show ?thesis
      unfolding Cons.IH [OF run Cons.prems(2)] results_applyAction [OF Next]
        completed_applyAction(1) [OF Next] start
      by (cases "rs_CompletedEvent s"; cases "GetCompleteWorkflow action"; simp split: option.split)
  next
    case (Return r1 s1)
    with applyAction_Return [OF Return] Cons.prems show ?thesis by simp
  next
    case (Fail e r1 s1)
    with Cons.prems show ?thesis by simp
  qed
qed

section \<open>When the applier fails\<close>

definition action_ok :: "WorkflowAction \<Rightarrow> bool" where
  "action_ok action \<longleftrightarrow>
     (case wa_Type action of
        ActionTypeNotSet \<Rightarrow> False
      | CreateDetachedWorkflow d \<Rightarrow> cda_InstanceId d \<noteq> []
      | SendEvent e \<Rightarrow> sea_Instance e \<noteq> None
      | _ \<Rightarrow> True)"

definition start_ok :: "WorkflowRuntimeState \<Rightarrow> bool" where
  "start_ok s \<longleftrightarrow>
     (case rs_StartEvent s of
        None \<Rightarrow> False
      | Some start \<Rightarrow>
          (case es_ParentInstance start of None \<Rightarrow> True | Some p \<Rightarrow> pi_WorkflowInstance p \<noteq> None))"

lemma map_result_Inl: "map_result f xs = Inl e \<Longrightarrow> \<exists>x\<in>set xs. f x = Inl e"
  by (induction xs) (auto split: sum.splits)

lemma Assemble_error:
  "AssembleProtoPropagatedHistory L s scope rh app = Inl err \<Longrightarrow>
     err = ErrorString ''proto: marshal'' \<and> (\<exists>e\<in>set (rs_log s). lib_marshal L e = None)"
  by (auto simp: AssembleProtoPropagatedHistory_def Let_def proto_Marshal_def dest!: map_result_Inl
      split: if_splits sum.splits option.splits)

lemma applyAction_Fail:
  assumes "applyAction L a R rd cs ctc rh action result s = Fail err r' s'"
    and "action_ok action" and "start_ok s"
  shows "errors_Is err (ErrorString ''proto: marshal'')"
  using assms
  by (cases "wa_Type action";
      auto simp: applyAction_def apply_defs Let_def action_ok_def start_ok_def GetExecutionStarted_def
        GetExecutionCompleted_def addIgnoring_completed
        dest!: Assemble_error
      split: if_splits option.splits sum.splits)

lemma applyActions_Fail:
  assumes "applyActions L a R env cs ctc rh i actions result s = (Some err, result', s')"
    and "list_all action_ok actions" and "start_ok s"
  shows "errors_Is err (ErrorString ''proto: marshal'')"
  using assms
proof (induction actions arbitrary: i result s)
  case (Cons action rest)
  show ?case
  proof (cases "applyAction L a R (env i) cs ctc rh action result s")
    case (Next r1 s1)
    with applyAction_Next_frame [OF Next] Cons show ?thesis by (auto simp: start_ok_def)
  next
    case (Return r1 s1)
    with Cons.prems show ?thesis by simp
  next
    case (Fail e r1 s1)
    with Cons.prems applyAction_Fail [OF Fail] show ?thesis by simp
  qed
qed simp

section \<open>A concrete pass\<close>

definition sample_start :: ExecutionStartedEvent where
  "sample_start =
     \<lparr>es_Name = ''wf'', es_Version = None, es_Input = Some ''in'',
      es_WorkflowInstance = Some \<lparr>wi_InstanceId = ''child'', wi_ExecutionId = Some ''gen1''\<rparr>,
      es_ParentInstance = Some \<lparr>pi_TaskScheduledId = 7, pi_Name = None, pi_Version = None,
        pi_WorkflowInstance = Some \<lparr>wi_InstanceId = ''parent'', wi_ExecutionId = Some ''gen0''\<rparr>,
        pi_AppID = None, pi_AppNamespace = None\<rparr>,
      es_ScheduledStartTimestamp = None, es_ParentTraceContext = None, es_WorkflowSpanID = None,
      es_Tags = []\<rparr>"

text \<open>A child workflow whose task 0 was resolved before it was scheduled.\<close>

definition sample_state :: WorkflowRuntimeState where
  "sample_state = NewWorkflowRuntimeState ''child'' None
     [mkEvent (-1) 1 (ExecutionStarted sample_start) None, sample_done 0]"

definition sample_task :: "int32 \<Rightarrow> WorkflowAction" where
  "sample_task i = \<lparr>wa_Id = i,
     wa_Type = ScheduleTask \<lparr>sta_Name = ''act'', sta_Version = None, sta_Input = None,
       sta_TaskExecutionId = [], sta_HistoryPropagationScope = None\<rparr>, wa_Router = None\<rparr>"

definition sample_complete :: "int32 \<Rightarrow> OrchestrationStatus \<Rightarrow> WorkflowAction" where
  "sample_complete i st = \<lparr>wa_Id = i,
     wa_Type = CompleteWorkflow \<lparr>cwa_WorkflowStatus = st, cwa_Result = Some ''out'', cwa_Details = None,
       cwa_NewVersion = None, cwa_CarryoverEvents = [], cwa_FailureDetails = None\<rparr>, wa_Router = None\<rparr>"

definition sample_reading :: "nat \<Rightarrow> reading" where
  "sample_reading i = \<lparr>rd_now1 = 10, rd_now2 = 11, rd_uuid = ''gen2'', rd_root = None\<rparr>"

definition sample_run :: "WorkflowAction list \<Rightarrow> error option \<times> ActionsResult \<times> WorkflowRuntimeState" where
  "sample_run actions = Actions (table_lib []) (NewApplier ''app'' []) sample_reading sample_state None actions None None"

lemma sample_state_eq:
  "sample_state = (emptyWorkflowRuntimeState ''child'' None)
     \<lparr>rs_OldEvents := [mkEvent (-1) 1 (ExecutionStarted sample_start) None, sample_done 0],
      rs_StartEvent := Some sample_start, rs_CreatedTime := Some 1, rs_LastUpdatedTime := Some 5\<rparr>"
  by (simp add: sample_state_def NewWorkflowRuntimeState_def New_def addEventWithDedup_def
      appendEvent_def emptyWorkflowRuntimeState_def sample_done_def Of_def Add_def AsTime_def)

lemma sample_state_facts [simp]:
  "rs_wf sample_state" "rs_StartEvent sample_state = Some sample_start"
  "rs_CompletedEvent sample_state = None" "rs_keys sample_state = {(KindTask, 0)}"
  "rs_InstanceId sample_state = ''child''" "rs_NewEvents sample_state = []"
  "rs_PendingTasks sample_state = []" "rs_PendingMessages sample_state = []" "start_ok sample_state"
proof -
  show "rs_wf sample_state" unfolding sample_state_def by (rule NewWorkflowRuntimeState_refines)
qed (simp_all add: sample_state_eq emptyWorkflowRuntimeState_def rs_keys_def sample_done_def Of_def
    start_ok_def sample_start_def)

lemma sample_run_ok:
  "fst (sample_run [sample_task 0, sample_task 1, sample_complete 2 COMPLETED]) = None"
  "\<not> res_ContinuedAsNew (fst (snd (sample_run [sample_task 0, sample_task 1, sample_complete 2 COMPLETED])))"
  by (simp_all add: sample_run_def Actions_def applyAction_def applyScheduleTask_def applyComplete_def
      sample_task_def sample_complete_def Let_def GetScope_def addIgnoring_completed emptyActionsResult_def
      GetExecutionStarted_def sample_start_def)

lemma sample_continue_ok:
  "fst (sample_run [sample_task 1, sample_complete 2 CONTINUED_AS_NEW]) = None"
  "res_ContinuedAsNew (fst (snd (sample_run [sample_task 1, sample_complete 2 CONTINUED_AS_NEW])))"
  by (simp_all add: sample_run_def Actions_def applyAction_def applyScheduleTask_def applyContinueAsNew_def
      sample_task_def sample_complete_def Let_def GetScope_def emptyActionsResult_def canForwardScope_def
      GetExecutionStarted_def GetExecutionCompleted_def sample_start_def)

lemma NewForState_Has_Actions:
  "Has (NewForState (s\<lparr>rs_CustomStatus := cs, rs_Stalled := None\<rparr>)) k i \<longleftrightarrow> (k, i) \<in> rs_keys s"
  by (simp add: Has_NewForState)

section \<open>Properties\<close>

text \<open>
  C8. Applying the actions a workflow returned keeps the runtime state in agreement with its log,
  whatever the actions are and also when the applier fails part way.
\<close>

theorem actions_keep_invariant:
  assumes "rs_wf s" and "Actions L a env s cs actions ctc rh = (err, result, s')"
  shows "rs_wf s'"
  using rs_wf_applyActions assms unfolding Actions_def Let_def by (metis rs_wf_updates(5,6))

theorem actions_keep_invariant_witness:
  "rs_wf (snd (snd (sample_run [sample_task 0, sample_task 1, sample_complete 2 COMPLETED])))"
proof -
  obtain err result s' where r:
    "sample_run [sample_task 0, sample_task 1, sample_complete 2 COMPLETED] = (err, result, s')"
    by (rule prod_cases3)
  from actions_keep_invariant [OF sample_state_facts(1) r [unfolded sample_run_def]] r show ?thesis by simp
qed

text \<open>
  C9. Recording and dispatching agree. A pass that neither fails nor continues as new leaves the
  old events alone and appends to the new ones exactly one record per scheduling action, in order
  and under the action's id. The activities, timers and instance starts put in the outbox are the
  ones recorded, minus those whose resolution was already in the history: resolved work is recorded
  but never dispatched again.
\<close>

theorem actions_dispatch_unresolved:
  assumes "Actions L a env s cs actions ctc rh = (None, result, s')" and "\<not> res_ContinuedAsNew result"
  shows "dispatched (rs_keys s) (List.map_filter recorded_id actions) s s'"
proof -
  from dispatched_applyActions [OF NewForState_Has_Actions assms(1) [unfolded Actions_def Let_def] assms(2)]
  show ?thesis by (simp add: dispatched_def)
qed

theorem actions_dispatch_unresolved_witness:
  "\<exists>result s'. sample_run [sample_task 0, sample_task 1, sample_complete 2 COMPLETED] = (None, result, s')
     \<and> dispatched {(KindTask, 0)} [0, 1] sample_state s'"
proof -
  obtain err result s' where r:
    "sample_run [sample_task 0, sample_task 1, sample_complete 2 COMPLETED] = (err, result, s')"
    by (rule prod_cases3)
  with sample_run_ok have ok: "err = None" "\<not> res_ContinuedAsNew result" by simp_all
  from actions_dispatch_unresolved [OF r [unfolded sample_run_def ok(1)] ok(2)]
  have "dispatched {(KindTask, 0)} [0, 1] sample_state s'"
    by (simp add: recorded_id_def sample_task_def sample_complete_def List.map_filter_def)
  with r ok show ?thesis by blast
qed

text \<open>
  C10. The first completion wins. On a state that is already completed no action changes the
  completion or starts a new generation, whether or not the pass fails. On a state that is not, a
  successful pass ends with the outcome of the first completion action in the list: the recorded
  completion carries its status, result and failure details, or, if it asks for it, the workflow
  continues as new; with no completion action the state stays open.
\<close>

theorem first_completion_wins:
  assumes "Actions L a env s cs actions ctc rh = (err, result, s')"
  shows "(\<forall>ec. rs_CompletedEvent s = Some ec \<longrightarrow>
            rs_CompletedEvent s' = Some ec \<and> \<not> res_ContinuedAsNew result)
       \<and> (rs_CompletedEvent s = None \<and> err = None \<longrightarrow>
           (case find_first GetCompleteWorkflow actions of
              None \<Rightarrow> rs_CompletedEvent s' = None \<and> \<not> res_ContinuedAsNew result
            | Some c \<Rightarrow>
                if cwa_WorkflowStatus c = CONTINUED_AS_NEW then res_ContinuedAsNew result
                else rs_CompletedEvent s' = Some (completedBy c) \<and> \<not> res_ContinuedAsNew result))"
proof -
  note run = assms [unfolded Actions_def Let_def]
  have r0: "\<not> res_ContinuedAsNew emptyActionsResult" by (simp add: emptyActionsResult_def)
  have "rs_CompletedEvent s' = Some ec \<and> \<not> res_ContinuedAsNew result" if "rs_CompletedEvent s = Some ec" for ec
    using completed_stays_applyActions [OF _ run] that r0 by simp
  moreover have "case find_first GetCompleteWorkflow actions of
              None \<Rightarrow> rs_CompletedEvent s' = None \<and> \<not> res_ContinuedAsNew result
            | Some c \<Rightarrow>
                if cwa_WorkflowStatus c = CONTINUED_AS_NEW then res_ContinuedAsNew result
                else rs_CompletedEvent s' = Some (completedBy c) \<and> \<not> res_ContinuedAsNew result"
    if "rs_CompletedEvent s = None" "err = None"
    using first_completion_applyActions [OF _ r0 run [unfolded that(2)]] that(1) by simp
  ultimately show ?thesis by blast
qed

theorem first_completion_wins_witness:
  "\<exists>result s'. sample_run [sample_task 0, sample_complete 2 FAILED, sample_complete 3 CONTINUED_AS_NEW]
       = (None, result, s')
     \<and> map_option ec_WorkflowStatus (rs_CompletedEvent s') = Some FAILED \<and> \<not> res_ContinuedAsNew result"
proof -
  let ?as = "[sample_task 0, sample_complete 2 FAILED, sample_complete 3 CONTINUED_AS_NEW]"
  obtain err result s' where r: "sample_run ?as = (err, result, s')" by (rule prod_cases3)
  have "fst (sample_run ?as) = None"
    by (simp add: sample_run_def Actions_def applyAction_def applyScheduleTask_def applyComplete_def
        sample_task_def sample_complete_def Let_def GetScope_def addIgnoring_completed
        GetExecutionStarted_def GetExecutionCompleted_def sample_start_def)
  with r have e: "err = None" by simp
  from first_completion_wins [OF r [unfolded sample_run_def]] show ?thesis
    using r e by (simp add: GetCompleteWorkflow_def sample_task_def sample_complete_def completedBy_def)
qed

text \<open>
  C11. Continue-as-new starts a clean generation. The history becomes a workflow-started and a
  start event followed by the carried-over events that are not duplicates; everything pending,
  including what earlier actions of the same pass asked for, is dropped; the instance id, the
  workflow name and the parent link are kept, the input is the completion's result, the execution
  id is fresh, and a workflow that was not traced stays untraced.
\<close>

theorem continue_as_new_generation:
  assumes run: "Actions L a env s cs actions ctc rh = (None, result, s')"
    and can: "res_ContinuedAsNew result"
  shows "\<exists>c start j router. find_first GetCompleteWorkflow actions = Some c
      \<and> cwa_WorkflowStatus c = CONTINUED_AS_NEW \<and> rs_StartEvent s = Some start
      \<and> rs_OldEvents s' = [] \<and> rs_PendingTasks s' = [] \<and> rs_PendingTimers s' = [] \<and> rs_PendingMessages s' = []
      \<and> rs_ContinuedAsNew s' \<and> rs_InstanceId s' = rs_InstanceId s
      \<and> rs_NewEvents s' = accept_log
          [mkEvent (-1) (rd_now1 (env j)) (WorkflowStarted None) (Some router),
           mkEvent (-1) (rd_now2 (env j)) (ExecutionStarted (newGenerationStart (env j) s start c)) (Some router)]
          (cwa_CarryoverEvents c)
      \<and> (\<exists>start'. rs_StartEvent s' = Some start' \<and> es_Name start' = es_Name start
           \<and> es_ParentInstance start' = es_ParentInstance start \<and> es_Input start' = cwa_Result c
           \<and> es_executionId start' = Some (rd_uuid (env j))
           \<and> (es_ParentTraceContext start = None \<longrightarrow> es_ParentTraceContext start' = None))"
proof -
  note run' = run [unfolded Actions_def Let_def]
  have r0: "\<not> res_ContinuedAsNew emptyActionsResult" by (simp add: emptyActionsResult_def)
  have open_s: "rs_CompletedEvent s = None"
    using completed_stays_applyActions [OF _ run'] can r0 by (cases "rs_CompletedEvent s") auto
  let ?s0 = "s\<lparr>rs_CustomStatus := cs, rs_Stalled := None\<rparr>"
  from applyActions_continued [OF run' can r0] open_s obtain c where
    c: "find_first GetCompleteWorkflow actions = Some c" "cwa_WorkflowStatus c = CONTINUED_AS_NEW"
    and "next_generation_of env a cs c ?s0 s'" by auto
  then have "next_generation_of env a cs c s s'" using next_generation_of_cong [of ?s0 s] by simp
  then obtain j start router where start: "rs_StartEvent s = Some start"
    and n: "s' = newGeneration (env j) s cs start c router"
    unfolding next_generation_of_def by blast
  show ?thesis
    unfolding n using c start
    by (intro exI [of _ c] exI [of _ start] exI [of _ j] exI [of _ router])
      (simp add: newGeneration_spec newGenerationStart_def es_executionId_def)
qed

theorem continue_as_new_generation_witness:
  "\<exists>result s'. sample_run [sample_task 1, sample_complete 2 CONTINUED_AS_NEW] = (None, result, s')
     \<and> rs_PendingTasks s' = [] \<and> map_option es_Input (rs_StartEvent s') = Some (Some ''out'')"
proof -
  let ?as = "[sample_task 1, sample_complete 2 CONTINUED_AS_NEW]"
  obtain err result s' where r: "sample_run ?as = (err, result, s')" by (rule prod_cases3)
  with sample_continue_ok have ok: "err = None" "res_ContinuedAsNew result" by simp_all
  have "find_first GetCompleteWorkflow ?as = Some c \<Longrightarrow> cwa_Result c = Some ''out''" for c
    by (auto simp: GetCompleteWorkflow_def sample_task_def sample_complete_def)
  with continue_as_new_generation [OF r [unfolded sample_run_def ok(1)] ok(2)] r ok show ?thesis
    by fastforce
qed

text \<open>
  C12. A child reports to its parent exactly once. After a pass that neither fails nor continues as
  new, the child results in the outbox are the ones already there plus, if this pass completed an
  open workflow that has a parent, one result addressed to that parent and carrying the task id
  under which the parent created it: a completion for a successful run, a failure otherwise.
\<close>

theorem parent_told_once:
  assumes "Actions L a env s cs actions ctc rh = (None, result, s')" and "\<not> res_ContinuedAsNew result"
  shows "results_of (rs_PendingMessages s') = results_of (rs_PendingMessages s) @
           (case (rs_CompletedEvent s, find_first GetCompleteWorkflow actions) of
              (None, Some c) \<Rightarrow> report (rs_StartEvent s) c | _ \<Rightarrow> [])"
  using results_applyActions [OF assms(1) [unfolded Actions_def Let_def] assms(2)]
  by (simp cong: option.case_cong)

theorem parent_told_once_witness:
  "results_of (rs_PendingMessages
      (snd (snd (sample_run [sample_task 0, sample_task 1, sample_complete 2 COMPLETED])))) =
     [(''parent'', ChildWorkflowInstanceCompleted \<lparr>cc_TaskScheduledId = 7, cc_Result = Some ''out''\<rparr>)]"
proof -
  let ?as = "[sample_task 0, sample_task 1, sample_complete 2 COMPLETED]"
  obtain err result s' where r: "sample_run ?as = (err, result, s')" by (rule prod_cases3)
  with sample_run_ok have ok: "err = None" "\<not> res_ContinuedAsNew result" by simp_all
  from parent_told_once [OF r [unfolded sample_run_def ok(1)] ok(2)] r show ?thesis
    by (simp add: results_of_def GetCompleteWorkflow_def sample_task_def sample_complete_def report_def
        sample_start_def childOutcome_def)
qed

text \<open>
  C13. The applier fails only on malformed input. For a started workflow whose parent link, if any,
  names an instance, and for actions of a known type that name their target, the only possible
  error is a failure to encode the history that is being propagated.
\<close>

theorem applier_failure_cases:
  assumes "Actions L a env s cs actions ctc rh = (Some err, result, s')"
    and "list_all action_ok actions" and "start_ok s"
  shows "errors_Is err (ErrorString ''proto: marshal'')"
  using applyActions_Fail [OF assms(1) [unfolded Actions_def Let_def] assms(2)] assms(3)
  by (simp add: start_ok_def)

text \<open>An activity that asks for the history of a state the codec cannot encode.\<close>

theorem applier_failure_cases_witness:
  "\<exists>err result s'. sample_run [(sample_task 1)\<lparr>wa_Type := ScheduleTask \<lparr>sta_Name = ''act'', sta_Version = None,
        sta_Input = None, sta_TaskExecutionId = [], sta_HistoryPropagationScope = Some SCOPE_OWN_HISTORY\<rparr>\<rparr>]
      = (Some err, result, s') \<and> errors_Is err (ErrorString ''proto: marshal'')"
proof -
  let ?as = "[(sample_task 1)\<lparr>wa_Type := ScheduleTask \<lparr>sta_Name = ''act'', sta_Version = None,
        sta_Input = None, sta_TaskExecutionId = [], sta_HistoryPropagationScope = Some SCOPE_OWN_HISTORY\<rparr>\<rparr>]"
  obtain e result s' where r: "sample_run ?as = (e, result, s')" by (rule prod_cases3)
  have "fst (sample_run ?as) \<noteq> None"
    by (simp add: sample_run_def Actions_def applyAction_def applyScheduleTask_def sample_task_def Let_def
        GetScope_def Has_NewForState AssembleProtoPropagatedHistory_def proto_Marshal_def table_lib_def
        sample_state_eq emptyWorkflowRuntimeState_def rs_keys_def sample_done_def Of_def)
  with r obtain err where e: "e = Some err" by auto
  have "list_all action_ok ?as" by (simp add: action_ok_def)
  from applier_failure_cases [OF r [unfolded sample_run_def e] this] r e show ?thesis by auto
qed

end
