(* ===== verification/Processor.thy ===== *)
theory Processor
  imports Applier "HOL-Library.Multiset"
begin

text \<open>
  The workflow processor (\<open>src/backend/orchestration.go\<close>) with the work items it handles
  (\<open>src/backend/workitem.go\<close>) and the child bookkeeping of \<open>src/backend/backend.go\<close>. One call of
  \<open>ProcessWorkItem\<close> is one durable turn: load the state, append the new events, run the workflow
  code, apply its actions, repeat for continue-as-new, enforce termination and cascade it.

  The workflow executor is an argument. It may answer differently on every call, so it also takes
  the number of the call within the turn. Clock, UUID, trace context and the iteration order of Go
  maps come from a \<open>turn_env\<close>. Logging and span attributes are left out.
\<close>

section \<open>Work items (backend/workitem.go)\<close>

record WorkflowWorkItem =
  wwi_InstanceID :: InstanceID
  wwi_NewEvents :: "HistoryEvent list"
  wwi_LockedBy :: string
  wwi_RetryCount :: int32
  wwi_State :: "WorkflowRuntimeState option"
  wwi_IncomingHistory :: "PropagatedHistory option"
  wwi_OutgoingHistory :: "int32 \<rightharpoonup> PropagatedHistory option"

record ActivityWorkItem =
  awi_SequenceNumber :: int
  awi_InstanceID :: InstanceID
  awi_NewEvent :: HistoryEvent
  awi_Result :: "HistoryEvent option"
  awi_LockedBy :: string
  awi_IncomingHistory :: "PropagatedHistory option"

text \<open>Durations are in nanoseconds.\<close>

definition second :: int where
  "second = 1000000000"

definition GetAbandonDelay :: "WorkflowWorkItem \<Rightarrow> int" where
  "GetAbandonDelay wi =
     (if wwi_RetryCount wi = 0 then 0
      else if sint (wwi_RetryCount wi) > 100 then 5 * 60 * second
      else sint (wwi_RetryCount wi) * second)"

section \<open>Children (backend/backend.go)\<close>

definition isRemoteRouter :: "TaskRouter option \<Rightarrow> bool" where
  "isRemoteRouter r \<longleftrightarrow> GetTargetAppID r \<noteq> []"

type_synonym childWorkflowRef = "InstanceID \<times> TaskRouter option"

text \<open>The closure \<open>collect\<close>: the map as an association list, in which the first entry of an id stays.\<close>

fun collectChildren :: "childWorkflowRef list \<Rightarrow> HistoryEvent list \<Rightarrow> childWorkflowRef list" where
  "collectChildren m [] = m"
| "collectChildren m (e # es) =
     (case GetChildWorkflowInstanceCreated e of
        None \<Rightarrow> collectChildren m es
      | Some created \<Rightarrow>
          if map_of m (cw_InstanceId created) \<noteq> None then collectChildren m es
          else collectChildren (m @ [(cw_InstanceId created, he_Router e)]) es)"

text \<open>\<open>order\<close> is the order in which the run-time happens to iterate over the map.\<close>

definition getChildWorkflowInstances ::
  "(childWorkflowRef list \<Rightarrow> childWorkflowRef list) \<Rightarrow> HistoryEvent list \<Rightarrow> HistoryEvent list
    \<Rightarrow> childWorkflowRef list" where
  "getChildWorkflowInstances order oldEvents newEvents =
     order (collectChildren (collectChildren [] oldEvents) newEvents)"

definition order_ok :: "(childWorkflowRef list \<Rightarrow> childWorkflowRef list) \<Rightarrow> bool" where
  "order_ok order \<longleftrightarrow> (\<forall>xs. mset (order xs) = mset xs)"

definition terminateMessage ::
  "ExecutionTerminatedEvent \<Rightarrow> int \<Rightarrow> childWorkflowRef \<Rightarrow> WorkflowRuntimeStateMessage" where
  "terminateMessage et now child =
     \<lparr>rm_HistoryEvent = mkEvent (-1) now
        (ExecutionTerminated \<lparr>et_Input = et_Input et, et_Recurse = et_Recurse et\<rparr>) (snd child),
      rm_TargetInstanceId = fst child, rm_PropagatedHistory = None\<rparr>"

definition appendCascadeTerminateMessages ::
  "(childWorkflowRef list \<Rightarrow> childWorkflowRef list) \<Rightarrow> (nat \<Rightarrow> int) \<Rightarrow> WorkflowRuntimeState
    \<Rightarrow> ExecutionTerminatedEvent \<Rightarrow> WorkflowRuntimeState" where
  "appendCascadeTerminateMessages order now state et =
     (if \<not> et_Recurse et then state
      else
        let children = getChildWorkflowInstances order (rs_OldEvents state) (rs_NewEvents state)
        in state\<lparr>rs_PendingMessages := rs_PendingMessages state @
             map (\<lambda>i. terminateMessage et (now i) (children ! i)) [0..<length children]\<rparr>)"

section \<open>The processor (backend/orchestration.go)\<close>

record WorkflowResponse =
  wfr_InstanceId :: string
  wfr_Actions :: "WorkflowAction list"
  wfr_CustomStatus :: "string option"
  wfr_CompletionToken :: string
  wfr_Version :: "WorkflowVersion option"

text \<open>\<open>ExecuteWorkflow\<close>: the number of the call, the instance, old and new events, propagated history.\<close>

type_synonym WorkflowExecutor =
  "nat \<Rightarrow> InstanceID \<Rightarrow> HistoryEvent list \<Rightarrow> HistoryEvent list \<Rightarrow> PropagatedHistory option
    \<Rightarrow> error + WorkflowResponse"

record workflowProcessor =
  wp_executor :: WorkflowExecutor
  wp_inProcessExecutor :: "WorkflowExecutor option"
  wp_inProcessNamePrefix :: string
  wp_applier :: Applier

text \<open>
  What a turn reads from its environment: the time it started, the readings of the applier per
  call and action, those of the forced termination, the trace context of the current span, the
  time stamps of the cascaded messages and the map iteration order.
\<close>

record turn_env =
  te_turnStartedAt :: int
  te_readings :: "nat \<Rightarrow> nat \<Rightarrow> reading"
  te_forced :: "nat \<Rightarrow> reading"
  te_span :: "nat \<Rightarrow> TraceContext option"
  te_cascade :: "nat \<Rightarrow> int"
  te_order :: "childWorkflowRef list \<Rightarrow> childWorkflowRef list"

text \<open>
  \<open>applyWorkItem\<close>: the updated state and whether to execute. Logging a start event dereferences
  its workflow instance.
\<close>

definition applyWorkItem ::
  "int \<Rightarrow> HistoryEvent list \<Rightarrow> WorkflowRuntimeState \<Rightarrow> error + WorkflowRuntimeState \<times> bool" where
  "applyWorkItem turnStartedAt newEvents s =
     (if \<not> IsValid s then Inr (s, False)
      else if IsCompleted s then Inr (s, False)
      else
        let s1 = addIgnoring s (mkEvent (-1) turnStartedAt (WorkflowStarted None) None);
            s2 = snd (AddEvents s1 newEvents)
        in if list_ex (\<lambda>e. case GetExecutionStarted e of
                             Some es \<Rightarrow> es_WorkflowInstance es = None | None \<Rightarrow> False) newEvents
           then Inl NilDereference
           else if rs_NewEvents s2 = [] then Inr (s2, False) else Inr (s2, True))"

definition selectExecutor :: "workflowProcessor \<Rightarrow> WorkflowRuntimeState \<Rightarrow> WorkflowExecutor" where
  "selectExecutor w s =
     (case wp_inProcessExecutor w of
        None \<Rightarrow> wp_executor w
      | Some inProcess \<Rightarrow>
          if wp_inProcessNamePrefix w \<noteq> [] \<and>
             take (length (wp_inProcessNamePrefix w))
               (case rs_StartEvent s of None \<Rightarrow> [] | Some es \<Rightarrow> es_Name es) = wp_inProcessNamePrefix w
          then inProcess else wp_executor w)"

text \<open>The version a workflow reports is written into the first workflow-started event of the turn.\<close>

fun setFirstVersion :: "WorkflowVersion \<Rightarrow> HistoryEvent list \<Rightarrow> HistoryEvent list" where
  "setFirstVersion v [] = []"
| "setFirstVersion v (e # es) =
     (case he_EventType e of
        WorkflowStarted _ \<Rightarrow> e\<lparr>he_EventType := WorkflowStarted (Some v)\<rparr> # es
      | _ \<Rightarrow> e # setFirstVersion v es)"

definition recordVersion :: "WorkflowVersion option \<Rightarrow> WorkflowRuntimeState \<Rightarrow> WorkflowRuntimeState" where
  "recordVersion version s =
     (case version of
        Some v \<Rightarrow> if wv_Patches v \<noteq> [] \<or> wv_Name v \<noteq> None
                  then s\<lparr>rs_NewEvents := setFirstVersion v (rs_NewEvents s)\<rparr> else s
      | None \<Rightarrow> s)"

definition isContinueAsNew :: "WorkflowAction \<Rightarrow> bool" where
  "isContinueAsNew action \<longleftrightarrow>
     (case GetCompleteWorkflow action of
        Some c \<Rightarrow> cwa_WorkflowStatus c = CONTINUED_AS_NEW | None \<Rightarrow> False)"

text \<open>The state the loop carries: runtime state, incoming and outgoing history.\<close>

type_synonym turn_state =
  "WorkflowRuntimeState \<times> PropagatedHistory option \<times> (int32 \<rightharpoonup> PropagatedHistory option)"

definition MaxContinueAsNewCount :: nat where
  "MaxContinueAsNewCount = 20"

text \<open>One iteration: the error or whether it continued as new, and the state.\<close>

definition executeOnce ::
  "lib \<Rightarrow> workflowProcessor \<Rightarrow> turn_env \<Rightarrow> InstanceID \<Rightarrow> ExecutionTerminatedEvent option \<Rightarrow> nat \<Rightarrow> turn_state
    \<Rightarrow> (error + bool) \<times> turn_state" where
  "executeOnce L w te iid terminateEvent canCount ts =
     (let (s, incoming, outgoing) = ts
      in case selectExecutor w s canCount iid (rs_OldEvents s) (rs_NewEvents s) incoming of
           Inl err \<Rightarrow> (Inl (Wrapped ''error executing workflow'' err), ts)
         | Inr results \<Rightarrow>
             let s1 = recordVersion (wfr_Version results) s;
                 actions = (if terminateEvent \<noteq> None
                            then takeWhile (\<lambda>a. \<not> isContinueAsNew a) (wfr_Actions results)
                            else wfr_Actions results)
             in case Actions L (wp_applier w) (te_readings te canCount) s1 (wfr_CustomStatus results) actions
                       (te_span te canCount) incoming of
                  (Some err, _, s2) \<Rightarrow>
                    (Inl (Wrapped ''failed to apply the execution result actions'' err), (s2, incoming, outgoing))
                | (None, applyResult, s2) \<Rightarrow>
                    if res_ContinuedAsNew applyResult then
                      if canCount \<ge> MaxContinueAsNewCount then
                        (Inl (ErrorString ''exceeded tight-loop continue-as-new limit of 20 iterations''),
                         (s2, incoming, res_OutgoingHistory applyResult))
                      else
                        (Inr True,
                         (s2, (case res_NewIncomingHistory applyResult of Some h \<Rightarrow> Some h | None \<Rightarrow> incoming),
                          res_OutgoingHistory applyResult))
                    else (Inr False, (s2, incoming, res_OutgoingHistory applyResult)))"

text \<open>Continuing as new is possible only below the limit.\<close>

lemma executeOnce_continues:
  "executeOnce L w te iid t canCount ts = (Inr True, ts') \<Longrightarrow> canCount < MaxContinueAsNewCount"
  by (auto simp: executeOnce_def Let_def split: prod.splits sum.splits option.splits if_splits)

function executeLoop ::
  "lib \<Rightarrow> workflowProcessor \<Rightarrow> turn_env \<Rightarrow> InstanceID \<Rightarrow> ExecutionTerminatedEvent option \<Rightarrow> nat \<Rightarrow> turn_state
    \<Rightarrow> error option \<times> turn_state" where
  "executeLoop L w te iid terminateEvent canCount ts =
     (case executeOnce L w te iid terminateEvent canCount ts of
        (Inl err, ts') \<Rightarrow> (Some err, ts')
      | (Inr True, ts') \<Rightarrow> executeLoop L w te iid terminateEvent (Suc canCount) ts'
      | (Inr False, ts') \<Rightarrow> (None, ts'))"
  by pat_completeness auto

termination
  by (relation "measure (\<lambda>(L, w, te, iid, t, canCount, ts). Suc MaxContinueAsNewCount - canCount)")
    (auto dest!: executeOnce_continues [OF sym])

declare executeLoop.simps [simp del]

definition forcedTermination :: "ExecutionTerminatedEvent \<Rightarrow> WorkflowAction" where
  "forcedTermination et =
     \<lparr>wa_Id = -1,
      wa_Type = CompleteWorkflow \<lparr>cwa_WorkflowStatus = TERMINATED, cwa_Result = et_Input et,
        cwa_Details = None, cwa_NewVersion = None, cwa_CarryoverEvents = [], cwa_FailureDetails = None\<rparr>,
      wa_Router = None\<rparr>"

text \<open>
  The part after the loop: an execution that did not honour a termination is completed by force,
  without its pending work.
\<close>

definition enforceTermination ::
  "lib \<Rightarrow> workflowProcessor \<Rightarrow> turn_env \<Rightarrow> ExecutionTerminatedEvent option \<Rightarrow> WorkflowRuntimeState
    \<Rightarrow> error option \<times> WorkflowRuntimeState" where
  "enforceTermination L w te terminateEvent s =
     (case terminateEvent of
        None \<Rightarrow> (None, s)
      | Some et \<Rightarrow>
          if IsCompleted s then (None, s)
          else
            let s1 = s\<lparr>rs_PendingTasks := [], rs_PendingTimers := [], rs_PendingMessages := []\<rparr>
            in case Actions L (wp_applier w) (te_forced te) s1 (rs_CustomStatus s1) [forcedTermination et]
                      (te_span te (Suc MaxContinueAsNewCount)) None of
                 (Some err, _, s2) \<Rightarrow> (Some (Wrapped ''failed to apply forced termination'' err), s2)
               | (None, _, s2) \<Rightarrow> (None, s2))"

definition runTurn ::
  "lib \<Rightarrow> workflowProcessor \<Rightarrow> turn_env \<Rightarrow> InstanceID \<Rightarrow> ExecutionTerminatedEvent option \<Rightarrow> turn_state
    \<Rightarrow> error option \<times> turn_state" where
  "runTurn L w te iid terminateEvent ts =
     (case executeLoop L w te iid terminateEvent 0 ts of
        (Some err, ts') \<Rightarrow> (Some err, ts')
      | (None, s, incoming, outgoing) \<Rightarrow>
          (case enforceTermination L w te terminateEvent s of
             (err, s') \<Rightarrow> (err, s', incoming, outgoing)))"

definition withTurn :: "WorkflowWorkItem \<Rightarrow> turn_state \<Rightarrow> WorkflowWorkItem" where
  "withTurn wi ts =
     (case ts of (s, incoming, outgoing) \<Rightarrow>
        wi\<lparr>wwi_State := Some s, wwi_IncomingHistory := incoming, wwi_OutgoingHistory := outgoing\<rparr>)"

definition cascadeTermination ::
  "turn_env \<Rightarrow> ExecutionTerminatedEvent option \<Rightarrow> WorkflowRuntimeState \<Rightarrow> WorkflowRuntimeState" where
  "cascadeTermination te terminateEvent s =
     (case terminateEvent of
        Some et \<Rightarrow> if IsCompleted s
                   then appendCascadeTerminateMessages (te_order te) (te_cascade te) s et else s
      | None \<Rightarrow> s)"

text \<open>\<open>load\<close> is the backend's \<open>GetWorkflowRuntimeState\<close>.\<close>

definition ProcessWorkItem ::
  "lib \<Rightarrow> workflowProcessor \<Rightarrow> turn_env \<Rightarrow> (WorkflowWorkItem \<Rightarrow> error + WorkflowRuntimeState)
    \<Rightarrow> WorkflowWorkItem \<Rightarrow> error option \<times> WorkflowWorkItem" where
  "ProcessWorkItem L w te load wi =
     (case (case wwi_State wi of Some s \<Rightarrow> Inr s | None \<Rightarrow> load wi) of
        Inl err \<Rightarrow> (Some (Wrapped ''failed to load workflow state'' err), wi)
      | Inr s \<Rightarrow>
          let terminateEvent = find_first GetExecutionTerminated (wwi_NewEvents wi)
          in case applyWorkItem (te_turnStartedAt te) (wwi_NewEvents wi) s of
               Inl err \<Rightarrow> (Some err, wi\<lparr>wwi_State := Some s\<rparr>)
             | Inr (s1, ok) \<Rightarrow>
                 let ts = (s1, wwi_IncomingHistory wi, wwi_OutgoingHistory wi)
                 in case (if ok then runTurn L w te (wwi_InstanceID wi) terminateEvent ts else (None, ts)) of
                      (Some err, ts') \<Rightarrow> (Some err, withTurn wi ts')
                    | (None, s2, incoming, outgoing) \<Rightarrow>
                        (None, withTurn wi (cascadeTermination te terminateEvent s2, incoming, outgoing)))"

section \<open>Children\<close>

definition child_ids :: "HistoryEvent list \<Rightarrow> InstanceID set" where
  "child_ids es = {cw_InstanceId c | e c. e \<in> set es \<and> GetChildWorkflowInstanceCreated e = Some c}"

lemma child_ids_simps [simp]:
  "child_ids [] = {}"
  "child_ids (e # es) =
     (case GetChildWorkflowInstanceCreated e of None \<Rightarrow> {} | Some c \<Rightarrow> {cw_InstanceId c}) \<union> child_ids es"
  "child_ids (xs @ ys) = child_ids xs \<union> child_ids ys"
  by (auto simp: child_ids_def split: option.splits)

lemma collectChildren_keys: "fst ` set (collectChildren m es) = fst ` set m \<union> child_ids es"
  by (induction es arbitrary: m) (auto simp: map_of_eq_None_iff split: option.splits)

lemma collectChildren_distinct:
  "distinct (map fst m) \<Longrightarrow> distinct (map fst (collectChildren m es))"
  by (induction es arbitrary: m) (auto simp: map_of_eq_None_iff split: option.splits)

lemma getChildWorkflowInstances_spec:
  assumes "order_ok order"
  shows "set (map fst (getChildWorkflowInstances order olds news)) = child_ids (olds @ news)"
    and "distinct (map fst (getChildWorkflowInstances order olds news))"
proof -
  let ?m = "collectChildren (collectChildren [] olds) news"
  from assms have m: "mset (order ?m) = mset ?m" by (simp add: order_ok_def)
  then have "set (order ?m) = set ?m" by (metis set_mset_mset)
  then show "set (map fst (getChildWorkflowInstances order olds news)) = child_ids (olds @ news)"
    by (simp add: getChildWorkflowInstances_def collectChildren_keys)
  from m have "mset (map fst (order ?m)) = mset (map fst ?m)" by simp
  moreover have "distinct (map fst ?m)" by (intro collectChildren_distinct) simp
  ultimately show "distinct (map fst (getChildWorkflowInstances order olds news))"
    unfolding getChildWorkflowInstances_def by (metis mset_eq_imp_distinct_iff)
qed

lemma cascade_targets:
  assumes "order_ok order"
    and "s' = appendCascadeTerminateMessages order now s et" and "et_Recurse et"
  shows "\<exists>msgs. rs_PendingMessages s' = rs_PendingMessages s @ msgs
           \<and> distinct (map rm_TargetInstanceId msgs)
           \<and> set (map rm_TargetInstanceId msgs) = child_ids (rs_log s)
           \<and> (\<forall>m\<in>set msgs. he_EventType (rm_HistoryEvent m) =
                ExecutionTerminated \<lparr>et_Input = et_Input et, et_Recurse = True\<rparr>)"
proof -
  let ?cs = "getChildWorkflowInstances order (rs_OldEvents s) (rs_NewEvents s)"
  let ?msgs = "map (\<lambda>i. terminateMessage et (now i) (?cs ! i)) [0..<length ?cs]"
  have "map rm_TargetInstanceId ?msgs = map fst ?cs"
    by (rule nth_equalityI) (simp_all add: terminateMessage_def)
  then have "distinct (map rm_TargetInstanceId ?msgs)"
    and "set (map rm_TargetInstanceId ?msgs) = child_ids (rs_log s)"
    using getChildWorkflowInstances_spec [OF assms(1), of "rs_OldEvents s" "rs_NewEvents s"] by simp_all
  moreover have "rs_PendingMessages s' = rs_PendingMessages s @ ?msgs"
    using assms by (simp add: appendCascadeTerminateMessages_def Let_def)
  moreover have "\<forall>m\<in>set ?msgs. he_EventType (rm_HistoryEvent m) =
                ExecutionTerminated \<lparr>et_Input = et_Input et, et_Recurse = True\<rparr>"
    using assms(3) by (auto simp: terminateMessage_def)
  ultimately show ?thesis by blast
qed

section \<open>The invariant through a turn\<close>

text \<open>Recording a version changes the payload of a workflow-started event only.\<close>

lemma map_setFirstVersion:
  assumes "\<And>e x y. he_EventType e = WorkflowStarted x \<Longrightarrow> f (e\<lparr>he_EventType := WorkflowStarted y\<rparr>) = f e"
  shows "map f (setFirstVersion v es) = map f es"
  using assms by (induction es) (auto split: HistoryEventType.splits)

lemma find_first_map: "find_first f xs = find_first (\<lambda>y. y) (map f xs)"
  by (induction xs) (auto split: option.splits)

lemma map_filter_map: "List.map_filter f xs = List.map_filter (\<lambda>y. y) (map f xs)"
  by (induction xs) (auto simp: List.map_filter_def)

lemma log_suspended_setFirstVersion:
  "log_suspended b (setFirstVersion v es) = log_suspended b es"
  by (induction es arbitrary: b) (auto split: HistoryEventType.splits)

lemma setFirstVersion_views:
  "map Of (setFirstVersion v es) = map Of es"
  "map GetExecutionStarted (setFirstVersion v es) = map GetExecutionStarted es"
  "map GetExecutionCompleted (setFirstVersion v es) = map GetExecutionCompleted es"
  "map (stamped GetExecutionStarted) (setFirstVersion v es) = map (stamped GetExecutionStarted) es"
  "map (stamped GetExecutionCompleted) (setFirstVersion v es) = map (stamped GetExecutionCompleted) es"
  "map he_Timestamp (setFirstVersion v es) = map he_Timestamp es"
  by (rule map_setFirstVersion, simp add: Of_def getter_defs stamped_def)+

lemma log_updated_map: "log_updated es = (if map he_Timestamp es = [] then None else Some (AsTime (last (map he_Timestamp es))))"
  by (simp add: log_updated_def last_map)

lemma rs_wf_recordVersion [inv_intros]: "rs_wf s \<Longrightarrow> rs_wf (recordVersion v s)"
proof -
  assume wf: "rs_wf s"
  have "rs_wf (s\<lparr>rs_NewEvents := setFirstVersion x (rs_NewEvents s)\<rparr>)" for x
  proof -
    let ?L = "rs_OldEvents s @ setFirstVersion x (rs_NewEvents s)"
    have views: "map Of ?L = map Of (rs_log s)" "map GetExecutionStarted ?L = map GetExecutionStarted (rs_log s)"
      "map GetExecutionCompleted ?L = map GetExecutionCompleted (rs_log s)"
      "map (stamped GetExecutionStarted) ?L = map (stamped GetExecutionStarted) (rs_log s)"
      "map (stamped GetExecutionCompleted) ?L = map (stamped GetExecutionCompleted) (rs_log s)"
      "map he_Timestamp ?L = map he_Timestamp (rs_log s)"
      "log_suspended False ?L = log_suspended False (rs_log s)"
      by (simp_all add: setFirstVersion_views log_suspended_append log_suspended_setFirstVersion)
    have "rs_wf (s\<lparr>rs_NewEvents := setFirstVersion x (rs_NewEvents s)\<rparr>) \<longleftrightarrow>
      log_ok ?L \<and> rs_StartEvent s = find_first GetExecutionStarted ?L \<and>
      rs_CompletedEvent s = find_first GetExecutionCompleted ?L \<and>
      rs_CreatedTime s = find_first (stamped GetExecutionStarted) ?L \<and>
      rs_CompletedTime s = find_first (stamped GetExecutionCompleted) ?L \<and>
      rs_IsSuspended s = log_suspended False ?L \<and> rs_LastUpdatedTime s = log_updated ?L"
      by (simp add: rs_wf_def)
    also have "\<dots> \<longleftrightarrow> rs_wf s"
      unfolding rs_wf_def log_ok_def log_updated_map
      by (simp only: views map_filter_map [of Of ?L] map_filter_map [of GetExecutionStarted ?L]
          map_filter_map [of GetExecutionCompleted ?L] find_first_map [of GetExecutionStarted ?L]
          find_first_map [of GetExecutionCompleted ?L] find_first_map [of "stamped GetExecutionStarted" ?L]
          find_first_map [of "stamped GetExecutionCompleted" ?L]
          flip: map_filter_map [of Of "rs_log s"] map_filter_map [of GetExecutionStarted "rs_log s"]
          map_filter_map [of GetExecutionCompleted "rs_log s"] find_first_map [of GetExecutionStarted "rs_log s"]
          find_first_map [of GetExecutionCompleted "rs_log s"] find_first_map [of "stamped GetExecutionStarted" "rs_log s"]
          find_first_map [of "stamped GetExecutionCompleted" "rs_log s"])
    finally show ?thesis using wf by simp
  qed
  with wf show ?thesis by (auto simp: recordVersion_def split: option.split)
qed

lemma rs_wf_Actions [inv_intros]:
  "rs_wf s \<Longrightarrow> rs_wf (snd (snd (Actions L a env s cs actions ctc rh)))"
proof -
  assume "rs_wf s"
  then have wf: "rs_wf (s\<lparr>rs_CustomStatus := cs, rs_Stalled := None\<rparr>)" by simp
  obtain err result s' where "Actions L a env s cs actions ctc rh = (err, result, s')" by (rule prod_cases3)
  with rs_wf_applyActions [OF wf] show ?thesis unfolding Actions_def Let_def by auto
qed

lemma rs_wf_executeOnce:
  assumes "rs_wf (fst ts)" and "executeOnce L w te iid t n ts = (r, ts')"
  shows "rs_wf (fst ts')"
proof (cases ts)
  case (fields s incoming outgoing)
  show ?thesis
  proof (cases "selectExecutor w s n iid (rs_OldEvents s) (rs_NewEvents s) incoming")
    case (Inl e)
    with assms fields show ?thesis by (auto simp: executeOnce_def)
  next
    case (Inr results)
    define actions where "actions = (if t \<noteq> None
      then takeWhile (\<lambda>a. \<not> isContinueAsNew a) (wfr_Actions results) else wfr_Actions results)"
    obtain err result s2 where r: "Actions L (wp_applier w) (te_readings te n)
        (recordVersion (wfr_Version results) s) (wfr_CustomStatus results) actions (te_span te n) incoming
        = (err, result, s2)" by (rule prod_cases3)
    have "rs_wf s2"
      using rs_wf_Actions [OF rs_wf_recordVersion, of s] assms(1) fields r by (metis fst_conv snd_conv)
    with assms(2) fields Inr r [unfolded actions_def] show ?thesis
      by (auto simp: executeOnce_def Let_def split: option.splits if_splits)
  qed
qed

lemma rs_wf_executeLoop:
  "rs_wf (fst ts) \<Longrightarrow> executeLoop L w te iid t n ts = (err, ts') \<Longrightarrow> rs_wf (fst ts')"
proof (induction L w te iid t n ts rule: executeLoop.induct)
  case (1 L w te iid t n ts)
  obtain r ts1 where once: "executeOnce L w te iid t n ts = (r, ts1)" by (rule prod.exhaust)
  have wf1: "rs_wf (fst ts1)" by (rule rs_wf_executeOnce [OF 1(2) once])
  show ?case
  proof (cases r)
    case (Inl e)
    with 1(3) once wf1 show ?thesis by (simp add: executeLoop.simps)
  next
    case (Inr b)
    with 1(1) [OF once [symmetric] Inr] 1(3) once wf1 show ?thesis
      by (cases b) (simp_all add: executeLoop.simps [of L w te iid t n ts])
  qed
qed

lemma rs_wf_enforceTermination:
  assumes "rs_wf s" shows "rs_wf (snd (enforceTermination L w te t s))"
proof (cases t)
  case None
  with assms show ?thesis by (simp add: enforceTermination_def)
next
  case (Some et)
  let ?s1 = "s\<lparr>rs_PendingTasks := [], rs_PendingTimers := [], rs_PendingMessages := []\<rparr>"
  have "rs_wf ?s1" using assms by simp
  from rs_wf_Actions [OF this] Some assms show ?thesis
    by (auto simp: enforceTermination_def Let_def split: prod.split option.split) (metis snd_conv)+
qed

lemma rs_wf_runTurn:
  assumes "rs_wf (fst ts)" and "runTurn L w te iid t ts = (err, ts')"
  shows "rs_wf (fst ts')"
proof -
  obtain e s incoming outgoing where loop: "executeLoop L w te iid t 0 ts = (e, s, incoming, outgoing)"
    by (cases "executeLoop L w te iid t 0 ts") auto
  from rs_wf_executeLoop [OF assms(1) loop] have "rs_wf s" by simp
  with rs_wf_enforceTermination [OF this, of L w te t] assms(2) loop show ?thesis
    by (auto simp: runTurn_def split: option.splits prod.splits)
qed

lemma rs_wf_AddEvents [inv_intros]: "rs_wf s \<Longrightarrow> rs_wf (snd (AddEvents s es))"
  using AddEvents_refines(1) by (metis prod.collapse)

lemma rs_wf_applyWorkItem:
  "rs_wf s \<Longrightarrow> applyWorkItem t evs s = Inr (s', ok) \<Longrightarrow> rs_wf s'"
  by (auto simp: applyWorkItem_def Let_def simp del: addIgnoring_plain
      intro!: inv_intros split: if_splits)

lemma rs_wf_cascade: "rs_wf s \<Longrightarrow> rs_wf (cascadeTermination te t s)"
  by (simp add: cascadeTermination_def appendCascadeTerminateMessages_def Let_def split: option.split)

definition loaded ::
  "(WorkflowWorkItem \<Rightarrow> error + WorkflowRuntimeState) \<Rightarrow> WorkflowWorkItem \<Rightarrow> error + WorkflowRuntimeState" where
  "loaded load wi = (case wwi_State wi of Some s \<Rightarrow> Inr s | None \<Rightarrow> load wi)"

lemma withTurn_state [simp]: "wwi_State (withTurn wi ts) = Some (fst ts)"
  by (simp add: withTurn_def split: prod.split)

lemma rs_wf_ProcessWorkItem:
  assumes "loaded load wi = Inr s" and "rs_wf s" and "ProcessWorkItem L w te load wi = (err, wi')"
  shows "\<exists>s'. wwi_State wi' = Some s' \<and> rs_wf s'"
proof (cases "applyWorkItem (te_turnStartedAt te) (wwi_NewEvents wi) s")
  case (Inl e)
  with assms show ?thesis by (auto simp: ProcessWorkItem_def loaded_def)
next
  case (Inr p)
  obtain s1 ok where p: "p = (s1, ok)" by (cases p)
  have wf1: "rs_wf s1" using rs_wf_applyWorkItem [OF assms(2)] Inr p by blast
  let ?t = "find_first GetExecutionTerminated (wwi_NewEvents wi)"
  let ?ts = "(s1, wwi_IncomingHistory wi, wwi_OutgoingHistory wi)"
  obtain e ts' where r: "(if ok then runTurn L w te (wwi_InstanceID wi) ?t ?ts else (None, ?ts)) = (e, ts')"
    by (rule prod.exhaust)
  have wf': "rs_wf (fst ts')"
    using rs_wf_runTurn [of ?ts] wf1 r by (auto split: if_splits)
  from assms(1,3) Inr p r have "(err, wi') = (case e of Some e' \<Rightarrow> (Some e', withTurn wi ts')
      | None \<Rightarrow> (None, withTurn wi (cascadeTermination te ?t (fst ts'), snd ts')))"
    by (auto simp: ProcessWorkItem_def loaded_def Let_def split: option.splits prod.splits)
  with wf' rs_wf_cascade show ?thesis by (auto split: option.splits)
qed

section \<open>Termination is enforced\<close>

lemma enforceTermination_completes:
  assumes "enforceTermination L w te (Some et) s = (None, s')"
  shows "IsCompleted s'"
proof (cases "IsCompleted s")
  case True
  with assms show ?thesis by (simp add: enforceTermination_def)
next
  case False
  let ?s1 = "s\<lparr>rs_PendingTasks := [], rs_PendingTimers := [], rs_PendingMessages := []\<rparr>"
  obtain e result s2 where r: "Actions L (wp_applier w) (te_forced te) ?s1 (rs_CustomStatus ?s1) [forcedTermination et]
      (te_span te (Suc MaxContinueAsNewCount)) None = (e, result, s2)" by (rule prod_cases3)
  with assms False have e: "e = None" and s': "s' = s2"
    by (auto simp: enforceTermination_def split: option.splits)
  have r0: "\<not> res_ContinuedAsNew emptyActionsResult" by (simp add: emptyActionsResult_def)
  from first_completion_applyActions [OF _ r0 r [unfolded Actions_def Let_def e]] False s' show ?thesis
    by (simp add: IsCompleted_def GetCompleteWorkflow_def forcedTermination_def)
qed

lemma applyWorkItem_executes:
  assumes "IsValid s" and "\<not> IsCompleted s" and "applyWorkItem t evs s = Inr (s', ok)"
  shows ok and "rs_NewEvents s' \<noteq> []"
proof -
  let ?e = "mkEvent (-1) t (WorkflowStarted None) None"
  have ne: "rs_NewEvents (snd (addEach (accept s ?e True) evs)) \<noteq> []"
  proof -
    have keep: "rs_NewEvents x \<noteq> [] \<Longrightarrow> rs_NewEvents (snd (addEach x evs)) \<noteq> []" for x
    proof (induction evs arbitrary: x)
      case (Cons e evs)
      have "rs_NewEvents (addIgnoring x e) \<noteq> []" using Cons.prems by (simp add: AddEvent_eq)
      from Cons.IH [OF this] show ?case by (simp only: snd_addEach_Cons not_False_eq_True)
    qed simp
    show ?thesis by (rule keep) simp
  qed
  from assms ne show ok and "rs_NewEvents s' \<noteq> []"
    by (auto simp: applyWorkItem_def Let_def AddEvents_eq_addEach split: if_splits)
qed

lemma ProcessWorkItem_done:
  assumes "loaded load wi = Inr s" and "ProcessWorkItem L w te load wi = (None, wi')"
    and "t = find_first GetExecutionTerminated (wwi_NewEvents wi)"
  shows "\<exists>s1 ok s2 inc out. applyWorkItem (te_turnStartedAt te) (wwi_NewEvents wi) s = Inr (s1, ok)
           \<and> (if ok then runTurn L w te (wwi_InstanceID wi) t (s1, wwi_IncomingHistory wi, wwi_OutgoingHistory wi)
              else (None, s1, wwi_IncomingHistory wi, wwi_OutgoingHistory wi)) = (None, s2, inc, out)
           \<and> wwi_State wi' = Some (cascadeTermination te t s2)"
proof (cases "applyWorkItem (te_turnStartedAt te) (wwi_NewEvents wi) s")
  case (Inl e)
  with assms show ?thesis by (simp add: ProcessWorkItem_def loaded_def)
next
  case (Inr p)
  obtain s1 ok where p: "p = (s1, ok)" by (rule prod.exhaust)
  let ?ts = "(s1, wwi_IncomingHistory wi, wwi_OutgoingHistory wi)"
  obtain e s2 inc out where
    r: "(if ok then runTurn L w te (wwi_InstanceID wi) t ?ts else (None, ?ts)) = (e, s2, inc, out)"
    by (rule prod_cases4)
  from assms Inr p r have "e = None \<and> wwi_State wi' = Some (cascadeTermination te t s2)"
    by (cases e) (auto simp: ProcessWorkItem_def loaded_def Let_def)
  with Inr p r show ?thesis by blast
qed

lemma runTurn_terminates:
  assumes "runTurn L w te iid (Some et) ts = (None, s, inc, out)"
  shows "IsCompleted s"
  using assms enforceTermination_completes
  by (fastforce simp: runTurn_def split: option.splits prod.splits)

lemma terminated_turn_completed:
  assumes "loaded load wi = Inr s" and "IsValid s"
    and "find_first GetExecutionTerminated (wwi_NewEvents wi) = Some et"
    and "ProcessWorkItem L w te load wi = (None, wi')"
  shows "\<exists>s2. IsCompleted s2 \<and> wwi_State wi' = Some (appendCascadeTerminateMessages (te_order te) (te_cascade te) s2 et)"
proof -
  from ProcessWorkItem_done [OF assms(1,4) assms(3) [symmetric]] obtain s1 ok s2 inc out where
    ap: "applyWorkItem (te_turnStartedAt te) (wwi_NewEvents wi) s = Inr (s1, ok)"
    and r: "(if ok then runTurn L w te (wwi_InstanceID wi) (Some et) (s1, wwi_IncomingHistory wi, wwi_OutgoingHistory wi)
              else (None, s1, wwi_IncomingHistory wi, wwi_OutgoingHistory wi)) = (None, s2, inc, out)"
    and st: "wwi_State wi' = Some (cascadeTermination te (Some et) s2)" by blast
  have done2: "IsCompleted s2"
  proof (cases "IsCompleted s")
    case True
    with ap assms(2) r show ?thesis by (auto simp: applyWorkItem_def split: if_splits)
  next
    case False
    with applyWorkItem_executes(1) [OF assms(2) _ ap] r runTurn_terminates show ?thesis by auto
  qed
  then show ?thesis using st by (auto simp: cascadeTermination_def)
qed

section \<open>The executor is called a bounded number of times\<close>

definition same_calls :: "workflowProcessor \<Rightarrow> workflowProcessor \<Rightarrow> bool" where
  "same_calls w w' \<longleftrightarrow> wp_applier w = wp_applier w' \<and>
     (\<forall>s n. n \<le> MaxContinueAsNewCount \<longrightarrow> selectExecutor w s n = selectExecutor w' s n)"

lemma executeLoop_cong:
  assumes "same_calls w w'"
  shows "n \<le> MaxContinueAsNewCount \<Longrightarrow>
           executeLoop L w te iid t n ts = executeLoop L w' te iid t n ts"
proof (induction "MaxContinueAsNewCount - n" arbitrary: n ts rule: less_induct)
  case less
  from assms less.prems have eqs: "wp_applier w = wp_applier w'"
    "\<And>s. selectExecutor w s n = selectExecutor w' s n" by (simp_all add: same_calls_def)
  have once: "executeOnce L w te iid t n ts = executeOnce L w' te iid t n ts"
    unfolding executeOnce_def eqs ..
  obtain r ts' where r: "executeOnce L w' te iid t n ts = (r, ts')" by (rule prod.exhaust)
  show ?case
  proof (cases "r = Inr True")
    case True
    with executeOnce_continues [of L w' te iid t n ts ts'] r have n: "n < MaxContinueAsNewCount" by simp
    then have "executeLoop L w te iid t (Suc n) ts' = executeLoop L w' te iid t (Suc n) ts'"
      by (intro less.hyps) auto
    with True r once show ?thesis
      by (simp add: executeLoop.simps [of L w te iid t n] executeLoop.simps [of L w' te iid t n])
  next
    case False
    with r once show ?thesis
      by (auto simp: executeLoop.simps [of L w te iid t n] executeLoop.simps [of L w' te iid t n]
          split: sum.split bool.split)
  qed
qed

lemma ProcessWorkItem_cong:
  assumes "same_calls w w'"
  shows "ProcessWorkItem L w te load wi = ProcessWorkItem L w' te load wi"
proof -
  have "runTurn L w te iid t ts = runTurn L w' te iid t ts" for iid t ts
  proof -
    have ap: "wp_applier w = wp_applier w'" using assms by (simp add: same_calls_def)
    show ?thesis
      unfolding runTurn_def enforceTermination_def ap executeLoop_cong [OF assms, of 0, simplified] ..
  qed
  note eq = this
  show ?thesis unfolding ProcessWorkItem_def eq ..
qed

section \<open>A concrete turn\<close>

definition sample_terminate :: HistoryEvent where
  "sample_terminate = mkEvent (-1) 6 (ExecutionTerminated \<lparr>et_Input = Some ''stop'', et_Recurse = True\<rparr>) None"

text \<open>A running parent with one child.\<close>

definition sample_parent :: WorkflowRuntimeState where
  "sample_parent = NewWorkflowRuntimeState ''child'' None
     [mkEvent (-1) 1 (ExecutionStarted sample_start) None,
      mkEvent 0 2 (ChildWorkflowInstanceCreated \<lparr>cw_InstanceId = ''kid'', cw_Name = [], cw_Version = None,
        cw_Input = None, cw_ParentTraceContext = None, cw_HistoryPropagationScope = None,
        cw_RetryParentInstanceInfo = None\<rparr>) None]"

definition sample_item :: WorkflowWorkItem where
  "sample_item = \<lparr>wwi_InstanceID = ''child'', wwi_NewEvents = [sample_terminate], wwi_LockedBy = ''me'',
     wwi_RetryCount = 0, wwi_State = Some sample_parent, wwi_IncomingHistory = None,
     wwi_OutgoingHistory = Map.empty\<rparr>"

text \<open>An executor that ignores the termination and keeps continuing as new.\<close>

definition stubborn :: WorkflowExecutor where
  "stubborn n iid olds news ph = Inr \<lparr>wfr_InstanceId = iid, wfr_Actions = [sample_complete 1 CONTINUED_AS_NEW],
     wfr_CustomStatus = None, wfr_CompletionToken = [], wfr_Version = None\<rparr>"

definition sample_processor :: workflowProcessor where
  "sample_processor = \<lparr>wp_executor = stubborn, wp_inProcessExecutor = None, wp_inProcessNamePrefix = [],
     wp_applier = NewApplier ''app'' []\<rparr>"

definition noLoad :: "WorkflowWorkItem \<Rightarrow> error + WorkflowRuntimeState" where
  "noLoad wi = Inl ErrInstanceNotFound"

definition sample_turn :: turn_env where
  "sample_turn = \<lparr>te_turnStartedAt = 5, te_readings = (\<lambda>n. sample_reading), te_forced = sample_reading,
     te_span = (\<lambda>n. None), te_cascade = (\<lambda>n. 12), te_order = rev\<rparr>"

lemma order_ok_rev: "order_ok rev"
  by (simp add: order_ok_def)

lemma sample_parent_facts [simp]:
  "rs_wf sample_parent" "IsValid sample_parent" "\<not> IsCompleted sample_parent"
  "rs_CompletedEvent sample_parent = None" "rs_StartEvent sample_parent = Some sample_start"
proof -
  show "rs_wf sample_parent" unfolding sample_parent_def by (rule NewWorkflowRuntimeState_refines)
qed (simp_all add: sample_parent_def NewWorkflowRuntimeState_def New_def addEventWithDedup_def
    appendEvent_def emptyWorkflowRuntimeState_def Of_def IsValid_def IsCompleted_def)

lemma sample_loaded: "loaded load sample_item = Inr sample_parent"
  by (simp add: loaded_def sample_item_def)

lemma sample_item_terminate:
  "find_first GetExecutionTerminated (wwi_NewEvents sample_item) = Some \<lparr>et_Input = Some ''stop'', et_Recurse = True\<rparr>"
  by (simp add: sample_item_def sample_terminate_def getter_defs)

lemma sample_process_ok:
  "\<exists>wi'. ProcessWorkItem (table_lib []) sample_processor sample_turn noLoad sample_item = (None, wi')"
proof -
  have dup: "\<not> dup_event s (mkEvent (-1) 6 (ExecutionTerminated x) None)" for s x
    by (simp add: dup_event_def getter_defs Of_def)
  show ?thesis
    by (simp add: ProcessWorkItem_def sample_item_def sample_terminate_def getter_defs applyWorkItem_def
        AddEvents_eq_addEach AddEvent_eq dup Let_def runTurn_def executeLoop.simps executeOnce_def
        sample_processor_def selectExecutor_def stubborn_def isContinueAsNew_def GetCompleteWorkflow_def
        sample_complete_def recordVersion_def Actions_def emptyActionsResult_def enforceTermination_def
        IsCompleted_def forcedTermination_def applyAction_def applyComplete_def addIgnoring_completed
        sample_start_def dup_event_def Of_def)
qed

section \<open>Properties\<close>

text \<open>
  C14. A termination is never lost. When a work item for a valid instance contains a termination
  and the turn succeeds, the instance is completed afterwards, whatever the workflow code returned:
  also when it ignored the termination or tried to continue as new.
\<close>

theorem terminate_always_completes:
  assumes "loaded load wi = Inr s" and "IsValid s"
    and "find_first GetExecutionTerminated (wwi_NewEvents wi) = Some et"
    and "ProcessWorkItem L w te load wi = (None, wi')"
  shows "\<exists>s'. wwi_State wi' = Some s' \<and> IsCompleted s'"
  using terminated_turn_completed [OF assms]
  by (auto simp: IsCompleted_def appendCascadeTerminateMessages_def Let_def)

theorem terminate_always_completes_witness:
  "\<exists>wi' s'. ProcessWorkItem (table_lib []) sample_processor sample_turn noLoad sample_item = (None, wi')
     \<and> wwi_State wi' = Some s' \<and> IsCompleted s'"
  using sample_process_ok terminate_always_completes [OF sample_loaded sample_parent_facts(2) sample_item_terminate]
  by metis

text \<open>
  C15. Recursive termination reaches every child. After such a turn the outbox ends with one
  termination message for each child workflow recorded anywhere in the history of the instance,
  each child addressed once, each message carrying the reason and again asking to recurse; this
  holds for whatever order the run-time iterates over the child map in.
\<close>

theorem recursive_terminate_reaches_children:
  assumes "order_ok (te_order te)" and "loaded load wi = Inr s" and "IsValid s"
    and "find_first GetExecutionTerminated (wwi_NewEvents wi) = Some et" and "et_Recurse et"
    and "ProcessWorkItem L w te load wi = (None, wi')"
  shows "\<exists>s' before msgs. wwi_State wi' = Some s' \<and> rs_PendingMessages s' = before @ msgs
           \<and> distinct (map rm_TargetInstanceId msgs)
           \<and> set (map rm_TargetInstanceId msgs) = child_ids (rs_log s')
           \<and> (\<forall>m\<in>set msgs. he_EventType (rm_HistoryEvent m) =
                ExecutionTerminated \<lparr>et_Input = et_Input et, et_Recurse = True\<rparr>)"
proof -
  from terminated_turn_completed [OF assms(2-4,6)] obtain s2 where
    st: "wwi_State wi' = Some (appendCascadeTerminateMessages (te_order te) (te_cascade te) s2 et)" by blast
  have "rs_log (appendCascadeTerminateMessages (te_order te) (te_cascade te) s2 et) = rs_log s2"
    by (simp add: appendCascadeTerminateMessages_def Let_def)
  with st cascade_targets [OF assms(1) refl assms(5), of "te_cascade te" s2] show ?thesis by metis
qed

theorem recursive_terminate_reaches_children_witness:
  "\<exists>wi' s' before msgs. ProcessWorkItem (table_lib []) sample_processor sample_turn noLoad sample_item = (None, wi')
     \<and> wwi_State wi' = Some s' \<and> rs_PendingMessages s' = before @ msgs
     \<and> set (map rm_TargetInstanceId msgs) = child_ids (rs_log s')"
proof -
  obtain wi' where r: "ProcessWorkItem (table_lib []) sample_processor sample_turn noLoad sample_item = (None, wi')"
    using sample_process_ok by blast
  have "order_ok (te_order sample_turn)" by (simp add: sample_turn_def order_ok_rev)
  from recursive_terminate_reaches_children [OF this sample_loaded sample_parent_facts(2) sample_item_terminate _ r] r
  show ?thesis by auto
qed

text \<open>
  C16. A turn invokes the workflow code at most 21 times: two processors whose executors agree on
  the first 21 calls of a turn (numbers 0 to 20) process every work item with the same outcome. The
  tight continue-as-new loop therefore always returns.
\<close>

theorem executor_calls_bounded:
  assumes "same_calls w w'"
  shows "ProcessWorkItem L w te load wi = ProcessWorkItem L w' te load wi"
  by (rule ProcessWorkItem_cong [OF assms])

theorem executor_calls_bounded_witness:
  "ProcessWorkItem (table_lib []) sample_processor sample_turn noLoad sample_item =
   ProcessWorkItem (table_lib [])
     (sample_processor\<lparr>wp_executor := (\<lambda>n. if n \<le> 20 then stubborn n else (\<lambda>iid olds news ph. Inl ErrStalled))\<rparr>)
     sample_turn noLoad sample_item"
  by (rule executor_calls_bounded)
    (simp add: same_calls_def sample_processor_def selectExecutor_def MaxContinueAsNewCount_def)

text \<open>
  C17. A turn keeps the runtime state in agreement with its log, on success and on every error.
\<close>

theorem turn_keeps_invariant:
  assumes "loaded load wi = Inr s" and "rs_wf s" and "ProcessWorkItem L w te load wi = (err, wi')"
  shows "\<exists>s'. wwi_State wi' = Some s' \<and> rs_wf s'"
  by (rule rs_wf_ProcessWorkItem [OF assms])

theorem turn_keeps_invariant_witness:
  "\<exists>s'. wwi_State (snd (ProcessWorkItem (table_lib []) sample_processor sample_turn noLoad sample_item)) = Some s' \<and> rs_wf s'"
  by (rule turn_keeps_invariant [OF sample_loaded [of noLoad] sample_parent_facts(1) prod.collapse [symmetric]])

text \<open>
  C18. A work item of a valid, open instance always executes, even when every one of its events is
  a duplicate or when it has none: the workflow-started event of the turn was appended first, so
  the check for an empty list of new events never holds.
\<close>

theorem duplicate_events_still_execute:
  assumes "IsValid s" and "\<not> IsCompleted s" and "applyWorkItem t evs s = Inr (s', ok)"
  shows "ok"
  by (rule applyWorkItem_executes(1) [OF assms])

theorem duplicate_events_still_execute_witness:
  "\<exists>s'. applyWorkItem 5 [mkEvent (-1) 1 (ExecutionStarted sample_start) None] sample_parent = Inr (s', True)"
proof -
  have "\<exists>p. applyWorkItem 5 [mkEvent (-1) 1 (ExecutionStarted sample_start) None] sample_parent = Inr p"
    by (auto simp: applyWorkItem_def Let_def sample_start_def getter_defs)
  then obtain s' ok where
    r: "applyWorkItem 5 [mkEvent (-1) 1 (ExecutionStarted sample_start) None] sample_parent = Inr (s', ok)"
    by auto
  from duplicate_events_still_execute [OF _ _ r] r show ?thesis by simp
qed

end
