(* ===== verification/Sqlite.thy ===== *)
theory Sqlite
  imports Processor
begin

text \<open>
  The SQLite backend (\<open>src/backend/sqlite/sqlite.go\<close> over \<open>schema.sql\<close>). The database is a record
  of tables, a table a list of rows in the order of their row ids: a new row gets an id above every
  other, so it goes to the end. Every statement of the source is a function on the tables, and every
  method composes them in the order of the source. The database has a single connection, so methods
  do not interleave; a transaction that returns an error leaves the tables unchanged. Errors of the
  SQL driver itself are left out: at any point they would end the transaction in the same way.

  Columns that no statement reads (the \<open>Timestamp\<close> defaults, \<open>ParentInstanceID\<close>, the execution id
  of a task) are left out. The clock, the lease tokens and the codec are arguments.
\<close>

section \<open>Tables\<close>

record InstanceRow =
  ir_InstanceID :: InstanceID
  ir_ExecutionID :: string
  ir_Name :: string
  ir_Version :: "string option"
  ir_RuntimeStatus :: string
  ir_CreatedTime :: int
  ir_LastUpdatedTime :: int
  ir_CompletedTime :: "int option"
  ir_LockedBy :: "string option"
  ir_LockExpiration :: "int option"
  ir_Input :: "string option"
  ir_Output :: "string option"
  ir_CustomStatus :: "string option"
  ir_FailureDetails :: "bytes option"

record HistoryRow =
  hr_InstanceID :: InstanceID
  hr_SequenceNumber :: int
  hr_EventPayload :: bytes

record NewEventRow =
  ne_SequenceNumber :: int
  ne_InstanceID :: InstanceID
  ne_ExecutionID :: "string option"
  ne_VisibleTime :: "int option"
  ne_DequeueCount :: int
  ne_LockedBy :: "string option"
  ne_EventPayload :: bytes

record NewTaskRow =
  nt_SequenceNumber :: int
  nt_InstanceID :: InstanceID
  nt_DequeueCount :: int
  nt_LockedBy :: "string option"
  nt_LockExpiration :: "int option"
  nt_EventPayload :: bytes

record DB =
  db_Instances :: "InstanceRow list"
  db_History :: "HistoryRow list"
  db_NewEvents :: "NewEventRow list"
  db_Deliveries :: "(InstanceID \<times> string \<times> string) list"
  db_NewTasks :: "NewTaskRow list"

definition emptyDB :: DB where
  "emptyDB = \<lparr>db_Instances = [], db_History = [], db_NewEvents = [], db_Deliveries = [], db_NewTasks = []\<rparr>"

record SqliteOptions =
  opt_WorkflowLockTimeout :: int
  opt_ActivityLockTimeout :: int
  opt_FilePath :: string

text \<open>The backend with its options inlined; the registry of pending tasks is a component of its own.\<close>

record sqliteBackend =
  sb_dsn :: string
  sb_db :: "DB option"
  sb_workerName :: string
  sb_FilePath :: string
  sb_WorkflowLockTimeout :: int
  sb_ActivityLockTimeout :: int

definition NewSqliteOptions :: "string \<Rightarrow> SqliteOptions" where
  "NewSqliteOptions filePath =
     \<lparr>opt_WorkflowLockTimeout = 2 * 60 * second, opt_ActivityLockTimeout = 2 * 60 * second,
      opt_FilePath = filePath\<rparr>"

text \<open>Host name (or the error of reading it), process id and a fresh UUID come from the environment.\<close>

definition NewSqliteBackend :: "error + string \<Rightarrow> int \<Rightarrow> string \<Rightarrow> SqliteOptions option \<Rightarrow> sqliteBackend" where
  "NewSqliteBackend host pid uuidStr optsOpt =
     (let opts = (case optsOpt of None \<Rightarrow> NewSqliteOptions [] | Some o' \<Rightarrow> o');
          hostname = (case host of Inl _ \<Rightarrow> ''unknown'' | Inr h \<Rightarrow> h);
          path = opt_FilePath opts
      in \<lparr>sb_dsn = (if path = [] then ''file::memory:''
                  else if \<not> prefix ''file:'' path then ''file:'' @ path else path),
          sb_db = None, sb_workerName = hostname @ '','' @ string_of_int pid @ '','' @ uuidStr,
          sb_FilePath = path, sb_WorkflowLockTimeout = opt_WorkflowLockTimeout opts,
          sb_ActivityLockTimeout = opt_ActivityLockTimeout opts\<rparr>)"

definition newLeaseToken :: "sqliteBackend \<Rightarrow> string \<Rightarrow> string" where
  "newLeaseToken be uuidStr = sb_workerName be @ '','' @ uuidStr"

definition String_sqlite :: "sqliteBackend \<Rightarrow> string" where
  "String_sqlite be = ''sqlite::'' @ sb_FilePath be"

text \<open>\<open>be.ensureDB()\<close> followed by the rest of the method.\<close>

definition ensureDB ::
  "sqliteBackend \<Rightarrow> (DB \<Rightarrow> (error + 'a) \<times> DB) \<Rightarrow> (error + 'a) \<times> sqliteBackend" where
  "ensureDB be f =
     (case sb_db be of
        None \<Rightarrow> (Inl ErrNotInitialized, be)
      | Some db \<Rightarrow> (case f db of (r, db') \<Rightarrow> (r, be\<lparr>sb_db := Some db'\<rparr>)))"

text \<open>\<open>BeginTx\<close>, the body, and \<open>Commit\<close> or the deferred \<open>Rollback\<close>.\<close>

definition transaction :: "(DB \<Rightarrow> error + 'a \<times> DB) \<Rightarrow> DB \<Rightarrow> (error + 'a) \<times> DB" where
  "transaction f db = (case f db of Inl e \<Rightarrow> (Inl e, db) | Inr (x, db') \<Rightarrow> (Inr x, db'))"

text \<open>A method that only reads.\<close>

definition query :: "(DB \<Rightarrow> error + 'a) \<Rightarrow> DB \<Rightarrow> (error + 'a) \<times> DB" where
  "query f db = (f db, db)"

section \<open>Statements\<close>

text \<open>An INTEGER PRIMARY KEY that is not given is one above the largest in the table.\<close>

definition nextKey :: "int list \<Rightarrow> int" where
  "nextKey ks = foldr max ks 0 + 1"

fun insertNewEvents ::
  "(InstanceID \<times> string option \<times> bytes \<times> int option) list \<Rightarrow> NewEventRow list \<Rightarrow> NewEventRow list" where
  "insertNewEvents [] rows = rows"
| "insertNewEvents ((iid, exec, payload, visible) # vs) rows =
     insertNewEvents vs
       (rows @ [\<lparr>ne_SequenceNumber = nextKey (map ne_SequenceNumber rows), ne_InstanceID = iid,
                 ne_ExecutionID = exec, ne_VisibleTime = visible, ne_DequeueCount = 0,
                 ne_LockedBy = None, ne_EventPayload = payload\<rparr>])"

fun insertNewTasks :: "(InstanceID \<times> bytes) list \<Rightarrow> NewTaskRow list \<Rightarrow> NewTaskRow list" where
  "insertNewTasks [] rows = rows"
| "insertNewTasks ((iid, payload) # vs) rows =
     insertNewTasks vs
       (rows @ [\<lparr>nt_SequenceNumber = nextKey (map nt_SequenceNumber rows), nt_InstanceID = iid,
                 nt_DequeueCount = 0, nt_LockedBy = None, nt_LockExpiration = None,
                 nt_EventPayload = payload\<rparr>])"

definition addNewEvents ::
  "(InstanceID \<times> string option \<times> bytes \<times> int option) list \<Rightarrow> DB \<Rightarrow> DB" where
  "addNewEvents vs db = db\<lparr>db_NewEvents := insertNewEvents vs (db_NewEvents db)\<rparr>"

definition findInstance :: "DB \<Rightarrow> InstanceID \<Rightarrow> InstanceRow option" where
  "findInstance db iid = List.find (\<lambda>r. ir_InstanceID r = iid) (db_Instances db)"

text \<open>\<open>UPDATE t SET f WHERE p\<close>: the table and the number of rows affected.\<close>

definition updateWhere :: "('r \<Rightarrow> bool) \<Rightarrow> ('r \<Rightarrow> 'r) \<Rightarrow> 'r list \<Rightarrow> 'r list \<times> nat" where
  "updateWhere p f rows = (map (\<lambda>r. if p r then f r else r) rows, length (filter p rows))"

definition deleteWhere :: "('r \<Rightarrow> bool) \<Rightarrow> 'r list \<Rightarrow> 'r list \<times> nat" where
  "deleteWhere p rows = (filter (\<lambda>r. \<not> p r) rows, length (filter p rows))"

text \<open>\<open>SELECT EventPayload FROM History WHERE InstanceID = ? ORDER BY SequenceNumber\<close>.\<close>

definition historyPayloads :: "DB \<Rightarrow> InstanceID \<Rightarrow> bytes list" where
  "historyPayloads db iid =
     map hr_EventPayload (sort_key hr_SequenceNumber [r \<leftarrow> db_History db. hr_InstanceID r = iid])"

text \<open>\<open>INSERT INTO History\<close> fails on an existing primary key.\<close>

fun insertHistory :: "InstanceID \<Rightarrow> int \<Rightarrow> bytes list \<Rightarrow> HistoryRow list \<Rightarrow> error + HistoryRow list" where
  "insertHistory iid n [] rows = Inr rows"
| "insertHistory iid n (b # bs) rows =
     (if list_ex (\<lambda>r. hr_InstanceID r = iid \<and> hr_SequenceNumber r = n) rows
      then Inl (Wrapped ''failed to insert into the History table'' (ErrorString ''UNIQUE constraint failed''))
      else insertHistory iid (n + 1) bs
             (rows @ [\<lparr>hr_InstanceID = iid, hr_SequenceNumber = n, hr_EventPayload = b\<rparr>]))"

section \<open>Task hub lifecycle\<close>

text \<open>Opening the database at \<open>be.dsn\<close>: the tables found there (the schema adds missing ones).\<close>

definition CreateTaskHub :: "DB \<Rightarrow> sqliteBackend \<Rightarrow> (error + unit) \<times> sqliteBackend" where
  "CreateTaskHub stored be = (Inr (), be\<lparr>sb_db := Some stored\<rparr>)"

text \<open>\<open>removeFile\<close> answers \<open>None\<close> for success, or whether the file was missing, with the error.\<close>

definition DeleteTaskHub ::
  "(string \<Rightarrow> (bool \<times> error) option) \<Rightarrow> sqliteBackend \<Rightarrow> (error + unit) \<times> sqliteBackend" where
  "DeleteTaskHub removeFile be =
     (let be1 = be\<lparr>sb_db := None\<rparr>
      in if sb_FilePath be = [] then (Inr (), be1)
         else (case removeFile (sb_FilePath be) of
                 None \<Rightarrow> (Inr (), be1)
               | Some (notExist, err) \<Rightarrow> (Inl (if notExist then ErrTaskHubNotFound else err), be1)))"

definition Start :: "sqliteBackend \<Rightarrow> (error + unit) \<times> sqliteBackend" where
  "Start be = (Inr (), be)"

definition Stop :: "sqliteBackend \<Rightarrow> (error + unit) \<times> sqliteBackend" where
  "Stop be = (Inr (), be\<lparr>sb_db := None\<rparr>)"

section \<open>Creating and purging instances\<close>

definition insertOrIgnoreInstance ::
  "int \<Rightarrow> HistoryEvent \<Rightarrow> ExecutionStartedEvent \<Rightarrow> WorkflowInstance \<Rightarrow> DB \<Rightarrow> nat \<times> DB" where
  "insertOrIgnoreInstance now e startEvent w db =
     (if findInstance db (wi_InstanceId w) \<noteq> None then (0, db)
      else (1, db\<lparr>db_Instances := db_Instances db @
             [\<lparr>ir_InstanceID = wi_InstanceId w, ir_ExecutionID = GetValue (wi_ExecutionId w),
               ir_Name = es_Name startEvent, ir_Version = Some (GetValue (es_Version startEvent)),
               ir_RuntimeStatus = ''PENDING'', ir_CreatedTime = AsTime (he_Timestamp e),
               ir_LastUpdatedTime = now, ir_CompletedTime = None, ir_LockedBy = None,
               ir_LockExpiration = None, ir_Input = Some (GetValue (es_Input startEvent)),
               ir_Output = None, ir_CustomStatus = None, ir_FailureDetails = None\<rparr>]\<rparr>))"

definition createWorkflowInstanceInternal ::
  "int \<Rightarrow> HistoryEvent option \<Rightarrow> DB \<Rightarrow> error + string \<times> DB" where
  "createWorkflowInstanceInternal now eo db =
     (case eo of
        None \<Rightarrow> Inl (ErrorString ''HistoryEvent must be non-nil'')
      | Some e \<Rightarrow>
          if he_Timestamp e = None then Inl (ErrorString ''HistoryEvent must have a non-nil timestamp'')
          else (case GetExecutionStarted e of
             None \<Rightarrow> Inl (ErrorString ''HistoryEvent must be an ExecutionStartedEvent'')
           | Some startEvent \<Rightarrow>
               (case es_WorkflowInstance startEvent of
                  None \<Rightarrow> Inl NilDereference
                | Some w \<Rightarrow>
                    let (rows, db1) = insertOrIgnoreInstance now e startEvent w db
                    in if rows \<le> 0 then Inl ErrDuplicateInstance else Inr (wi_InstanceId w, db1))))"

definition scheduledStart :: "HistoryEvent \<Rightarrow> int option" where
  "scheduledStart e = Option.bind (GetExecutionStarted e) es_ScheduledStartTimestamp"

text \<open>The request's \<open>StartEvent\<close>; the backend reads no other field of it.\<close>

definition CreateWorkflowInstance ::
  "lib \<Rightarrow> int \<Rightarrow> HistoryEvent option \<Rightarrow> sqliteBackend \<Rightarrow> (error + unit) \<times> sqliteBackend" where
  "CreateWorkflowInstance L now eo be =
     ensureDB be (transaction (\<lambda>db.
       case createWorkflowInstanceInternal now eo db of
         Inl err \<Rightarrow> if errors_Is err ErrIgnoreInstance then Inr ((), db) else Inl err
       | Inr (instanceID, db1) \<Rightarrow>
           (case eo of
              None \<Rightarrow> Inl NilDereference
            | Some e \<Rightarrow>
                and_then (MarshalHistoryEvent L e) (\<lambda>eventPayload.
                  Inr ((), addNewEvents [(instanceID, None, eventPayload, scheduledStart e)] db1)))))"

definition cleanupWorkflowStateInternal :: "DB \<Rightarrow> InstanceID \<Rightarrow> bool \<Rightarrow> error + DB" where
  "cleanupWorkflowStateInternal db iid requireCompleted =
     (if findInstance db iid = None then Inl ErrInstanceNotFound
      else
        let (instances, rowsAffected) =
              deleteWhere (\<lambda>r. ir_InstanceID r = iid \<and>
                (requireCompleted \<longrightarrow> ir_RuntimeStatus r \<in> {''COMPLETED'', ''FAILED'', ''TERMINATED''}))
                (db_Instances db)
        in if requireCompleted \<and> rowsAffected = 0 then Inl ErrNotCompleted
           else Inr \<lparr>db_Instances = instances,
                     db_History = fst (deleteWhere (\<lambda>r. hr_InstanceID r = iid) (db_History db)),
                     db_NewEvents = fst (deleteWhere (\<lambda>r. ne_InstanceID r = iid) (db_NewEvents db)),
                     db_Deliveries = fst (deleteWhere (\<lambda>d. fst d = iid) (db_Deliveries db)),
                     db_NewTasks = fst (deleteWhere (\<lambda>r. nt_InstanceID r = iid) (db_NewTasks db))\<rparr>)"

definition purgeWorkflowStateLocal ::
  "InstanceID \<Rightarrow> bool \<Rightarrow> sqliteBackend \<Rightarrow> (error + unit) \<times> sqliteBackend" where
  "purgeWorkflowStateLocal iid force be =
     ensureDB be (transaction (\<lambda>db.
       and_then (cleanupWorkflowStateInternal db iid True) (\<lambda>db1. Inr ((), db1))))"

definition PurgeWorkflowState ::
  "InstanceID \<Rightarrow> TaskRouter option \<Rightarrow> bool \<Rightarrow> bool \<Rightarrow> sqliteBackend \<Rightarrow> (nat \<times> error option) \<times> sqliteBackend" where
  "PurgeWorkflowState iid router recursive force be =
     (if router \<noteq> None \<and> GetTargetAppID router \<noteq> []
      then ((0, Some (ErrorString ''sqlite backend does not support cross-app purge dispatch'')), be)
      else (case purgeWorkflowStateLocal iid force be of
              (Inl err, be') \<Rightarrow> ((0, Some err), be')
            | (Inr _, be') \<Rightarrow> ((1, None), be')))"

section \<open>Adding events\<close>

text \<open>
  Neither method calls \<open>ensureDB\<close>: with no database the method call on the nil handle panics.
\<close>

definition addChecks :: "HistoryEvent option \<Rightarrow> error option" where
  "addChecks eo =
     (case eo of
        None \<Rightarrow> Some (ErrorString ''HistoryEvent must be non-nil'')
      | Some e \<Rightarrow>
          if IsChildResult e then Some ErrChildExecutionProvenanceRequired
          else if he_Timestamp e = None then Some (ErrorString ''HistoryEvent must have a non-nil timestamp'')
          else None)"

definition AddNewWorkflowEvent ::
  "lib \<Rightarrow> InstanceID \<Rightarrow> HistoryEvent option \<Rightarrow> sqliteBackend \<Rightarrow> (error + unit) \<times> sqliteBackend" where
  "AddNewWorkflowEvent L iid eo be =
     (case (addChecks eo, eo) of
        (Some err, _) \<Rightarrow> (Inl err, be)
      | (None, None) \<Rightarrow> (Inl NilDereference, be)
      | (None, Some e) \<Rightarrow>
          (case MarshalHistoryEvent L e of
             Inl err \<Rightarrow> (Inl err, be)
           | Inr eventPayload \<Rightarrow>
               (case sb_db be of
                  None \<Rightarrow> (Inl NilDereference, be)
                | Some db \<Rightarrow>
                    (Inr (), be\<lparr>sb_db := Some (addNewEvents [(iid, None, eventPayload, None)] db)\<rparr>))))"

definition recordDelivery :: "InstanceID \<times> string \<times> string \<Rightarrow> DB \<Rightarrow> nat \<times> DB" where
  "recordDelivery d db =
     (if d \<in> set (db_Deliveries db) then (0, db)
      else (1, db\<lparr>db_Deliveries := db_Deliveries db @ [d]\<rparr>))"

definition AddNewWorkflowEventWithExternalDelivery ::
  "lib \<Rightarrow> InstanceID \<Rightarrow> string \<Rightarrow> string \<Rightarrow> HistoryEvent option \<Rightarrow> sqliteBackend
    \<Rightarrow> (error + unit) \<times> sqliteBackend" where
  "AddNewWorkflowEventWithExternalDelivery L iid eventName deliveryID eo be =
     (case (addChecks eo, eo) of
        (Some err, _) \<Rightarrow> (Inl err, be)
      | (None, None) \<Rightarrow> (Inl NilDereference, be)
      | (None, Some e) \<Rightarrow>
          (case MarshalHistoryEvent L e of
             Inl err \<Rightarrow> (Inl err, be)
           | Inr eventPayload \<Rightarrow>
               (case sb_db be of
                  None \<Rightarrow> (Inl NilDereference, be)
                | Some db \<Rightarrow>
                    let (inserted, db1) = recordDelivery (iid, eventName, deliveryID) db
                    in if inserted = 0 then (Inr (), be\<lparr>sb_db := Some db1\<rparr>)
                       else (Inr (), be\<lparr>sb_db := Some (addNewEvents [(iid, None, eventPayload, None)] db1)\<rparr>))))"

section \<open>Completing and abandoning workflow work items\<close>

text \<open>
  The two WHERE clauses that check the lease of a work item: on the rows of \<open>NewEvents\<close> and on the
  row of \<open>Instances\<close>.
\<close>

definition held :: "WorkflowWorkItem \<Rightarrow> NewEventRow \<Rightarrow> bool" where
  "held wi r \<longleftrightarrow> ne_InstanceID r = wwi_InstanceID wi \<and> ne_LockedBy r = Some (wwi_LockedBy wi)"

definition leased_by :: "WorkflowWorkItem \<Rightarrow> InstanceRow \<Rightarrow> bool" where
  "leased_by wi r \<longleftrightarrow> ir_InstanceID r = wwi_InstanceID wi \<and> ir_LockedBy r = Some (wwi_LockedBy wi)"

definition AbandonWorkflowWorkItem ::
  "int \<Rightarrow> WorkflowWorkItem \<Rightarrow> sqliteBackend \<Rightarrow> (error + unit) \<times> sqliteBackend" where
  "AbandonWorkflowWorkItem now wi be =
     ensureDB be (transaction (\<lambda>db.
       let delay = GetAbandonDelay wi;
           visibleTime = (if delay > 0 then Some (now + delay) else None);
           (events, rowsAffected) =
             updateWhere (held wi)
               (\<lambda>r. r\<lparr>ne_LockedBy := None, ne_VisibleTime := visibleTime\<rparr>) (db_NewEvents db)
       in if rowsAffected = 0 then Inl ErrWorkItemLockLost
          else
            let (instances, rowsAffected') =
                  updateWhere (leased_by wi)
                    (\<lambda>r. r\<lparr>ir_LockedBy := None, ir_LockExpiration := None\<rparr>) (db_Instances db)
            in if rowsAffected' = 0 then Inl ErrWorkItemLockLost
               else Inr ((), db\<lparr>db_NewEvents := events, db_Instances := instances\<rparr>)))"

text \<open>
  The columns of the instance row that the new events set: the first start event and the first
  completion event count.
\<close>

fun instanceUpdate ::
  "lib \<Rightarrow> int \<Rightarrow> bool \<Rightarrow> bool \<Rightarrow> HistoryEvent list \<Rightarrow> error + (InstanceRow \<Rightarrow> InstanceRow)" where
  "instanceUpdate L now isCreated isCompleted [] = Inr (\<lambda>r. r)"
| "instanceUpdate L now isCreated isCompleted (e # es) =
     (case GetExecutionStarted e of
        Some start \<Rightarrow>
          if isCreated then instanceUpdate L now isCreated isCompleted es
          else and_then (instanceUpdate L now True isCompleted es) (\<lambda>f.
                 Inr (\<lambda>r. f (r\<lparr>ir_CreatedTime := AsTime (he_Timestamp e),
                               ir_Input := Some (GetValue (es_Input start)),
                               ir_ExecutionID := GetValue (es_executionId start)\<rparr>)))
      | None \<Rightarrow>
          (case GetExecutionCompleted e of
             Some ec \<Rightarrow>
               if isCompleted then instanceUpdate L now isCreated isCompleted es
               else and_then
                 (case ec_FailureDetails ec of
                    None \<Rightarrow> Inr None
                  | Some fd \<Rightarrow>
                      (case lib_marshal_details L fd of
                         None \<Rightarrow> Inl (Wrapped ''failed to marshal FailureDetails'' (ErrorString ''proto: marshal''))
                       | Some b \<Rightarrow> Inr (Some b)))
                 (\<lambda>details. and_then (instanceUpdate L now isCreated True es) (\<lambda>f.
                    Inr (\<lambda>r. f (r\<lparr>ir_CompletedTime := Some now, ir_Output := Some (GetValue (ec_Result ec)),
                                  ir_FailureDetails := details\<rparr>))))
           | None \<Rightarrow> instanceUpdate L now isCreated isCompleted es))"

text \<open>Custom status, runtime status, update time and lease: the end of the generated statement.\<close>

definition finishUpdate :: "int \<Rightarrow> WorkflowRuntimeState \<Rightarrow> InstanceRow \<Rightarrow> InstanceRow" where
  "finishUpdate now state r =
     (case rs_CustomStatus state of None \<Rightarrow> r | Some v \<Rightarrow> r\<lparr>ir_CustomStatus := Some v\<rparr>)
       \<lparr>ir_RuntimeStatus := ToRuntimeStatusString (RuntimeStatus state), ir_LastUpdatedTime := now,
        ir_LockExpiration := None\<rparr>"

text \<open>The first start event of the committed history of an instance.\<close>

fun firstStart :: "lib \<Rightarrow> bytes list \<Rightarrow> error + ExecutionStartedEvent option" where
  "firstStart L [] = Inr None"
| "firstStart L (b # bs) =
     and_then (UnmarshalHistoryEvent L b) (\<lambda>e.
       case GetExecutionStarted e of Some start \<Rightarrow> Inr (Some start) | None \<Rightarrow> firstStart L bs)"

definition validateChildDestination :: "lib \<Rightarrow> DB \<Rightarrow> InstanceID \<Rightarrow> string \<Rightarrow> error + unit" where
  "validateChildDestination L db instanceID executionID =
     and_then (firstStart L (historyPayloads db instanceID)) (\<lambda>startOpt.
       case startOpt of
         None \<Rightarrow> Inr ()
       | Some start \<Rightarrow>
           if GetValue (es_executionId start) \<noteq> executionID
           then Inl (Wrapped ''parent instance and committed history disagree'' ErrChildExecutionProvenanceRequired)
           else Inr ())"

text \<open>The unlocked events of the instance whose payload is a task, timer or child resolution.\<close>

fun obsoleteEvents :: "lib \<Rightarrow> NewEventRow list \<Rightarrow> error + int list" where
  "obsoleteEvents L [] = Inr []"
| "obsoleteEvents L (r # rs) =
     and_then (UnmarshalHistoryEvent L (ne_EventPayload r)) (\<lambda>event.
       and_then (obsoleteEvents L rs) (\<lambda>seqs.
         Inr (if Of event \<noteq> None then ne_SequenceNumber r # seqs else seqs)))"

definition discardPreviousExecutionWork :: "lib \<Rightarrow> WorkflowWorkItem \<Rightarrow> DB \<Rightarrow> error + DB" where
  "discardPreviousExecutionWork L wi db =
     (let tasks = fst (deleteWhere (\<lambda>r. nt_InstanceID r = wwi_InstanceID wi) (db_NewTasks db))
      in and_then
           (obsoleteEvents L [r \<leftarrow> db_NewEvents db. ne_InstanceID r = wwi_InstanceID wi
              \<and> ne_LockedBy r \<noteq> Some (wwi_LockedBy wi)])
           (\<lambda>obsolete.
              Inr (db\<lparr>db_NewTasks := tasks,
                      db_NewEvents := fst (deleteWhere (\<lambda>r. ne_SequenceNumber r \<in> set obsolete) (db_NewEvents db))\<rparr>)))"

text \<open>
  Results for parents: admitted only into the execution of the parent that created the child.
\<close>

fun admitChildResults ::
  "lib \<Rightarrow> WorkflowRuntimeState \<Rightarrow> WorkflowRuntimeStateMessage list \<Rightarrow> DB \<Rightarrow> error + DB" where
  "admitChildResults L state [] db = Inr db"
| "admitChildResults L state (msg # msgs) db =
     (if \<not> IsChildResult (rm_HistoryEvent msg) then admitChildResults L state msgs db
      else
        and_then (ChildResultExecutionID state (rm_TargetInstanceId msg)) (\<lambda>generation.
        and_then (MarshalHistoryEvent L (rm_HistoryEvent msg)) (\<lambda>payload.
          case findInstance db (rm_TargetInstanceId msg) of
            None \<Rightarrow> admitChildResults L state msgs db
          | Some row \<Rightarrow>
              and_then (validateChildDestination L db (rm_TargetInstanceId msg) (ir_ExecutionID row)) (\<lambda>_.
                admitChildResults L state msgs
                  (if ir_ExecutionID row = generation
                   then addNewEvents [(rm_TargetInstanceId msg, Some (ir_ExecutionID row), payload, None)] db
                   else db)))))"

text \<open>A start message needs an instance row; an existing one may be replaced if it is completed.\<close>

definition admitStart :: "int \<Rightarrow> HistoryEvent \<Rightarrow> DB \<Rightarrow> error + DB" where
  "admitStart now e db =
     (case GetExecutionStarted e of
        None \<Rightarrow> Inr db
      | Some es \<Rightarrow>
          (case createWorkflowInstanceInternal now (Some e) db of
             Inr (_, db1) \<Rightarrow> Inr db1
           | Inl err \<Rightarrow>
               if err = ErrDuplicateEvent \<or> errors_Is err ErrDuplicateInstance then
                 (case es_WorkflowInstance es of
                    None \<Rightarrow> Inl NilDereference
                  | Some w \<Rightarrow>
                      (case cleanupWorkflowStateInternal db (wi_InstanceId w) True of
                         Inl _ \<Rightarrow>
                           if es_ParentInstance es \<noteq> None then Inl (Wrapped ''child instance collision'' err)
                           else Inr db
                       | Inr db1 \<Rightarrow>
                           (case createWorkflowInstanceInternal now (Some e) db1 of
                              Inr (_, db2) \<Rightarrow> Inr db2
                            | Inl retryErr \<Rightarrow> if es_ParentInstance es \<noteq> None then Inl retryErr else Inr db1)))
               else Inl err))"

type_synonym event_insert = "InstanceID \<times> string option \<times> bytes \<times> int option"

fun timerInserts :: "lib \<Rightarrow> InstanceID \<Rightarrow> HistoryEvent list \<Rightarrow> error + event_insert list" where
  "timerInserts L iid [] = Inr []"
| "timerInserts L iid (e # es) =
     and_then (MarshalHistoryEvent L e) (\<lambda>payload.
       and_then (timerInserts L iid es) (\<lambda>vs.
         Inr ((iid, None, payload,
               Some (AsTime (case he_EventType e of TimerFired t \<Rightarrow> tmf_FireAt t | _ \<Rightarrow> None))) # vs)))"

fun messageInserts ::
  "lib \<Rightarrow> int \<Rightarrow> WorkflowRuntimeStateMessage list \<Rightarrow> DB \<Rightarrow> error + event_insert list \<times> DB" where
  "messageInserts L now [] db = Inr ([], db)"
| "messageInserts L now (msg # msgs) db =
     (if IsChildResult (rm_HistoryEvent msg) then messageInserts L now msgs db
      else
        and_then (admitStart now (rm_HistoryEvent msg) db) (\<lambda>db1.
        and_then (MarshalHistoryEvent L (rm_HistoryEvent msg)) (\<lambda>payload.
        and_then (messageInserts L now msgs db1) (\<lambda>(vs, db2).
          Inr ((rm_TargetInstanceId msg, None, payload, scheduledStart (rm_HistoryEvent msg)) # vs, db2)))))"

text \<open>The steps of \<open>CompleteWorkflowWorkItem\<close> between the two lease checks.\<close>

definition saveHistory :: "lib \<Rightarrow> WorkflowWorkItem \<Rightarrow> WorkflowRuntimeState \<Rightarrow> DB \<Rightarrow> error + DB" where
  "saveHistory L wi state db =
     and_then
       (if rs_ContinuedAsNew state
        then and_then (discardPreviousExecutionWork L wi db) (\<lambda>db1.
               Inr (db1\<lparr>db_History := fst (deleteWhere (\<lambda>r. hr_InstanceID r = wwi_InstanceID wi) (db_History db1))\<rparr>))
        else Inr db)
       (\<lambda>db2.
          and_then (map_result (MarshalHistoryEvent L) (rs_NewEvents state)) (\<lambda>payloads.
          and_then (insertHistory (wwi_InstanceID wi) (int (length (rs_OldEvents state))) payloads (db_History db2))
            (\<lambda>rows. Inr (db2\<lparr>db_History := rows\<rparr>))))"

definition saveOutbox :: "lib \<Rightarrow> int \<Rightarrow> WorkflowWorkItem \<Rightarrow> WorkflowRuntimeState \<Rightarrow> DB \<Rightarrow> error + DB" where
  "saveOutbox L now wi state db =
     and_then (map_result (MarshalHistoryEvent L) (rs_PendingTasks state)) (\<lambda>tasks.
       let db1 = db\<lparr>db_NewTasks := insertNewTasks (map (Pair (wwi_InstanceID wi)) tasks) (db_NewTasks db)\<rparr>
       in and_then (admitChildResults L state (rs_PendingMessages state) db1) (\<lambda>db2.
          and_then (timerInserts L (wwi_InstanceID wi) (rs_PendingTimers state)) (\<lambda>timers.
          and_then (messageInserts L now (rs_PendingMessages state) db2) (\<lambda>(messages, db3).
            Inr (addNewEvents (timers @ messages) db3)))))"

definition completeWorkItemTx ::
  "lib \<Rightarrow> int \<Rightarrow> WorkflowWorkItem \<Rightarrow> WorkflowRuntimeState \<Rightarrow> DB \<Rightarrow> error + unit \<times> DB" where
  "completeWorkItemTx L now wi state db =
     and_then (instanceUpdate L now False False (rs_NewEvents state)) (\<lambda>f.
       let (instances, rows) =
             updateWhere (leased_by wi) (\<lambda>r. finishUpdate now state (f r)) (db_Instances db)
       in if rows = 0 then Inl ErrWorkItemLockLost
          else
            and_then (saveHistory L wi state (db\<lparr>db_Instances := instances\<rparr>)) (\<lambda>db1.
            and_then (saveOutbox L now wi state db1) (\<lambda>db2.
              let (events, rowsAffected) = deleteWhere (held wi) (db_NewEvents db2)
              in if rowsAffected = 0 then Inl ErrWorkItemLockLost
                 else Inr ((), db2\<lparr>db_NewEvents := events\<rparr>))))"

definition CompleteWorkflowWorkItem ::
  "lib \<Rightarrow> int \<Rightarrow> WorkflowWorkItem \<Rightarrow> sqliteBackend \<Rightarrow> (error + unit) \<times> sqliteBackend" where
  "CompleteWorkflowWorkItem L now wi be =
     ensureDB be (transaction (\<lambda>db.
       case wwi_State wi of
         None \<Rightarrow> Inl NilDereference
       | Some state \<Rightarrow> completeWorkItemTx L now wi state db))"

section \<open>Fetching workflow work items\<close>

definition lockable :: "int \<Rightarrow> DB \<Rightarrow> InstanceRow \<Rightarrow> bool" where
  "lockable now db r \<longleftrightarrow>
     (case ir_LockExpiration r of None \<Rightarrow> True | Some t \<Rightarrow> t < now) \<and>
     list_ex (\<lambda>e. ne_InstanceID e = ir_InstanceID r \<and>
                  (case ne_VisibleTime e of None \<Rightarrow> True | Some t \<Rightarrow> t < now)) (db_NewEvents db)"

definition dequeuable :: "int \<Rightarrow> InstanceID \<Rightarrow> NewEventRow \<Rightarrow> bool" where
  "dequeuable now iid e \<longleftrightarrow>
     ne_InstanceID e = iid \<and> (case ne_VisibleTime e of None \<Rightarrow> True | Some t \<Rightarrow> t \<le> now)"

text \<open>The UPDATE on \<open>NewEvents\<close>: the first 1000 of them get the lease; they are also returned.\<close>

fun dequeueEvents ::
  "int \<Rightarrow> InstanceID \<Rightarrow> string \<Rightarrow> nat \<Rightarrow> NewEventRow list \<Rightarrow> NewEventRow list \<times> NewEventRow list" where
  "dequeueEvents now iid token limit [] = ([], [])"
| "dequeueEvents now iid token limit (e # es) =
     (if limit > 0 \<and> dequeuable now iid e then
        let e' = e\<lparr>ne_DequeueCount := ne_DequeueCount e + 1, ne_LockedBy := Some token\<rparr>;
            (rows, taken) = dequeueEvents now iid token (limit - 1) es
        in (e' # rows, e' # taken)
      else
        let (rows, taken) = dequeueEvents now iid token limit es in (e # rows, taken))"

text \<open>
  The loop over the returned rows: the events to deliver with their sequence numbers, the stale child
  results, whether there was any child result.
\<close>

fun readEvents ::
  "lib \<Rightarrow> string \<Rightarrow> NewEventRow list \<Rightarrow> error + (int \<times> HistoryEvent) list \<times> int list \<times> bool" where
  "readEvents L executionID [] = Inr ([], [], False)"
| "readEvents L executionID (r # rs) =
     and_then (UnmarshalHistoryEvent L (ne_EventPayload r)) (\<lambda>e.
       if IsChildResult e \<and> GetValue (ne_ExecutionID r) = [] then Inl ErrChildExecutionProvenanceRequired
       else and_then (readEvents L executionID rs) (\<lambda>(events, stale, hasChild).
              if IsChildResult e \<and> GetValue (ne_ExecutionID r) \<noteq> executionID
              then Inr (events, ne_SequenceNumber r # stale, True)
              else Inr ((ne_SequenceNumber r, e) # events, stale, hasChild \<or> IsChildResult e)))"

text \<open>A successful transaction without a work item commits and returns \<open>errNoWorkItems\<close>.\<close>

text \<open>What the rest of the transaction does once the instance row is found.\<close>

definition fetchWorkItemTx ::
  "lib \<Rightarrow> int \<Rightarrow> int \<Rightarrow> string \<Rightarrow> InstanceRow \<Rightarrow> DB \<Rightarrow> error + WorkflowWorkItem option \<times> DB" where
  "fetchWorkItemTx L now newLockExpiration leaseToken row db =
     (let instanceID = ir_InstanceID row;
          instances = fst (updateWhere (\<lambda>r. ir_InstanceID r = instanceID)
            (\<lambda>r. r\<lparr>ir_LockedBy := Some leaseToken, ir_LockExpiration := Some newLockExpiration\<rparr>) (db_Instances db));
          (rows, taken) = dequeueEvents now instanceID leaseToken 1000 (db_NewEvents db);
          db1 = db\<lparr>db_Instances := instances, db_NewEvents := rows\<rparr>
      in and_then (readEvents L (ir_ExecutionID row) taken) (\<lambda>(events, stale, hasChild).
         and_then (if hasChild then validateChildDestination L db1 instanceID (ir_ExecutionID row) else Inr ()) (\<lambda>_.
           let db2 = db1\<lparr>db_NewEvents := fst (deleteWhere (\<lambda>r. ne_InstanceID r = instanceID
                       \<and> ne_SequenceNumber r \<in> set stale \<and> ne_LockedBy r = Some leaseToken) (db_NewEvents db1))\<rparr>
           in if events = [] then
                Inr (None, db2\<lparr>db_Instances := fst (updateWhere
                  (\<lambda>r. ir_InstanceID r = instanceID \<and> ir_LockedBy r = Some leaseToken)
                  (\<lambda>r. r\<lparr>ir_LockedBy := None, ir_LockExpiration := None\<rparr>) (db_Instances db2))\<rparr>)
              else
                Inr (Some \<lparr>wwi_InstanceID = instanceID, wwi_NewEvents = map snd (sort_key fst events),
                           wwi_LockedBy = leaseToken,
                           wwi_RetryCount = word_of_int (foldr max (map ne_DequeueCount taken) 0 - 1),
                           wwi_State = None, wwi_IncomingHistory = None,
                           wwi_OutgoingHistory = Map.empty\<rparr>, db2))))"

definition getWorkflowWorkItem ::
  "lib \<Rightarrow> int \<Rightarrow> string \<Rightarrow> sqliteBackend \<Rightarrow> (error + WorkflowWorkItem option) \<times> sqliteBackend" where
  "getWorkflowWorkItem L now leaseToken be =
     ensureDB be (transaction (\<lambda>db.
       case List.find (lockable now db) (db_Instances db) of
         None \<Rightarrow> Inr (None, db)
       | Some row \<Rightarrow> fetchWorkItemTx L now (now + sb_WorkflowLockTimeout be) leaseToken row db))"

section \<open>Reading\<close>

definition GetWorkflowRuntimeState ::
  "lib \<Rightarrow> InstanceID \<Rightarrow> sqliteBackend \<Rightarrow> error + WorkflowRuntimeState" where
  "GetWorkflowRuntimeState L iid be =
     fst (ensureDB be (query (\<lambda>db.
       and_then (map_result (UnmarshalHistoryEvent L) (historyPayloads db iid)) (\<lambda>existingEvents.
         Inr (NewWorkflowRuntimeState iid None existingEvents)))))"

definition GetInstanceHistory :: "lib \<Rightarrow> InstanceID \<Rightarrow> sqliteBackend \<Rightarrow> error + HistoryEvent list" where
  "GetInstanceHistory L iid be =
     fst (ensureDB be (query (\<lambda>db. map_result (UnmarshalHistoryEvent L) (historyPayloads db iid))))"

definition ListInstanceIDs :: "sqliteBackend \<Rightarrow> error + InstanceID list" where
  "ListInstanceIDs be = fst (ensureDB be (query (\<lambda>db. Inr (map ir_InstanceID (db_Instances db)))))"

record WorkflowMetadata =
  md_InstanceId :: string
  md_Name :: string
  md_RuntimeStatus :: OrchestrationStatus
  md_CreatedAt :: "int option"
  md_LastUpdatedAt :: "int option"
  md_Input :: "string option"
  md_Output :: "string option"
  md_CustomStatus :: "string option"
  md_FailureDetails :: "TaskFailureDetails option"
  md_CompletedAt :: "int option"
  md_ParentInstanceId :: string
  md_Version :: "string option"
  md_ParentAppId :: "string option"
  md_StartedAt :: "int option"

definition getStartEvent :: "lib \<Rightarrow> DB \<Rightarrow> InstanceID \<Rightarrow> error + ExecutionStartedEvent option" where
  "getStartEvent L db iid =
     (case drop 1 (historyPayloads db iid) of
        [] \<Rightarrow> Inr None
      | b # _ \<Rightarrow>
          (case UnmarshalHistoryEvent L b of
             Inl err \<Rightarrow> Inl (Wrapped ''failed to unmarshal start event'' err)
           | Inr e \<Rightarrow> Inr (GetExecutionStarted e)))"

definition getStartedAt :: "lib \<Rightarrow> DB \<Rightarrow> InstanceID \<Rightarrow> error + int option" where
  "getStartedAt L db iid =
     (case historyPayloads db iid of
        [] \<Rightarrow> Inr None
      | b # _ \<Rightarrow>
          (case UnmarshalHistoryEvent L b of
             Inl err \<Rightarrow> Inl (Wrapped ''failed to unmarshal first history event'' err)
           | Inr e \<Rightarrow> Inr (he_Timestamp e)))"

definition readFailureDetails :: "lib \<Rightarrow> bytes option \<Rightarrow> error + TaskFailureDetails option" where
  "readFailureDetails L payload =
     (case payload of
        None \<Rightarrow> Inr None
      | Some b \<Rightarrow>
          if b = [] then Inr None
          else (case lib_unmarshal_details L b of
                  None \<Rightarrow> Inl (Wrapped ''failed to unmarshal failure details'' (ErrorString ''proto: unmarshal''))
                | Some d \<Rightarrow> Inr (Some d)))"

definition GetWorkflowMetadata ::
  "lib \<Rightarrow> InstanceID \<Rightarrow> TaskRouter option \<Rightarrow> sqliteBackend \<Rightarrow> error + WorkflowMetadata" where
  "GetWorkflowMetadata L iid router be =
     (if GetTargetAppID router \<noteq> []
      then Inl (ErrorString ''sqlite backend does not support cross-app workflow metadata reads'')
      else fst (ensureDB be (query (\<lambda>db.
        case findInstance db iid of
          None \<Rightarrow> Inl ErrInstanceNotFound
        | Some row \<Rightarrow>
            and_then (readFailureDetails L (ir_FailureDetails row)) (\<lambda>failureDetails.
            and_then (getStartedAt L db iid) (\<lambda>startedAt.
            and_then (getStartEvent L db iid) (\<lambda>startEvent.
              let parent = Option.bind startEvent es_ParentInstance
              in Inr \<lparr>md_InstanceId = iid, md_Name = ir_Name row,
                      md_RuntimeStatus = FromRuntimeStatusString (ir_RuntimeStatus row),
                      md_CreatedAt = Some (ir_CreatedTime row), md_LastUpdatedAt = Some (ir_LastUpdatedTime row),
                      md_Input = ir_Input row, md_Output = ir_Output row, md_CustomStatus = ir_CustomStatus row,
                      md_FailureDetails = failureDetails, md_CompletedAt = None,
                      md_ParentInstanceId =
                        (case Option.bind parent pi_WorkflowInstance of None \<Rightarrow> [] | Some w \<Rightarrow> wi_InstanceId w),
                      md_Version = ir_Version row,
                      md_ParentAppId =
                        (case Option.bind parent pi_AppID of
                           None \<Rightarrow> None | Some app \<Rightarrow> if app = [] then None else Some app),
                      md_StartedAt = startedAt\<rparr>)))))))"

section \<open>Activities\<close>

definition taskLockable :: "int \<Rightarrow> NewTaskRow \<Rightarrow> bool" where
  "taskLockable now r \<longleftrightarrow> (case nt_LockExpiration r of None \<Rightarrow> True | Some t \<Rightarrow> t < now)"

text \<open>
  The statement runs on its own: the lease stays even when the payload cannot be read. Rows are in
  the order of their sequence numbers.
\<close>

definition getActivityWorkItem ::
  "lib \<Rightarrow> int \<Rightarrow> string \<Rightarrow> sqliteBackend \<Rightarrow> (error + ActivityWorkItem option) \<times> sqliteBackend" where
  "getActivityWorkItem L now leaseToken be =
     ensureDB be (\<lambda>db.
       case List.find (taskLockable now) (db_NewTasks db) of
         None \<Rightarrow> (Inr None, db)
       | Some row \<Rightarrow>
           let tasks = fst (updateWhere (\<lambda>r. nt_SequenceNumber r = nt_SequenceNumber row)
                 (\<lambda>r. r\<lparr>nt_LockedBy := Some leaseToken,
                        nt_LockExpiration := Some (now + sb_ActivityLockTimeout be),
                        nt_DequeueCount := nt_DequeueCount r + 1\<rparr>) (db_NewTasks db))
           in ((case UnmarshalHistoryEvent L (nt_EventPayload row) of
                  Inl err \<Rightarrow> Inl err
                | Inr e \<Rightarrow> Inr (Some \<lparr>awi_SequenceNumber = nt_SequenceNumber row,
                                     awi_InstanceID = nt_InstanceID row, awi_NewEvent = e, awi_Result = None,
                                     awi_LockedBy = leaseToken, awi_IncomingHistory = None\<rparr>)),
               db\<lparr>db_NewTasks := tasks\<rparr>))"

text \<open>Marshalling a nil result yields no bytes and no error.\<close>

definition CompleteActivityWorkItem ::
  "lib \<Rightarrow> ActivityWorkItem \<Rightarrow> sqliteBackend \<Rightarrow> (error + unit) \<times> sqliteBackend" where
  "CompleteActivityWorkItem L wi be =
     ensureDB be (transaction (\<lambda>db.
       and_then (case awi_Result wi of None \<Rightarrow> Inr [] | Some e \<Rightarrow> MarshalHistoryEvent L e) (\<lambda>bytes.
         let db1 = addNewEvents [(awi_InstanceID wi, None, bytes, None)] db;
             (tasks, rowsAffected) =
               deleteWhere (\<lambda>r. nt_SequenceNumber r = awi_SequenceNumber wi
                  \<and> nt_LockedBy r = Some (awi_LockedBy wi)) (db_NewTasks db1)
         in if rowsAffected = 0 then Inl ErrWorkItemLockLost
            else Inr ((), db1\<lparr>db_NewTasks := tasks\<rparr>))))"

definition AbandonActivityWorkItem ::
  "ActivityWorkItem \<Rightarrow> sqliteBackend \<Rightarrow> (error + unit) \<times> sqliteBackend" where
  "AbandonActivityWorkItem wi be =
     ensureDB be (\<lambda>db.
       let (tasks, rowsAffected) =
             updateWhere (\<lambda>r. nt_SequenceNumber r = awi_SequenceNumber wi \<and> nt_LockedBy r = Some (awi_LockedBy wi))
               (\<lambda>r. r\<lparr>nt_LockedBy := None, nt_LockExpiration := None\<rparr>) (db_NewTasks db)
       in if rowsAffected = 0 then (Inl ErrWorkItemLockLost, db)
          else (Inr (), db\<lparr>db_NewTasks := tasks\<rparr>))"

section \<open>Polling\<close>

text \<open>
  Each round of a polling loop has its clock reading, its lease token, and what other callers do to
  the database before it; the context is cancelled while the loop waits after the last round.
\<close>

record poll =
  pl_now :: int
  pl_token :: string
  pl_others :: "sqliteBackend \<Rightarrow> sqliteBackend"

fun NextWorkflowWorkItem ::
  "lib \<Rightarrow> error \<Rightarrow> poll list \<Rightarrow> sqliteBackend \<Rightarrow> (error + WorkflowWorkItem) \<times> sqliteBackend" where
  "NextWorkflowWorkItem L ctxErr [] be = (Inl ctxErr, be)"
| "NextWorkflowWorkItem L ctxErr (p # ps) be =
     (case getWorkflowWorkItem L (pl_now p) (pl_token p) (pl_others p be) of
        (Inl err, be1) \<Rightarrow> (Inl err, be1)
      | (Inr (Some wi), be1) \<Rightarrow> (Inr wi, be1)
      | (Inr None, be1) \<Rightarrow> NextWorkflowWorkItem L ctxErr ps be1)"

fun NextActivityWorkItem ::
  "lib \<Rightarrow> error \<Rightarrow> poll list \<Rightarrow> sqliteBackend \<Rightarrow> (error + ActivityWorkItem) \<times> sqliteBackend" where
  "NextActivityWorkItem L ctxErr [] be = (Inl ctxErr, be)"
| "NextActivityWorkItem L ctxErr (p # ps) be =
     (case getActivityWorkItem L (pl_now p) (pl_token p) (pl_others p be) of
        (Inl err, be1) \<Rightarrow> (Inl err, be1)
      | (Inr (Some wi), be1) \<Rightarrow> (Inr wi, be1)
      | (Inr None, be1) \<Rightarrow> NextActivityWorkItem L ctxErr ps be1)"

text \<open>The database as each tick of the watch finds it.\<close>

fun watchTicks ::
  "lib \<Rightarrow> InstanceID \<Rightarrow> (WorkflowMetadata \<Rightarrow> bool) \<Rightarrow> error \<Rightarrow> sqliteBackend list \<Rightarrow> error option" where
  "watchTicks L iid fn ctxErr [] = Some ctxErr"
| "watchTicks L iid fn ctxErr (be # bes) =
     (case GetWorkflowMetadata L iid None be of
        Inl err \<Rightarrow> Some err
      | Inr meta \<Rightarrow> if fn meta then None else watchTicks L iid fn ctxErr bes)"

definition WatchWorkflowRuntimeStatus ::
  "lib \<Rightarrow> InstanceID \<Rightarrow> TaskRouter option \<Rightarrow> (WorkflowMetadata \<Rightarrow> bool) \<Rightarrow> error \<Rightarrow> sqliteBackend list \<Rightarrow> error option" where
  "WatchWorkflowRuntimeStatus L iid router fn ctxErr bes =
     (if GetTargetAppID router \<noteq> []
      then Some (ErrorString ''sqlite backend does not support cross-app workflow status watch'')
      else watchTicks L iid fn ctxErr bes)"

end
