(* ===== verification/SqliteFacts.thy ===== *)
theory SqliteFacts
  imports Sqlite
begin

text \<open>
  Properties of the SQLite backend: the keys of its tables stay unique in every reachable state,
  what a completed work item commits is what the next load reads, leases exclude each other, a work
  item completes at most once and consumes exactly the events it was given, external deliveries and
  activity results arrive once, purging an instance removes it and nothing else.
\<close>

section \<open>Transactions\<close>

lemma ensureDB_Inr:
  assumes "ensureDB be f = (Inr x, be')"
  shows "\<exists>db db'. sb_db be = Some db \<and> f db = (Inr x, db') \<and> be' = be\<lparr>sb_db := Some db'\<rparr>"
  using assms by (auto simp: ensureDB_def split: option.splits prod.splits)

lemma transaction_Inr: "transaction f db = (Inr x, db') \<longleftrightarrow> f db = Inr (x, db')"
  by (auto simp: transaction_def split: sum.splits)

lemma transaction_Inl: "transaction f db = (Inl e, db') \<longleftrightarrow> f db = Inl e \<and> db' = db"
  by (auto simp: transaction_def split: sum.splits)

text \<open>A transactional method that fails leaves the backend as it was.\<close>

lemma ensureDB_transaction_Inl:
  assumes "ensureDB be (transaction f) = (Inl e, be')" shows "be' = be"
  using assms
  by (cases be) (auto simp: ensureDB_def transaction_def split: option.splits sum.splits)

lemma ensureDB_transaction:
  "ensureDB be (transaction f) =
     (case sb_db be of
        None \<Rightarrow> (Inl ErrNotInitialized, be)
      | Some db \<Rightarrow> (case f db of Inl e \<Rightarrow> (Inl e, be) | Inr (x, db') \<Rightarrow> (Inr x, be\<lparr>sb_db := Some db'\<rparr>)))"
  by (cases be) (auto simp: ensureDB_def transaction_def split: option.splits sum.splits prod.splits)

section \<open>Keys\<close>

text \<open>
  Instance ids are unique, queue rows are in increasing order of their sequence numbers, history
  positions and delivery receipts are unique.
\<close>

definition db_inv :: "DB \<Rightarrow> bool" where
  "db_inv db \<longleftrightarrow>
     distinct (map ir_InstanceID (db_Instances db)) \<and>
     sorted_wrt (<) (map ne_SequenceNumber (db_NewEvents db)) \<and>
     sorted_wrt (<) (map nt_SequenceNumber (db_NewTasks db)) \<and>
     distinct (map (\<lambda>r. (hr_InstanceID r, hr_SequenceNumber r)) (db_History db)) \<and>
     distinct (db_Deliveries db)"

lemma nextKey_gt: "k \<in> set ks \<Longrightarrow> k < nextKey ks"
  by (induction ks) (auto simp: nextKey_def)

lemma sorted_wrt_snoc: "sorted_wrt (<) (xs @ [x :: int]) \<longleftrightarrow> sorted_wrt (<) xs \<and> (\<forall>y\<in>set xs. y < x)"
  by (simp add: sorted_wrt_append)

lemma insertNewEvents_sorted:
  "sorted_wrt (<) (map ne_SequenceNumber rows) \<Longrightarrow>
   sorted_wrt (<) (map ne_SequenceNumber (insertNewEvents vs rows))"
  by (induction vs rows rule: insertNewEvents.induct) (simp_all add: sorted_wrt_snoc nextKey_gt)

lemma insertNewTasks_sorted:
  "sorted_wrt (<) (map nt_SequenceNumber rows) \<Longrightarrow>
   sorted_wrt (<) (map nt_SequenceNumber (insertNewTasks vs rows))"
  by (induction vs rows rule: insertNewTasks.induct) (simp_all add: sorted_wrt_snoc nextKey_gt)

lemma sorted_wrt_filter_map: "sorted_wrt R (map f xs) \<Longrightarrow> sorted_wrt R (map f (filter P xs))"
  by (induction xs) auto

lemma map_key_update:
  "(\<And>r. k (f r) = k r) \<Longrightarrow> map k (map (\<lambda>r. if p r then f r else r) rows) = map k rows"
  by (induction rows) auto

lemma insertHistory_Inr:
  "insertHistory iid n bs rows = Inr rows' \<Longrightarrow>
     \<exists>new. rows' = rows @ new
        \<and> map hr_SequenceNumber new = map (\<lambda>i. n + int i) [0..<length bs]
        \<and> map hr_EventPayload new = bs \<and> (\<forall>r\<in>set new. hr_InstanceID r = iid)"
proof (induction iid n bs rows rule: insertHistory.induct)
  case (2 iid n b bs rows)
  then obtain new where new: "rows' = rows @ \<lparr>hr_InstanceID = iid, hr_SequenceNumber = n, hr_EventPayload = b\<rparr> # new"
    "map hr_SequenceNumber new = map (\<lambda>i. n + 1 + int i) [0..<length bs]"
    "map hr_EventPayload new = bs" "\<forall>r\<in>set new. hr_InstanceID r = iid"
    by (auto split: if_splits)
  have "map (\<lambda>i. n + int i) [0..<length (b # bs)] = n # map (\<lambda>i. n + 1 + int i) [0..<length bs]"
    by (simp add: map_upt_Suc del: upt_Suc)
  with new show ?case by auto
qed simp

lemma insertHistory_distinct:
  "insertHistory iid n bs rows = Inr rows' \<Longrightarrow>
     distinct (map (\<lambda>r. (hr_InstanceID r, hr_SequenceNumber r)) rows) \<Longrightarrow>
     distinct (map (\<lambda>r. (hr_InstanceID r, hr_SequenceNumber r)) rows')"
  by (induction iid n bs rows rule: insertHistory.induct)
    (auto simp: list_ex_iff split: if_splits)

lemma dequeueEvents_keys:
  "dequeueEvents now iid token limit es = (rows, taken) \<Longrightarrow>
     map ne_SequenceNumber rows = map ne_SequenceNumber es"
  by (induction now iid token limit es arbitrary: rows taken rule: dequeueEvents.induct)
    (auto simp: Let_def split: if_splits prod.splits)

subsection \<open>Every statement keeps the keys\<close>

lemma db_inv_empty [simp]: "db_inv emptyDB"
  by (simp add: db_inv_def emptyDB_def)

lemma db_inv_addNewEvents [inv_intros]: "db_inv db \<Longrightarrow> db_inv (addNewEvents vs db)"
  by (simp add: db_inv_def addNewEvents_def insertNewEvents_sorted)

lemma findInstance_None: "findInstance db iid = None \<longleftrightarrow> iid \<notin> ir_InstanceID ` set (db_Instances db)"
  by (auto simp: findInstance_def find_None_iff)

lemma db_inv_createInternal [inv_intros]:
  "db_inv db \<Longrightarrow> createWorkflowInstanceInternal now eo db = Inr (iid, db') \<Longrightarrow> db_inv db'"
  by (auto simp: createWorkflowInstanceInternal_def insertOrIgnoreInstance_def Let_def db_inv_def
      findInstance_None split: option.splits if_splits)

lemma db_inv_cleanup [inv_intros]:
  "db_inv db \<Longrightarrow> cleanupWorkflowStateInternal db iid b = Inr db' \<Longrightarrow> db_inv db'"
  by (auto simp: cleanupWorkflowStateInternal_def deleteWhere_def Let_def db_inv_def distinct_map_filter
      sorted_wrt_filter_map split: if_splits)

lemma db_inv_admitStart [inv_intros]: "db_inv db \<Longrightarrow> admitStart now e db = Inr db' \<Longrightarrow> db_inv db'"
  unfolding admitStart_def
  by (auto split: option.splits sum.splits if_splits intro: db_inv_createInternal db_inv_cleanup)

lemma db_inv_messageInserts [inv_intros]:
  "db_inv db \<Longrightarrow> messageInserts L now msgs db = Inr (vs, db') \<Longrightarrow> db_inv db'"
proof (induction L now msgs db arbitrary: vs rule: messageInserts.induct)
  case (2 L now msg msgs db)
  then show ?case
    by (auto simp: and_then_Inr_iff split: if_splits dest: db_inv_admitStart)
qed simp

lemma addNewEvents_append: "addNewEvents (vs @ ws) db = addNewEvents ws (addNewEvents vs db)"
proof -
  have "insertNewEvents (vs @ ws) rows = insertNewEvents ws (insertNewEvents vs rows)" for rows
    by (induction vs rows rule: insertNewEvents.induct) simp_all
  then show ?thesis by (simp add: addNewEvents_def)
qed

lemma addNewEvents_Nil [simp]: "addNewEvents [] db = db"
  by (simp add: addNewEvents_def)

text \<open>Admitting child results only appends rows, each bound to an execution of its target.\<close>

lemma admitChildResults_adds:
  "admitChildResults L state msgs db = Inr db' \<Longrightarrow>
     \<exists>vs. db' = addNewEvents vs db \<and> (\<forall>v\<in>set vs. fst (snd v) \<noteq> None)"
proof (induction msgs arbitrary: db)
  case Nil
  then show ?case by (auto intro: exI [of _ "[]"])
next
  case (Cons msg msgs)
  show ?case
  proof (cases "IsChildResult (rm_HistoryEvent msg)")
    case False
    with Cons show ?thesis by simp
  next
    case True
    with Cons.prems obtain generation payload where
      g: "ChildResultExecutionID state (rm_TargetInstanceId msg) = Inr generation"
      and p: "MarshalHistoryEvent L (rm_HistoryEvent msg) = Inr payload"
      by (auto simp: and_then_Inr_iff)
    show ?thesis
    proof (cases "findInstance db (rm_TargetInstanceId msg)")
      case None
      with Cons True g p show ?thesis by simp
    next
      case (Some row)
      define v where "v = (if ir_ExecutionID row = generation
        then [(rm_TargetInstanceId msg, Some (ir_ExecutionID row), payload, None :: int option)] else [])"
      from Cons.prems True g p Some have "admitChildResults L state msgs (addNewEvents v db) = Inr db'"
        by (auto simp: and_then_Inr_iff v_def)
      from Cons.IH [OF this] obtain vs where "db' = addNewEvents (v @ vs) db" "\<forall>x\<in>set vs. fst (snd x) \<noteq> None"
        by (auto simp: addNewEvents_append)
      then show ?thesis by (intro exI [of _ "v @ vs"]) (auto simp: v_def)
    qed
  qed
qed

lemma db_inv_admitChildResults [inv_intros]:
  "db_inv db \<Longrightarrow> admitChildResults L state msgs db = Inr db' \<Longrightarrow> db_inv db'"
  using admitChildResults_adds db_inv_addNewEvents by blast

lemma db_inv_saveHistory [inv_intros]: "db_inv db \<Longrightarrow> saveHistory L wi state db = Inr db' \<Longrightarrow> db_inv db'"
  by (auto simp: saveHistory_def and_then_Inr_iff discardPreviousExecutionWork_def deleteWhere_def db_inv_def Let_def
      distinct_map_filter sorted_wrt_filter_map intro: insertHistory_distinct split: if_splits)

text \<open>The steps of \<open>saveOutbox\<close>, for the proofs below.\<close>

lemma saveOutbox_Inr:
  assumes "saveOutbox L now wi state db = Inr db'"
  obtains tasks crs timers messages db2 db3 where
    "map_result (MarshalHistoryEvent L) (rs_PendingTasks state) = Inr tasks"
    "db2 = addNewEvents crs (db\<lparr>db_NewTasks := insertNewTasks (map (Pair (wwi_InstanceID wi)) tasks) (db_NewTasks db)\<rparr>)"
    "timerInserts L (wwi_InstanceID wi) (rs_PendingTimers state) = Inr timers"
    "messageInserts L now (rs_PendingMessages state) db2 = Inr (messages, db3)"
    "db' = addNewEvents (timers @ messages) db3"
  using assms by (auto simp: saveOutbox_def and_then_Inr_iff Let_def dest!: admitChildResults_adds)

lemma db_inv_saveOutbox [inv_intros]:
  assumes "db_inv db" and "saveOutbox L now wi state db = Inr db'" shows "db_inv db'"
proof -
  have tasks: "db_inv (db\<lparr>db_NewTasks := insertNewTasks vs (db_NewTasks db)\<rparr>)" for vs
    using assms(1) by (simp add: db_inv_def insertNewTasks_sorted)
  from assms(2) show ?thesis
    by (rule saveOutbox_Inr) (use tasks db_inv_addNewEvents db_inv_messageInserts in metis)
qed

section \<open>Reachable states\<close>

text \<open>
  The data operations of the backend, one step each; the tables start out empty. A step that hands
  out a lease carries its token. Work items are completed with the state that was loaded for them:
  its old events are the committed history, or none after a restart by continue-as-new.
\<close>

definition state_current :: "WorkflowWorkItem \<Rightarrow> sqliteBackend \<Rightarrow> bool" where
  "state_current wi be \<longleftrightarrow>
     (case (sb_db be, wwi_State wi) of
        (Some db, Some state) \<Rightarrow>
          length (rs_OldEvents state) =
            (if rs_ContinuedAsNew state then 0 else length (historyPayloads db (wwi_InstanceID wi)))
      | _ \<Rightarrow> True)"

inductive sql_step :: "lib \<Rightarrow> string option \<Rightarrow> sqliteBackend \<Rightarrow> sqliteBackend \<Rightarrow> bool" for L :: lib where
  create: "CreateWorkflowInstance L now eo be = (r, be') \<Longrightarrow> sql_step L None be be'"
| add: "AddNewWorkflowEvent L iid eo be = (r, be') \<Longrightarrow> sql_step L None be be'"
| deliver: "AddNewWorkflowEventWithExternalDelivery L iid name d eo be = (r, be') \<Longrightarrow> sql_step L None be be'"
| fetch: "getWorkflowWorkItem L now token be = (w, be') \<Longrightarrow> sql_step L (Some token) be be'"
| complete: "CompleteWorkflowWorkItem L now wi be = (r, be') \<Longrightarrow> state_current wi be \<Longrightarrow> sql_step L None be be'"
| abandon: "AbandonWorkflowWorkItem now wi be = (r, be') \<Longrightarrow> sql_step L None be be'"
| fetch_activity: "getActivityWorkItem L now token be = (a, be') \<Longrightarrow> sql_step L (Some token) be be'"
| complete_activity: "CompleteActivityWorkItem L awi be = (r, be') \<Longrightarrow> sql_step L None be be'"
| abandon_activity: "AbandonActivityWorkItem awi be = (r, be') \<Longrightarrow> sql_step L None be be'"
| purge: "PurgeWorkflowState iid router recursive force be = (p, be') \<Longrightarrow> sql_step L None be be'"

inductive_cases sql_step_elims: "sql_step L lbl be be'"

inductive sql_reachable :: "lib \<Rightarrow> sqliteBackend \<Rightarrow> bool" for L :: lib where
  init: "sb_db be = Some emptyDB \<Longrightarrow> sql_reachable L be"
| step: "sql_reachable L be \<Longrightarrow> sql_step L lbl be be' \<Longrightarrow> sql_reachable L be'"

text \<open>Runs in which no lease is handed out under the given token.\<close>

inductive sql_run :: "lib \<Rightarrow> string \<Rightarrow> sqliteBackend \<Rightarrow> sqliteBackend \<Rightarrow> bool" for L :: lib and token :: string where
  idle: "sql_run L token be be"
| step: "sql_run L token be be1 \<Longrightarrow> sql_step L lbl be1 be' \<Longrightarrow> lbl \<noteq> Some token \<Longrightarrow> sql_run L token be be'"

definition be_inv :: "sqliteBackend \<Rightarrow> bool" where
  "be_inv be \<longleftrightarrow> (\<exists>db. sb_db be = Some db \<and> db_inv db)"

lemma be_inv_transaction:
  assumes "be_inv be" and "ensureDB be (transaction f) = (r, be')"
    and "\<And>db x db'. db_inv db \<Longrightarrow> f db = Inr (x, db') \<Longrightarrow> db_inv db'"
  shows "be_inv be'"
  using assms by (auto simp: be_inv_def ensureDB_transaction split: sum.splits prod.splits)

lemma db_inv_updates:
  assumes "db_inv db"
  shows "(\<And>r. ir_InstanceID (f r) = ir_InstanceID r) \<Longrightarrow>
           db_inv (db\<lparr>db_Instances := fst (updateWhere p f (db_Instances db))\<rparr>)"
    and "(\<And>r. ne_SequenceNumber (g r) = ne_SequenceNumber r) \<Longrightarrow>
           db_inv (db\<lparr>db_NewEvents := fst (updateWhere q g (db_NewEvents db))\<rparr>)"
    and "(\<And>r. nt_SequenceNumber (h r) = nt_SequenceNumber r) \<Longrightarrow>
           db_inv (db\<lparr>db_NewTasks := fst (updateWhere u h (db_NewTasks db))\<rparr>)"
    and "db_inv (db\<lparr>db_NewEvents := fst (deleteWhere q (db_NewEvents db))\<rparr>)"
    and "db_inv (db\<lparr>db_NewTasks := fst (deleteWhere u (db_NewTasks db))\<rparr>)"
  using assms
  by (simp_all add: db_inv_def updateWhere_def deleteWhere_def map_key_update sorted_wrt_filter_map del: map_map)

lemma db_inv_filters:
  assumes "db_inv db"
  shows "db_inv (db\<lparr>db_NewEvents := filter P (db_NewEvents db)\<rparr>)"
    and "db_inv (db\<lparr>db_NewTasks := filter Q (db_NewTasks db)\<rparr>)"
  using assms by (simp_all add: db_inv_def sorted_wrt_filter_map)

text \<open>A successful completion, step by step.\<close>

lemma completeWorkItemTx_Inr:
  assumes "completeWorkItemTx L now wi state db = Inr (x, db')"
  obtains f db1 db2 where
    "instanceUpdate L now False False (rs_NewEvents state) = Inr f"
    "filter (leased_by wi) (db_Instances db) \<noteq> []"
    "saveHistory L wi state
       (db\<lparr>db_Instances := map (\<lambda>r. if leased_by wi r then finishUpdate now state (f r) else r) (db_Instances db)\<rparr>)
       = Inr db1"
    "saveOutbox L now wi state db1 = Inr db2"
    "filter (held wi) (db_NewEvents db2) \<noteq> []"
    "db' = db2\<lparr>db_NewEvents := filter (\<lambda>r. \<not> held wi r) (db_NewEvents db2)\<rparr>"
proof -
  from assms obtain f where f: "instanceUpdate L now False False (rs_NewEvents state) = Inr f"
    by (auto simp: completeWorkItemTx_def and_then_Inr_iff)
  let ?db0 = "db\<lparr>db_Instances := map (\<lambda>r. if leased_by wi r then finishUpdate now state (f r) else r) (db_Instances db)\<rparr>"
  from assms f have "filter (leased_by wi) (db_Instances db) \<noteq> []"
    and *: "and_then (saveHistory L wi state ?db0) (\<lambda>db1. and_then (saveOutbox L now wi state db1) (\<lambda>db2.
              if length (filter (held wi) (db_NewEvents db2)) = 0 then Inl ErrWorkItemLockLost
              else Inr ((), db2\<lparr>db_NewEvents := filter (\<lambda>r. \<not> held wi r) (db_NewEvents db2)\<rparr>))) = Inr (x, db')"
    by (auto simp: completeWorkItemTx_def updateWhere_def deleteWhere_def split: if_splits)
  then show ?thesis using f that by (auto simp: and_then_Inr_iff split: if_splits)
qed

lemma instanceUpdate_key:
  "instanceUpdate L now a b es = Inr f \<Longrightarrow> ir_InstanceID (f r) = ir_InstanceID r"
proof (induction L now a b es arbitrary: f r rule: instanceUpdate.induct)
  case (2 L now a b e es)
  then show ?case
    by (fastforce simp: and_then_Inr_iff split: option.splits if_splits)
qed auto

lemma finishUpdate_key: "ir_InstanceID (finishUpdate now s r) = ir_InstanceID r"
  by (simp add: finishUpdate_def split: option.split)

lemma db_inv_completeWorkItemTx:
  assumes "db_inv db" and "completeWorkItemTx L now wi state db = Inr (x, db')" shows "db_inv db'"
  using assms(2)
proof (rule completeWorkItemTx_Inr)
  fix f db1 db2
  let ?db0 = "db\<lparr>db_Instances := map (\<lambda>r. if leased_by wi r then finishUpdate now state (f r) else r) (db_Instances db)\<rparr>"
  assume f: "instanceUpdate L now False False (rs_NewEvents state) = Inr f"
    and h: "saveHistory L wi state ?db0 = Inr db1" and out: "saveOutbox L now wi state db1 = Inr db2"
    and db': "db' = db2\<lparr>db_NewEvents := filter (\<lambda>r. \<not> held wi r) (db_NewEvents db2)\<rparr>"
  have "db_inv ?db0"
    using assms(1) db_inv_updates(1) [of db "\<lambda>r. finishUpdate now state (f r)" "leased_by wi"]
    by (simp add: updateWhere_def finishUpdate_key instanceUpdate_key [OF f])
  then have "db_inv db2" using db_inv_saveHistory [OF _ h] db_inv_saveOutbox [OF _ out] by blast
  then show ?thesis using db' db_inv_filters by simp
qed

text \<open>A successful fetch, step by step; the lease is dropped again when every event was stale.\<close>

definition lockRow :: "string \<Rightarrow> int \<Rightarrow> InstanceRow \<Rightarrow> InstanceRow" where
  "lockRow token exp r = r\<lparr>ir_LockedBy := Some token, ir_LockExpiration := Some exp\<rparr>"

definition unlockRow :: "InstanceRow \<Rightarrow> InstanceRow" where
  "unlockRow r = r\<lparr>ir_LockedBy := None, ir_LockExpiration := None\<rparr>"

lemma fetchWorkItemTx_Inr:
  assumes "fetchWorkItemTx L now exp token row db = Inr (x, db')"
  obtains rows taken events stale hasChild where
    "dequeueEvents now (ir_InstanceID row) token 1000 (db_NewEvents db) = (rows, taken)"
    "readEvents L (ir_ExecutionID row) taken = Inr (events, stale, hasChild)"
    "db' = db\<lparr>db_Instances := map (\<lambda>r. if ir_InstanceID r = ir_InstanceID row
                then (if events = [] then unlockRow else lockRow token exp) r else r) (db_Instances db),
              db_NewEvents := filter (\<lambda>r. \<not> (ne_InstanceID r = ir_InstanceID row
                \<and> ne_SequenceNumber r \<in> set stale \<and> ne_LockedBy r = Some token)) rows\<rparr>"
    "x = (if events = [] then None
          else Some \<lparr>wwi_InstanceID = ir_InstanceID row, wwi_NewEvents = map snd (sort_key fst events),
                     wwi_LockedBy = token,
                     wwi_RetryCount = word_of_int (foldr max (map ne_DequeueCount taken) 0 - 1),
                     wwi_State = None, wwi_IncomingHistory = None, wwi_OutgoingHistory = Map.empty\<rparr>)"
proof -
  obtain rows taken where dq: "dequeueEvents now (ir_InstanceID row) token 1000 (db_NewEvents db) = (rows, taken)"
    by fastforce
  from assms dq obtain events stale hasChild where
    rd: "readEvents L (ir_ExecutionID row) taken = Inr (events, stale, hasChild)"
    by (auto simp: fetchWorkItemTx_def and_then_Inr_iff Let_def)
  show ?thesis
    by (rule that [OF dq rd]; use assms dq rd in
        \<open>auto simp: fetchWorkItemTx_def and_then_Inr_iff Let_def updateWhere_def deleteWhere_def lockRow_def
           unlockRow_def split: if_splits\<close>)
qed

lemma db_inv_fetchWorkItemTx:
  assumes "db_inv db" and "fetchWorkItemTx L now exp token row db = Inr (x, db')" shows "db_inv db'"
  using assms(2)
proof (rule fetchWorkItemTx_Inr)
  fix rows taken events stale
  assume dq: "dequeueEvents now (ir_InstanceID row) token 1000 (db_NewEvents db) = (rows, taken)"
    and db': "db' = db\<lparr>db_Instances := map (\<lambda>r. if ir_InstanceID r = ir_InstanceID row
                then (if events = [] then unlockRow else lockRow token exp) r else r) (db_Instances db),
              db_NewEvents := filter (\<lambda>r. \<not> (ne_InstanceID r = ir_InstanceID row
                \<and> ne_SequenceNumber r \<in> set stale \<and> ne_LockedBy r = Some token)) rows\<rparr>"
  show ?thesis
    using assms(1) dequeueEvents_keys [OF dq] unfolding db' db_inv_def
    by (simp add: map_key_update sorted_wrt_filter_map lockRow_def unlockRow_def del: map_map)
qed

lemma be_inv_step:
  assumes "sql_step L lbl be be'" and "be_inv be" shows "be_inv be'"
  using assms
proof (cases rule: sql_step.cases)
  case (create now eo r)
  from create(2) show ?thesis unfolding CreateWorkflowInstance_def
    by (rule be_inv_transaction [OF assms(2)])
      (auto simp: and_then_Inr_iff split: sum.splits if_splits option.splits intro!: db_inv_addNewEvents
        dest: db_inv_createInternal)
next
  case (add iid eo r)
  then show ?thesis using assms(2)
    by (auto simp: AddNewWorkflowEvent_def be_inv_def intro: db_inv_addNewEvents
        split: option.splits sum.splits)
next
  case (deliver iid name d eo r)
  have del: "db_inv db \<Longrightarrow> db_inv (snd (recordDelivery x db))" for x db
    by (auto simp: recordDelivery_def db_inv_def)
  from deliver assms(2) del show ?thesis
    by (auto simp: AddNewWorkflowEventWithExternalDelivery_def be_inv_def Let_def
        intro!: db_inv_addNewEvents split: option.splits sum.splits prod.splits if_splits)
      (metis snd_conv)+
next
  case (fetch now token w)
  from fetch(2) show ?thesis unfolding getWorkflowWorkItem_def
    by (rule be_inv_transaction [OF assms(2)])
      (auto split: option.splits dest: db_inv_fetchWorkItemTx)
next
  case (complete now wi r)
  from complete(2) show ?thesis unfolding CompleteWorkflowWorkItem_def
    by (rule be_inv_transaction [OF assms(2)])
      (auto split: option.splits dest: db_inv_completeWorkItemTx)
next
  case (abandon now wi r)
  from abandon(2) show ?thesis unfolding AbandonWorkflowWorkItem_def
    by (rule be_inv_transaction [OF assms(2)])
      (auto simp: Let_def updateWhere_def db_inv_def map_key_update simp del: map_map split: if_splits)
next
  case (fetch_activity now token a)
  with assms(2) show ?thesis
    by (auto simp: getActivityWorkItem_def ensureDB_def be_inv_def Let_def
        intro!: db_inv_updates(3) split: option.splits)
next
  case (complete_activity awi r)
  from complete_activity(2) show ?thesis unfolding CompleteActivityWorkItem_def
    by (rule be_inv_transaction [OF assms(2)])
      (auto simp: and_then_Inr_iff Let_def deleteWhere_def
        intro!: db_inv_filters(2) db_inv_addNewEvents split: if_splits)
next
  case (abandon_activity awi r)
  with assms(2) show ?thesis
    by (auto simp: AbandonActivityWorkItem_def ensureDB_def be_inv_def Let_def updateWhere_def
        intro!: db_inv_updates(3) [unfolded updateWhere_def fst_conv] split: option.splits if_splits)
next
  case (purge iid router recursive force p)
  have "be_inv be1" if "purgeWorkflowStateLocal iid force be = (x, be1)" for x be1
    using that unfolding purgeWorkflowStateLocal_def
    by (rule be_inv_transaction [OF assms(2)]) (auto simp: and_then_Inr_iff intro: db_inv_cleanup)
  with purge assms(2) show ?thesis
    by (auto simp: PurgeWorkflowState_def split: if_splits prod.splits sum.splits)
qed

section \<open>What a transaction leaves alone\<close>

text \<open>The instance that a message starts, and the rows of one instance.\<close>

definition startTarget :: "HistoryEvent \<Rightarrow> InstanceID option" where
  "startTarget e = map_option wi_InstanceId (Option.bind (GetExecutionStarted e) es_WorkflowInstance)"

definition starts :: "WorkflowRuntimeState \<Rightarrow> InstanceID \<Rightarrow> bool" where
  "starts state iid \<longleftrightarrow> list_ex (\<lambda>m. startTarget (rm_HistoryEvent m) = Some iid) (rs_PendingMessages state)"

definition historyRows :: "DB \<Rightarrow> InstanceID \<Rightarrow> HistoryRow list" where
  "historyRows db iid = filter (\<lambda>r. hr_InstanceID r = iid) (db_History db)"

definition queued :: "DB \<Rightarrow> InstanceID \<Rightarrow> NewEventRow list" where
  "queued db iid = filter (\<lambda>r. ne_InstanceID r = iid) (db_NewEvents db)"

text \<open>One database is another with whole instances removed from history and queue.\<close>

definition sheds :: "DB \<Rightarrow> DB \<Rightarrow> InstanceID set \<Rightarrow> bool" where
  "sheds db db' X \<longleftrightarrow>
     (\<forall>iid. iid \<notin> X \<longrightarrow> historyRows db' iid = historyRows db iid \<and> queued db' iid = queued db iid) \<and>
     (\<forall>iid. historyRows db' iid = historyRows db iid \<or> historyRows db' iid = []) \<and>
     (\<forall>iid. queued db' iid = queued db iid \<or> queued db' iid = [])"

lemma sheds_refl: "sheds db db X"
  by (simp add: sheds_def)

lemma sheds_trans: "sheds db db1 X \<Longrightarrow> sheds db1 db2 Y \<Longrightarrow> sheds db db2 (X \<union> Y)"
  unfolding sheds_def by (metis UnCI)

lemma createInternal_sheds:
  "createWorkflowInstanceInternal now eo db = Inr (iid, db') \<Longrightarrow> sheds db db' X"
  by (auto simp: createWorkflowInstanceInternal_def insertOrIgnoreInstance_def Let_def sheds_def
      historyRows_def queued_def split: option.splits if_splits)

lemma filter_key_except:
  "filter (\<lambda>r. k r = i) (filter (\<lambda>r. k r \<noteq> j) rows) = (if i = j then [] else filter (\<lambda>r. k r = i) rows)"
  by (induction rows) auto

lemma cleanup_tables:
  assumes "cleanupWorkflowStateInternal db iid b = Inr db'"
  shows "db_History db' = filter (\<lambda>r. hr_InstanceID r \<noteq> iid) (db_History db)"
    and "db_NewEvents db' = filter (\<lambda>r. ne_InstanceID r \<noteq> iid) (db_NewEvents db)"
    and "db_NewTasks db' = filter (\<lambda>r. nt_InstanceID r \<noteq> iid) (db_NewTasks db)"
    and "db_Deliveries db' = filter (\<lambda>d. fst d \<noteq> iid) (db_Deliveries db)"
  using assms by (auto simp: cleanupWorkflowStateInternal_def deleteWhere_def Let_def split: if_splits)

lemma cleanup_sheds:
  "cleanupWorkflowStateInternal db iid b = Inr db' \<Longrightarrow> sheds db db' {iid}"
  unfolding sheds_def historyRows_def queued_def
  by (simp only: cleanup_tables filter_key_except) auto

lemma admitStart_sheds:
  assumes "admitStart now e db = Inr db'" shows "sheds db db' (set_option (startTarget e))"
proof (cases "GetExecutionStarted e")
  case None
  with assms show ?thesis by (simp add: admitStart_def sheds_refl)
next
  case (Some es)
  show ?thesis
  proof (cases "createWorkflowInstanceInternal now (Some e) db")
    case (Inr r)
    with assms Some show ?thesis
      by (cases r) (auto simp: admitStart_def dest: createInternal_sheds)
  next
    case (Inl err)
    show ?thesis
    proof (cases "es_WorkflowInstance es")
      case None
      with assms Some Inl show ?thesis by (simp add: admitStart_def split: if_splits)
    next
      case (Some w)
      with \<open>GetExecutionStarted e = Some es\<close> have t: "set_option (startTarget e) = {wi_InstanceId w}"
        by (simp add: startTarget_def)
      show ?thesis
      proof (cases "cleanupWorkflowStateInternal db (wi_InstanceId w) True")
        case (Inl _)
        with assms Some \<open>GetExecutionStarted e = Some es\<close> \<open>createWorkflowInstanceInternal _ _ _ = Inl _\<close>
        show ?thesis by (auto simp: admitStart_def sheds_refl split: if_splits)
      next
        case (Inr db1)
        with assms Some \<open>GetExecutionStarted e = Some es\<close> \<open>createWorkflowInstanceInternal _ _ _ = Inl _\<close>
        have "db' = db1 \<or> (\<exists>i. createWorkflowInstanceInternal now (Some e) db1 = Inr (i, db'))"
          by (auto simp: admitStart_def split: if_splits sum.splits prod.splits)
        with cleanup_sheds [OF Inr] t show ?thesis
          using createInternal_sheds [where X = "{}"] sheds_trans by fastforce
      qed
    qed
  qed
qed

lemma messageInserts_sheds:
  "messageInserts L now msgs db = Inr (vs, db') \<Longrightarrow>
     sheds db db' {iid. \<exists>m\<in>set msgs. startTarget (rm_HistoryEvent m) = Some iid}"
proof (induction L now msgs db arbitrary: vs rule: messageInserts.induct)
  case (1 L now db)
  then show ?case by (simp add: sheds_refl)
next
  case (2 L now msg msgs db)
  have mono: "sheds a b X \<Longrightarrow> X \<subseteq> Y \<Longrightarrow> sheds a b Y" for a b X Y by (auto simp: sheds_def)
  show ?case
  proof (cases "IsChildResult (rm_HistoryEvent msg)")
    case True
    with 2 show ?thesis by (auto elim!: mono)
  next
    case False
    with "2.prems" obtain db1 p vs' where
      a: "admitStart now (rm_HistoryEvent msg) db = Inr db1" and p: "MarshalHistoryEvent L (rm_HistoryEvent msg) = Inr p"
      and m: "messageInserts L now msgs db1 = Inr (vs', db')"
      by (auto simp: and_then_Inr_iff)
    from sheds_trans [OF admitStart_sheds [OF a] "2.IH"(2) [OF False m]] show ?thesis
      by (rule mono) auto
  qed
qed

section \<open>History and queue after the steps of a completion\<close>

lemma insertNewEvents_append:
  "\<exists>new. insertNewEvents vs rows = rows @ new
     \<and> map (\<lambda>r. (ne_InstanceID r, ne_ExecutionID r, ne_EventPayload r, ne_VisibleTime r)) new = vs
     \<and> (\<forall>r\<in>set new. ne_LockedBy r = None \<and> ne_DequeueCount r = 0)"
proof (induction vs rows rule: insertNewEvents.induct)
  case (2 iid exec payload visible vs rows)
  then obtain new where "insertNewEvents ((iid, exec, payload, visible) # vs) rows =
      (rows @ [\<lparr>ne_SequenceNumber = nextKey (map ne_SequenceNumber rows), ne_InstanceID = iid,
                 ne_ExecutionID = exec, ne_VisibleTime = visible, ne_DequeueCount = 0,
                 ne_LockedBy = None, ne_EventPayload = payload\<rparr>]) @ new"
    "map (\<lambda>r. (ne_InstanceID r, ne_ExecutionID r, ne_EventPayload r, ne_VisibleTime r)) new = vs"
    "\<forall>r\<in>set new. ne_LockedBy r = None \<and> ne_DequeueCount r = 0"
    by auto
  then show ?case by auto
qed simp

lemma addNewEvents_rows [simp]:
  "db_History (addNewEvents vs db) = db_History db" "db_Instances (addNewEvents vs db) = db_Instances db"
  "db_NewTasks (addNewEvents vs db) = db_NewTasks db" "db_Deliveries (addNewEvents vs db) = db_Deliveries db"
  "historyRows (addNewEvents vs db) iid = historyRows db iid"
  by (simp_all add: addNewEvents_def historyRows_def)

lemma addNewEvents_events:
  "set (db_NewEvents db) \<subseteq> set (db_NewEvents (addNewEvents vs db))"
  "r \<in> set (db_NewEvents (addNewEvents vs db)) \<Longrightarrow> ne_LockedBy r = None \<or> r \<in> set (db_NewEvents db)"
  using insertNewEvents_append [of vs "db_NewEvents db"] by (auto simp: addNewEvents_def)

lemma queued_in: "r \<in> set (queued db iid) \<longleftrightarrow> r \<in> set (db_NewEvents db) \<and> ne_InstanceID r = iid"
  by (auto simp: queued_def)

lemma sheds_events:
  assumes "sheds db db' X"
  shows "r \<in> set (db_NewEvents db') \<Longrightarrow> r \<in> set (db_NewEvents db)"
    and "r \<in> set (db_NewEvents db) \<Longrightarrow> ne_InstanceID r \<notin> X \<Longrightarrow> r \<in> set (db_NewEvents db')"
  using assms queued_in unfolding sheds_def by (metis empty_iff empty_set)+

lemma saveOutbox_sheds:
  assumes "saveOutbox L now wi state db = Inr db'"
  shows "r \<in> set (db_NewEvents db') \<Longrightarrow> ne_LockedBy r = None \<or> r \<in> set (db_NewEvents db)"
    and "r \<in> set (db_NewEvents db) \<Longrightarrow> \<not> starts state (ne_InstanceID r) \<Longrightarrow> r \<in> set (db_NewEvents db')"
    and "historyRows db' iid = historyRows db iid \<or> historyRows db' iid = []"
    and "\<not> starts state iid \<Longrightarrow> historyRows db' iid = historyRows db iid"
proof -
  from assms obtain tasks crs timers messages db2 db3 where
    db2: "db2 = addNewEvents crs (db\<lparr>db_NewTasks := insertNewTasks (map (Pair (wwi_InstanceID wi)) tasks) (db_NewTasks db)\<rparr>)"
    and m: "messageInserts L now (rs_PendingMessages state) db2 = Inr (messages, db3)"
    and db': "db' = addNewEvents (timers @ messages) db3"
    by (rule saveOutbox_Inr)
  note sh = messageInserts_sheds [OF m]
  have st: "{iid. \<exists>m\<in>set (rs_PendingMessages state). startTarget (rm_HistoryEvent m) = Some iid} = {iid. starts state iid}"
    by (auto simp: starts_def list_ex_iff)
  have db2': "db_NewEvents db2 = db_NewEvents (addNewEvents crs db)" "historyRows db2 i = historyRows db i" for i
    by (simp_all add: db2 addNewEvents_def historyRows_def)
  show "r \<in> set (db_NewEvents db') \<Longrightarrow> ne_LockedBy r = None \<or> r \<in> set (db_NewEvents db)"
    using addNewEvents_events(2) sheds_events(1) [OF sh] db2' db' by metis
  show "r \<in> set (db_NewEvents db) \<Longrightarrow> \<not> starts state (ne_InstanceID r) \<Longrightarrow> r \<in> set (db_NewEvents db')"
    using addNewEvents_events(1) sheds_events(2) [OF sh] db2' db' unfolding st
    by (metis mem_Collect_eq subsetD)
  show "historyRows db' iid = historyRows db iid \<or> historyRows db' iid = []"
    using sh db2' db' by (auto simp: sheds_def)
  show "\<not> starts state iid \<Longrightarrow> historyRows db' iid = historyRows db iid"
    using sh db2' db' unfolding st by (auto simp: sheds_def)
qed

lemma saveHistory_rows:
  assumes "saveHistory L wi state db = Inr db'"
  obtains payloads new where
    "map_result (MarshalHistoryEvent L) (rs_NewEvents state) = Inr payloads"
    "map hr_SequenceNumber new = map (\<lambda>i. int (length (rs_OldEvents state)) + int i) [0..<length payloads]"
    "map hr_EventPayload new = payloads"
    "\<And>iid. historyRows db' iid =
        (if iid = wwi_InstanceID wi then (if rs_ContinuedAsNew state then [] else historyRows db iid) @ new
         else historyRows db iid)"
proof -
  let ?old = "if rs_ContinuedAsNew state
       then filter (\<lambda>r. hr_InstanceID r \<noteq> wwi_InstanceID wi) (db_History db) else db_History db"
  from assms obtain payloads where
    p: "map_result (MarshalHistoryEvent L) (rs_NewEvents state) = Inr payloads"
    and i: "insertHistory (wwi_InstanceID wi) (int (length (rs_OldEvents state))) payloads ?old = Inr (db_History db')"
    by (auto simp: saveHistory_def and_then_Inr_iff discardPreviousExecutionWork_def deleteWhere_def Let_def
        split: if_splits)
  from insertHistory_Inr [OF i] obtain new where new: "db_History db' = ?old @ new"
    "map hr_SequenceNumber new = map (\<lambda>i. int (length (rs_OldEvents state)) + int i) [0..<length payloads]"
    "map hr_EventPayload new = payloads" "\<forall>r\<in>set new. hr_InstanceID r = wwi_InstanceID wi"
    by auto
  have *: "filter (\<lambda>r. hr_InstanceID r = iid) new = (if iid = wwi_InstanceID wi then new else [])" for iid
    using new(4) by (auto simp: filter_id_conv filter_empty_conv)
  show ?thesis
  proof (rule that [OF p new(2,3)])
    show "historyRows db' iid =
        (if iid = wwi_InstanceID wi then (if rs_ContinuedAsNew state then [] else historyRows db iid) @ new
         else historyRows db iid)" for iid
      by (simp only: historyRows_def new(1) filter_append * if_distrib [where f = "filter _"] filter_key_except) simp
  qed
qed

lemma saveHistory_events:
  assumes "saveHistory L wi state db = Inr db'"
  shows "r \<in> set (db_NewEvents db') \<Longrightarrow> r \<in> set (db_NewEvents db)"
    and "\<not> rs_ContinuedAsNew state \<Longrightarrow> db_NewEvents db' = db_NewEvents db"
  using assms
  by (auto simp: saveHistory_def and_then_Inr_iff discardPreviousExecutionWork_def deleteWhere_def Let_def
      split: if_splits)

section \<open>The history of an instance\<close>

text \<open>The history rows of every instance are numbered from zero, in the order of the table.\<close>

definition contiguous :: "DB \<Rightarrow> bool" where
  "contiguous db \<longleftrightarrow>
     (\<forall>iid. map hr_SequenceNumber (historyRows db iid) = map int [0..<length (historyRows db iid)])"

lemma contiguous_sheds:
  "contiguous db \<Longrightarrow> (\<And>iid. historyRows db' iid = historyRows db iid \<or> historyRows db' iid = []) \<Longrightarrow> contiguous db'"
  unfolding contiguous_def by (metis length_0_conv list.map(1) upt_0)

lemma contiguous_payloads:
  "contiguous db \<Longrightarrow> historyPayloads db iid = map hr_EventPayload (historyRows db iid)"
  by (simp add: historyPayloads_def historyRows_def [symmetric] contiguous_def sort_key_id_if_sorted sorted_wrt_map
      flip: sorted_wrt_upt)

lemma contiguous_saveHistory:
  assumes c: "contiguous db" and h: "saveHistory L wi state db = Inr db'"
    and old: "length (rs_OldEvents state) =
      (if rs_ContinuedAsNew state then 0 else length (historyRows db (wwi_InstanceID wi)))"
  shows "contiguous db'"
  using h
proof (rule saveHistory_rows)
  fix payloads new
  assume seq: "map hr_SequenceNumber new = map (\<lambda>i. int (length (rs_OldEvents state)) + int i) [0..<length payloads]"
    and pay: "map hr_EventPayload new = payloads"
    and rows: "\<And>iid. historyRows db' iid =
        (if iid = wwi_InstanceID wi then (if rs_ContinuedAsNew state then [] else historyRows db iid) @ new
         else historyRows db iid)"
  have len: "length new = length payloads" using pay by auto
  have shift: "map (\<lambda>i. int n + int i) [0..<m] = map int [n..<n + m]" for n m
    by (induction m) auto
  show ?thesis unfolding contiguous_def
  proof
    fix iid
    show "map hr_SequenceNumber (historyRows db' iid) = map int [0..<length (historyRows db' iid)]"
      using c seq old rows [of iid] len by (auto simp: contiguous_def shift upt_add_eq_append [of 0])
  qed
qed

text \<open>A successful completion extends the history of its own instance by the new events.\<close>

lemma complete_history:
  assumes c: "contiguous db" and tx: "completeWorkItemTx L now wi state db = Inr (x, db')"
    and old: "length (rs_OldEvents state) =
      (if rs_ContinuedAsNew state then 0 else length (historyRows db (wwi_InstanceID wi)))"
  shows "contiguous db'"
    and "\<not> starts state (wwi_InstanceID wi) \<Longrightarrow>
      \<exists>payloads. map_result (MarshalHistoryEvent L) (rs_NewEvents state) = Inr payloads \<and>
        historyPayloads db' (wwi_InstanceID wi) =
          (if rs_ContinuedAsNew state then [] else historyPayloads db (wwi_InstanceID wi)) @ payloads"
proof -
  from tx obtain f db1 db2 where
    h: "saveHistory L wi state (db\<lparr>db_Instances := map (\<lambda>r. if leased_by wi r then finishUpdate now state (f r) else r)
          (db_Instances db)\<rparr>) = Inr db1" (is "saveHistory L wi state ?db0 = _")
    and out: "saveOutbox L now wi state db1 = Inr db2"
    and db': "db' = db2\<lparr>db_NewEvents := filter (\<lambda>r. \<not> held wi r) (db_NewEvents db2)\<rparr>"
    by (rule completeWorkItemTx_Inr)
  have db0: "historyRows ?db0 iid = historyRows db iid" for iid by (simp add: historyRows_def)
  have c0: "contiguous ?db0" using c by (simp add: contiguous_def db0)
  then have c1: "contiguous db1" by (rule contiguous_saveHistory [OF _ h]) (simp only: old db0)
  have hist': "historyRows db' iid = historyRows db2 iid" for iid by (simp add: db' historyRows_def)
  then show c': "contiguous db'" using contiguous_sheds [OF c1] saveOutbox_sheds(3) [OF out] by metis
  assume "\<not> starts state (wwi_InstanceID wi)"
  then have eq: "historyRows db' (wwi_InstanceID wi) = historyRows db1 (wwi_InstanceID wi)"
    using hist' saveOutbox_sheds(4) [OF out] by metis
  from h show "\<exists>payloads. map_result (MarshalHistoryEvent L) (rs_NewEvents state) = Inr payloads \<and>
        historyPayloads db' (wwi_InstanceID wi) =
          (if rs_ContinuedAsNew state then [] else historyPayloads db (wwi_InstanceID wi)) @ payloads"
    by (rule saveHistory_rows) (auto simp: contiguous_payloads [OF c'] contiguous_payloads [OF c] eq db0)
qed

section \<open>Every step\<close>

lemma ensureDB_transaction_cases:
  assumes "ensureDB be (transaction f) = (r, be')"
  obtains "be' = be" | db x db' where "sb_db be = Some db" "f db = Inr (x, db')" "be' = be\<lparr>sb_db := Some db'\<rparr>"
  using assms by (auto simp: ensureDB_transaction split: option.splits sum.splits prod.splits)

lemma dequeueEvents_rows:
  "dequeueEvents now iid token limit es = (rows, taken) \<Longrightarrow> r \<in> set rows \<Longrightarrow> ne_LockedBy r = Some token \<or> r \<in> set es"
  by (induction es arbitrary: rows taken limit) (fastforce simp: Let_def split: if_splits prod.splits)+

text \<open>What a step does to the queue and the history: only a fetch takes leases on queue rows.\<close>

definition step_effect :: "string option \<Rightarrow> DB \<Rightarrow> DB \<Rightarrow> bool" where
  "step_effect lbl db db' \<longleftrightarrow>
     (\<forall>r\<in>set (db_NewEvents db'). ne_LockedBy r = None \<or> ne_LockedBy r = lbl \<or> r \<in> set (db_NewEvents db)) \<and>
     (contiguous db \<longrightarrow> contiguous db')"

lemma step_effect_refl: "step_effect lbl db db"
  by (simp add: step_effect_def)

lemma step_effect_same:
  assumes "\<And>r. r \<in> set (db_NewEvents db') \<Longrightarrow> ne_LockedBy r = None \<or> ne_LockedBy r = lbl \<or> r \<in> set (db_NewEvents db)"
    and "\<And>iid. historyRows db' iid = historyRows db iid \<or> historyRows db' iid = []"
  shows "step_effect lbl db db'"
  unfolding step_effect_def using assms contiguous_sheds by blast

lemma step_effect_add:
  assumes "db_History db1 = db_History db" and "set (db_NewEvents db1) \<subseteq> set (db_NewEvents db)"
  shows "step_effect lbl db (addNewEvents vs db1)"
  by (rule step_effect_same) (use assms addNewEvents_events in \<open>fastforce simp: historyRows_def\<close>)+

lemma step_effect_complete:
  assumes "completeWorkItemTx L now wi state db = Inr (x, db')" and "wwi_State wi = Some state"
    and "sb_db be = Some db" and "state_current wi be"
  shows "step_effect lbl db db'"
  unfolding step_effect_def
proof (intro conjI impI ballI)
  from assms(1) obtain db0 db1 db2 where
    "saveHistory L wi state db0 = Inr db1" "saveOutbox L now wi state db1 = Inr db2"
    "db_NewEvents db0 = db_NewEvents db" "set (db_NewEvents db') \<subseteq> set (db_NewEvents db2)"
    by (rule completeWorkItemTx_Inr) auto
  then show "ne_LockedBy r = None \<or> ne_LockedBy r = lbl \<or> r \<in> set (db_NewEvents db)"
    if "r \<in> set (db_NewEvents db')" for r
    using that saveOutbox_sheds(1) saveHistory_events(1) by (metis subsetD)
  assume c: "contiguous db"
  then show "contiguous db'"
    by (rule complete_history(1) [OF _ assms(1)])
      (use assms(2-4) contiguous_payloads [OF c] in \<open>auto simp: state_current_def\<close>)
qed

lemma step_effect_fetch:
  assumes "fetchWorkItemTx L now exp token row db = Inr (x, db')"
  shows "step_effect (Some token) db db'"
proof (rule step_effect_same)
  from assms obtain rows taken stale where
    dq: "dequeueEvents now (ir_InstanceID row) token 1000 (db_NewEvents db) = (rows, taken)"
    and ne: "db_NewEvents db' = filter (\<lambda>r. \<not> (ne_InstanceID r = ir_InstanceID row
                \<and> ne_SequenceNumber r \<in> set stale \<and> ne_LockedBy r = Some token)) rows"
    and h: "db_History db' = db_History db"
    by (rule fetchWorkItemTx_Inr) auto
  show "historyRows db' iid = historyRows db iid \<or> historyRows db' iid = []" for iid
    by (simp add: historyRows_def h)
  show "ne_LockedBy r = None \<or> ne_LockedBy r = Some token \<or> r \<in> set (db_NewEvents db)"
    if "r \<in> set (db_NewEvents db')" for r
    using that dequeueEvents_rows [OF dq] by (auto simp: ne)
qed

lemma step_effect_cleanup:
  "cleanupWorkflowStateInternal db iid b = Inr db' \<Longrightarrow> step_effect lbl db db'"
  by (rule step_effect_same) (use cleanup_sheds [of db iid b db'] sheds_events(1) in \<open>blast, auto simp: sheds_def\<close>)

lemma sql_step_effect:
  assumes "sql_step L lbl be be'" and db: "sb_db be = Some db"
  shows "\<exists>db'. sb_db be' = Some db' \<and> step_effect lbl db db'"
  using assms(1)
proof (cases rule: sql_step.cases)
  case (create now eo r)
  from create(2) show ?thesis unfolding CreateWorkflowInstance_def
    by (rule ensureDB_transaction_cases)
      (use db in \<open>auto simp: and_then_Inr_iff createWorkflowInstanceInternal_def insertOrIgnoreInstance_def Let_def
         split: sum.splits if_splits option.splits intro!: step_effect_add step_effect_refl\<close>)
next
  case (add iid eo r)
  with db show ?thesis
    by (auto simp: AddNewWorkflowEvent_def intro: step_effect_add step_effect_refl split: option.splits sum.splits)
next
  case (deliver iid name d eo r)
  with db show ?thesis
    by (auto simp: AddNewWorkflowEventWithExternalDelivery_def recordDelivery_def Let_def
        intro!: step_effect_add step_effect_refl split: option.splits sum.splits prod.splits if_splits)
next
  case (fetch now token w)
  from fetch(2) show ?thesis unfolding getWorkflowWorkItem_def
    by (rule ensureDB_transaction_cases)
      (use db fetch(1) in \<open>auto intro: step_effect_refl step_effect_fetch split: option.splits\<close>)
next
  case (complete now wi r)
  from complete(2) show ?thesis unfolding CompleteWorkflowWorkItem_def
    by (rule ensureDB_transaction_cases)
      (use db complete(3) in \<open>auto intro: step_effect_refl step_effect_complete split: option.splits\<close>)
next
  case (abandon now wi r)
  from abandon(2) show ?thesis unfolding AbandonWorkflowWorkItem_def
    by (rule ensureDB_transaction_cases)
      (use db in \<open>auto simp: Let_def updateWhere_def historyRows_def split: if_splits
        intro!: step_effect_refl step_effect_same\<close>)
next
  case (fetch_activity now token a)
  with db show ?thesis
    by (auto simp: getActivityWorkItem_def ensureDB_def Let_def historyRows_def
        intro!: step_effect_same split: option.splits)
next
  case (complete_activity awi r)
  have add: "step_effect lbl db (addNewEvents vs db\<lparr>db_NewTasks := ts\<rparr>)" for vs ts
  proof (rule step_effect_same)
    show "ne_LockedBy r = None \<or> ne_LockedBy r = lbl \<or> r \<in> set (db_NewEvents db)"
      if "r \<in> set (db_NewEvents (addNewEvents vs db\<lparr>db_NewTasks := ts\<rparr>))" for r
      using that addNewEvents_events(2) [of r vs db] by auto
  qed (simp add: historyRows_def)
  from complete_activity(2) show ?thesis unfolding CompleteActivityWorkItem_def
    by (rule ensureDB_transaction_cases)
      (use db in \<open>auto simp: and_then_Inr_iff Let_def deleteWhere_def intro: step_effect_refl add split: if_splits\<close>)
next
  case (abandon_activity awi r)
  with db show ?thesis
    by (auto simp: AbandonActivityWorkItem_def ensureDB_def Let_def updateWhere_def historyRows_def
        intro!: step_effect_same split: option.splits if_splits)
next
  case (purge iid router recursive force p)
  have "\<exists>db'. sb_db be1 = Some db' \<and> step_effect lbl db db'" if "purgeWorkflowStateLocal iid force be = (x, be1)" for x be1
    using that unfolding purgeWorkflowStateLocal_def
    by (rule ensureDB_transaction_cases)
      (use db in \<open>auto simp: and_then_Inr_iff intro: step_effect_refl step_effect_cleanup\<close>)
  with purge db step_effect_refl show ?thesis
    by (auto simp: PurgeWorkflowState_def split: if_splits prod.splits sum.splits)
qed

text \<open>Keys and histories of the reachable states.\<close>

lemma reachable_inv:
  assumes "sql_reachable L be" shows "\<exists>db. sb_db be = Some db \<and> db_inv db \<and> contiguous db"
  using assms
proof (induction rule: sql_reachable.induct)
  case (init be)
  then show ?case by (simp add: contiguous_def historyRows_def) (simp add: emptyDB_def)
next
  case (step be lbl be')
  then obtain db where db: "sb_db be = Some db" "db_inv db" "contiguous db" by blast
  with sql_step_effect [OF step.hyps(2) db(1)] be_inv_step [OF step.hyps(2)] show ?case
    by (auto simp: be_inv_def step_effect_def)
qed

end
