(* ===== verification/SqliteProps.thy ===== *)
theory SqliteProps
  imports SqliteFacts
begin

text \<open>
  What the SQLite backend promises its callers, on every run of its operations.
\<close>

section \<open>A run of the backend\<close>

text \<open>
  A workflow is created, fetched, and completed with its start event as history. The concrete
  instances of the properties below are taken from this run.
\<close>

definition sq_event :: HistoryEvent where
  "sq_event = mkEvent (-1) 1 (ExecutionStarted sample_start) None"

definition sq_lib :: lib where
  "sq_lib = table_lib [sq_event]"

definition sq_be0 :: sqliteBackend where
  "sq_be0 = \<lparr>sb_dsn = ''file::memory:'', sb_db = Some emptyDB, sb_workerName = ''w'', sb_FilePath = [], sb_WorkflowLockTimeout = 10,
     sb_ActivityLockTimeout = 10\<rparr>"

definition sq_be1 :: sqliteBackend where
  "sq_be1 = snd (CreateWorkflowInstance sq_lib 1 (Some sq_event) sq_be0)"

definition sq_be2 :: sqliteBackend where
  "sq_be2 = snd (getWorkflowWorkItem sq_lib 2 ''t'' sq_be1)"

definition sq_state :: WorkflowRuntimeState where
  "sq_state = (emptyWorkflowRuntimeState ''child'' None)\<lparr>rs_NewEvents := [sq_event], rs_StartEvent := Some sample_start\<rparr>"

definition sq_item :: WorkflowWorkItem where
  "sq_item = \<lparr>wwi_InstanceID = ''child'', wwi_NewEvents = [sq_event], wwi_LockedBy = ''t'',
     wwi_RetryCount = 0, wwi_State = Some sq_state, wwi_IncomingHistory = None, wwi_OutgoingHistory = Map.empty\<rparr>"

definition sq_be3 :: sqliteBackend where
  "sq_be3 = snd (CompleteWorkflowWorkItem sq_lib 3 sq_item sq_be2)"

definition sq_row :: InstanceRow where
  "sq_row = \<lparr>ir_InstanceID = ''child'', ir_ExecutionID = ''gen1'', ir_Name = ''wf'', ir_Version = Some [],
     ir_RuntimeStatus = ''PENDING'', ir_CreatedTime = 1, ir_LastUpdatedTime = 1, ir_CompletedTime = None,
     ir_LockedBy = None, ir_LockExpiration = None, ir_Input = Some ''in'', ir_Output = None,
     ir_CustomStatus = None, ir_FailureDetails = None\<rparr>"

definition sq_new :: NewEventRow where
  "sq_new = \<lparr>ne_SequenceNumber = 1, ne_InstanceID = ''child'', ne_ExecutionID = None, ne_VisibleTime = None,
     ne_DequeueCount = 0, ne_LockedBy = None, ne_EventPayload = []\<rparr>"

lemma sq_event_facts [simp]:
  "he_Timestamp sq_event = Some 1" "GetExecutionStarted sq_event = Some sample_start"
  "GetExecutionCompleted sq_event = None" "\<not> IsChildResult sq_event" "Of sq_event = None"
  by (simp_all add: sq_event_def getter_defs IsChildResult_def Of_def)

lemma sq_start_facts [simp]:
  "es_WorkflowInstance sample_start = Some \<lparr>wi_InstanceId = ''child'', wi_ExecutionId = Some ''gen1''\<rparr>"
  "es_Input sample_start = Some ''in''" "es_Version sample_start = None" "es_Name sample_start = ''wf''"
  "es_ScheduledStartTimestamp sample_start = None" "es_executionId sample_start = Some ''gen1''"
  by (simp_all add: sample_start_def es_executionId_def)

lemma sq_codec [simp]:
  "MarshalHistoryEvent sq_lib sq_event = Inr []" "UnmarshalHistoryEvent sq_lib [] = Inr sq_event" "codec_ok sq_lib"
  using codec_ok_table_lib [of "[sq_event]"]
  by (simp_all add: sq_lib_def table_lib_def MarshalHistoryEvent_def UnmarshalHistoryEvent_def proto_Marshal_def
      proto_Unmarshal_def)

lemma sq_be1_eq:
  "CreateWorkflowInstance sq_lib 1 (Some sq_event) sq_be0 = (Inr (), sq_be1)"
  "sq_be1 = sq_be0\<lparr>sb_db := Some (emptyDB\<lparr>db_Instances := [sq_row], db_NewEvents := [sq_new]\<rparr>)\<rparr>"
  by (simp_all add: sq_be1_def CreateWorkflowInstance_def ensureDB_transaction sq_be0_def
      createWorkflowInstanceInternal_def insertOrIgnoreInstance_def findInstance_def emptyDB_def
      addNewEvents_def nextKey_def scheduledStart_def AsTime_def sq_row_def sq_new_def)

lemma sq_be2_eq:
  "getWorkflowWorkItem sq_lib 2 ''t'' sq_be1 = (Inr (Some (sq_item\<lparr>wwi_State := None\<rparr>)), sq_be2)"
  "sq_be2 = sq_be0\<lparr>sb_db := Some (emptyDB\<lparr>
     db_Instances := [sq_row\<lparr>ir_LockedBy := Some ''t'', ir_LockExpiration := Some 12\<rparr>],
     db_NewEvents := [sq_new\<lparr>ne_DequeueCount := 1, ne_LockedBy := Some ''t''\<rparr>]\<rparr>)\<rparr>"
  by (simp_all add: Let_def sq_be2_def sq_be1_eq(2) getWorkflowWorkItem_def ensureDB_transaction sq_be0_def fetchWorkItemTx_def
      lockable_def dequeuable_def updateWhere_def deleteWhere_def emptyDB_def sq_row_def sq_new_def sq_item_def)

lemma sq_be3_eq:
  "CompleteWorkflowWorkItem sq_lib 3 sq_item sq_be2 = (Inr (), sq_be3)" "\<exists>db. sb_db sq_be3 = Some db"
  by (simp_all add: sq_be3_def sq_be2_eq(2) CompleteWorkflowWorkItem_def ensureDB_transaction sq_be0_def
      completeWorkItemTx_def updateWhere_def deleteWhere_def emptyDB_def sq_row_def sq_new_def sq_item_def
      sq_state_def emptyWorkflowRuntimeState_def leased_by_def held_def saveHistory_def saveOutbox_def)

lemma sq_reachable: "sql_reachable sq_lib sq_be2"
proof -
  have "sql_reachable sq_lib sq_be0" by (rule sql_reachable.init) (simp add: sq_be0_def)
  then have "sql_reachable sq_lib sq_be1" by (rule sql_reachable.step) (rule sql_step.create, rule sq_be1_eq(1))
  then show ?thesis by (rule sql_reachable.step) (rule sql_step.fetch, rule sq_be2_eq(1))
qed


section \<open>Commit and load\<close>

lemma sql_reachable_contiguous:
  "sql_reachable L be \<Longrightarrow> sb_db be = Some db \<Longrightarrow> contiguous db"
  using reachable_inv by fastforce

lemma committed_history:
  assumes codec: "codec_ok L" and reach: "sql_reachable L be" and state: "wwi_State wi = Some state"
    and load: "if rs_ContinuedAsNew state then rs_OldEvents state = []
               else GetInstanceHistory L (wwi_InstanceID wi) be = Inr (rs_OldEvents state)"
    and self: "\<not> starts state (wwi_InstanceID wi)"
    and ok: "CompleteWorkflowWorkItem L now wi be = (Inr (), be')"
  shows "GetInstanceHistory L (wwi_InstanceID wi) be' = Inr (rs_OldEvents state @ rs_NewEvents state)"
proof -
  from ok state obtain db db' where db: "sb_db be = Some db"
    and tx: "completeWorkItemTx L now wi state db = Inr ((), db')" and be': "be' = be\<lparr>sb_db := Some db'\<rparr>"
    by (auto simp: CompleteWorkflowWorkItem_def ensureDB_transaction split: option.splits sum.splits prod.splits)
  have c: "contiguous db" by (rule sql_reachable_contiguous [OF reach db])
  let ?iid = "wwi_InstanceID wi"
  have old: "map_result (UnmarshalHistoryEvent L) (if rs_ContinuedAsNew state then [] else historyPayloads db ?iid)
      = Inr (rs_OldEvents state)"
    using load db by (auto simp: GetInstanceHistory_def ensureDB_def query_def split: if_splits)
  then have "length (rs_OldEvents state) = (if rs_ContinuedAsNew state then 0 else length (historyRows db ?iid))"
    using map_result_Inr_length contiguous_payloads [OF c] by fastforce
  from complete_history(2) [OF c tx this self] obtain payloads where
    p: "map_result (MarshalHistoryEvent L) (rs_NewEvents state) = Inr payloads"
    and h: "historyPayloads db' ?iid = (if rs_ContinuedAsNew state then [] else historyPayloads db ?iid) @ payloads"
    by blast
  have "map_result (UnmarshalHistoryEvent L) payloads = Inr (rs_NewEvents state)"
    by (rule map_result_roundtrip [OF p]) (rule Unmarshal_Marshal [OF codec])
  with old show ?thesis
    by (simp add: GetInstanceHistory_def ensureDB_def query_def be' h map_result_append)
qed

text \<open>
  C19. Commit and load round trip. When a work item whose state was loaded from the backend is
  completed, the next load of the instance yields the runtime state built from exactly the old
  events followed by the new events of the turn, or from the new events alone after a restart by
  continue-as-new. The turn must not itself restart the instance by a start message to its own id.
\<close>

theorem commit_then_load:
  assumes "codec_ok L" and "sql_reachable L be" and "wwi_State wi = Some state"
    and "if rs_ContinuedAsNew state then rs_OldEvents state = []
         else GetInstanceHistory L (wwi_InstanceID wi) be = Inr (rs_OldEvents state)"
    and "\<not> starts state (wwi_InstanceID wi)"
    and "CompleteWorkflowWorkItem L now wi be = (Inr (), be')"
  shows "GetWorkflowRuntimeState L (wwi_InstanceID wi) be' =
           Inr (NewWorkflowRuntimeState (wwi_InstanceID wi) None (rs_OldEvents state @ rs_NewEvents state))"
  using committed_history [OF assms]
  by (auto simp: GetWorkflowRuntimeState_def GetInstanceHistory_def ensureDB_def query_def split: option.splits)

theorem commit_then_load_witness:
  "GetWorkflowRuntimeState sq_lib ''child'' sq_be3 = Inr (NewWorkflowRuntimeState ''child'' None [sq_event])"
  using commit_then_load [OF sq_codec(3) sq_reachable _ _ _ sq_be3_eq(1), of sq_state]
  by (simp add: sq_item_def sq_state_def emptyWorkflowRuntimeState_def starts_def GetInstanceHistory_def
      sq_be2_eq(2) sq_be0_def ensureDB_def query_def historyPayloads_def emptyDB_def)

section \<open>Leases\<close>

lemma sql_run_not_held:
  assumes "sql_run L (wwi_LockedBy wi) be be'" and "sb_db be = Some db" and "\<forall>r\<in>set (db_NewEvents db). \<not> held wi r"
  shows "\<exists>db'. sb_db be' = Some db' \<and> (\<forall>r\<in>set (db_NewEvents db'). \<not> held wi r)"
  using assms
proof (induction rule: sql_run.induct)
  case (step be be1 lbl be')
  then obtain db1 where db1: "sb_db be1 = Some db1" "\<forall>r\<in>set (db_NewEvents db1). \<not> held wi r" by auto
  from sql_step_effect [OF step.hyps(2) db1(1)] db1(2) step.hyps(3) show ?case
    by (fastforce simp: step_effect_def held_def)
qed auto

lemma complete_not_held:
  assumes "\<forall>r\<in>set (db_NewEvents db). \<not> held wi r"
  shows "\<not> completeWorkItemTx L now wi state db = Inr (x, db')"
proof
  assume "completeWorkItemTx L now wi state db = Inr (x, db')"
  then obtain db0 db1 db2 where h: "saveHistory L wi state db0 = Inr db1" and out: "saveOutbox L now wi state db1 = Inr db2"
    and db0: "db_NewEvents db0 = db_NewEvents db" and held: "filter (held wi) (db_NewEvents db2) \<noteq> []"
    by (rule completeWorkItemTx_Inr) auto
  from held obtain r where r: "r \<in> set (db_NewEvents db2)" "held wi r" by (auto simp: filter_empty_conv)
  then show False
    using saveOutbox_sheds(1) [OF out, of r] saveHistory_events(1) [OF h, of r] assms db0 by (auto simp: held_def)
qed

text \<open>
  C20. A work item completes at most once. After a completion succeeded, whatever the backend does
  afterwards, every further completion under the same lease token fails and changes nothing, as
  long as no later fetch draws the same token.
\<close>

theorem complete_at_most_once:
  assumes "CompleteWorkflowWorkItem L now wi be = (Inr (), be1)" and "sql_run L (wwi_LockedBy wi) be1 be2"
    and "wwi_InstanceID wi2 = wwi_InstanceID wi" and "wwi_LockedBy wi2 = wwi_LockedBy wi"
  shows "\<exists>e. CompleteWorkflowWorkItem L now2 wi2 be2 = (Inl e, be2)"
proof -
  from assms(1) obtain db1 where db1: "sb_db be1 = Some db1" "\<forall>r\<in>set (db_NewEvents db1). \<not> held wi r"
    unfolding CompleteWorkflowWorkItem_def
    by (auto simp: ensureDB_transaction split: option.splits sum.splits prod.splits elim!: completeWorkItemTx_Inr)
  from sql_run_not_held [OF assms(2) this] assms(3,4) obtain db2 where
    db2: "sb_db be2 = Some db2" "\<forall>r\<in>set (db_NewEvents db2). \<not> held wi2 r" by (auto simp: held_def)
  show ?thesis
  proof (cases "CompleteWorkflowWorkItem L now2 wi2 be2")
    case (Pair r be3)
    with db2 complete_not_held [OF db2(2)] show ?thesis
      by (auto simp: CompleteWorkflowWorkItem_def ensureDB_transaction split: option.splits sum.splits prod.splits)
  qed
qed

theorem complete_at_most_once_witness:
  "\<exists>e. CompleteWorkflowWorkItem sq_lib 4 sq_item sq_be3 = (Inl e, sq_be3)"
  by (rule complete_at_most_once [OF sq_be3_eq(1) sql_run.idle refl refl])

text \<open>Several polls in a row, each with its own clock reading and lease token.\<close>

fun fetchAll :: "lib \<Rightarrow> (int \<times> string) list \<Rightarrow> sqliteBackend \<Rightarrow> WorkflowWorkItem list \<times> sqliteBackend" where
  "fetchAll L [] be = ([], be)"
| "fetchAll L ((now, token) # ps) be =
     (case getWorkflowWorkItem L now token be of
        (r, be1) \<Rightarrow>
          (case fetchAll L ps be1 of
             (wis, be2) \<Rightarrow> ((case r of Inr (Some wi) \<Rightarrow> wi # wis | _ \<Rightarrow> wis), be2)))"

text \<open>The instance is leased until after the given time.\<close>

definition leased_past :: "int \<Rightarrow> sqliteBackend \<Rightarrow> InstanceID \<Rightarrow> bool" where
  "leased_past t be iid \<longleftrightarrow>
     (\<forall>db. sb_db be = Some db \<longrightarrow>
        (\<forall>r\<in>set (db_Instances db). ir_InstanceID r = iid \<longrightarrow> (\<exists>x. ir_LockExpiration r = Some x \<and> t \<le> x)))"

lemma getWorkflowWorkItem_cases:
  assumes "getWorkflowWorkItem L now token be = (r, be')"
  obtains "be' = be" "\<And>wi. r \<noteq> Inr (Some wi)"
  | db row x db' where "sb_db be = Some db" "row \<in> set (db_Instances db)" "lockable now db row"
      "fetchWorkItemTx L now (now + sb_WorkflowLockTimeout be) token row db = Inr (x, db')"
      "r = Inr x" "be' = be\<lparr>sb_db := Some db'\<rparr>"
proof (cases "sb_db be")
  case None
  with assms show ?thesis by (intro that(1)) (auto simp: getWorkflowWorkItem_def ensureDB_transaction)
next
  case (Some db)
  show ?thesis
  proof (cases "List.find (lockable now db) (db_Instances db)")
    case None
    with Some assms show ?thesis by (intro that(1)) (auto simp: getWorkflowWorkItem_def ensureDB_transaction)
  next
    case row: (Some row)
    then have l: "row \<in> set (db_Instances db)" "lockable now db row"
      unfolding find_Some_iff in_set_conv_nth by blast+
    show ?thesis
    proof (cases "fetchWorkItemTx L now (now + sb_WorkflowLockTimeout be) token row db")
      case (Inl e)
      with Some row assms show ?thesis by (intro that(1)) (auto simp: getWorkflowWorkItem_def ensureDB_transaction)
    next
      case (Inr p)
      with Some row assms show ?thesis
        by (cases p, intro that(2) [OF Some l]) (auto simp: getWorkflowWorkItem_def ensureDB_transaction)
    qed
  qed
qed

lemma fetch_lease:
  assumes f: "getWorkflowWorkItem L now token be = (r, be')" and now: "now \<le> t"
    and late: "t \<le> now + sb_WorkflowLockTimeout be"
  shows "leased_past t be iid \<Longrightarrow> leased_past t be' iid \<and> (\<forall>wi. r = Inr (Some wi) \<longrightarrow> wwi_InstanceID wi \<noteq> iid)"
    and "r = Inr (Some wi) \<Longrightarrow> leased_past t be' (wwi_InstanceID wi)"
proof -
  show "leased_past t be' iid \<and> (\<forall>wi. r = Inr (Some wi) \<longrightarrow> wwi_InstanceID wi \<noteq> iid)" if l: "leased_past t be iid"
    using f
  proof (cases rule: getWorkflowWorkItem_cases)
    case (2 db row x db')
    with l now have ne: "ir_InstanceID row \<noteq> iid" by (auto simp: leased_past_def lockable_def)
    from 2(4) show ?thesis
      by (rule fetchWorkItemTx_Inr) (use 2 l ne in \<open>auto simp: leased_past_def lockRow_def unlockRow_def split: if_splits\<close>)
  qed (use l in auto)
  show "leased_past t be' (wwi_InstanceID wi)" if r: "r = Inr (Some wi)"
    using f
  proof (cases rule: getWorkflowWorkItem_cases)
    case (2 db row x db')
    from 2(4) show ?thesis
      by (rule fetchWorkItemTx_Inr) (use 2 r late in \<open>auto simp: leased_past_def lockRow_def split: if_splits\<close>)
  qed (use r in auto)
qed

lemma fetch_timeout:
  "getWorkflowWorkItem L now token be = (r, be') \<Longrightarrow> sb_WorkflowLockTimeout be' = sb_WorkflowLockTimeout be"
  by (auto elim: getWorkflowWorkItem_cases)

lemma fetchAll_leased:
  assumes "fetchAll L ps be = (wis, be')" and "\<forall>p\<in>set ps. fst p \<le> t \<and> t \<le> fst p + sb_WorkflowLockTimeout be"
    and "leased_past t be iid"
  shows "\<forall>wi\<in>set wis. wwi_InstanceID wi \<noteq> iid"
  using assms
proof (induction L ps be arbitrary: wis be' rule: fetchAll.induct)
  case (2 L now token ps be)
  obtain r be1 where f: "getWorkflowWorkItem L now token be = (r, be1)" by fastforce
  obtain wis1 be2 where fa: "fetchAll L ps be1 = (wis1, be2)" by fastforce
  have "now \<le> t" "t \<le> now + sb_WorkflowLockTimeout be" using "2.prems"(2) by auto
  note l = fetch_lease(1) [OF f this "2.prems"(3)]
  have "\<forall>wi\<in>set wis1. wwi_InstanceID wi \<noteq> iid"
    using "2.IH" [OF f [symmetric] fa] "2.prems"(2) fetch_timeout [OF f] l by simp
  with l "2.prems"(1) f fa show ?case by (auto split: sum.splits option.splits)
qed simp

lemma fetchAll_distinct:
  assumes "fetchAll L ps be = (wis, be')" and "\<forall>p\<in>set ps. fst p \<le> t \<and> t \<le> fst p + sb_WorkflowLockTimeout be"
  shows "distinct (map wwi_InstanceID wis)"
  using assms
proof (induction L ps be arbitrary: wis be' rule: fetchAll.induct)
  case (2 L now token ps be)
  obtain r be1 where f: "getWorkflowWorkItem L now token be = (r, be1)" by fastforce
  obtain wis1 be2 where fa: "fetchAll L ps be1 = (wis1, be2)" by fastforce
  have n: "now \<le> t" "t \<le> now + sb_WorkflowLockTimeout be" using "2.prems"(2) by auto
  have ps: "\<forall>p\<in>set ps. fst p \<le> t \<and> t \<le> fst p + sb_WorkflowLockTimeout be1"
    using "2.prems"(2) fetch_timeout [OF f] by simp
  have d: "distinct (map wwi_InstanceID wis1)" using "2.IH" [OF f [symmetric] fa ps] .
  have "wwi_InstanceID wi \<notin> wwi_InstanceID ` set wis1" if "r = Inr (Some wi)" for wi
    using fetchAll_leased [OF fa ps fetch_lease(2) [OF f n that]] by auto
  with d "2.prems"(1) f fa show ?case by (auto split: sum.splits option.splits)
qed simp



section \<open>Events are delivered and consumed exactly\<close>

text \<open>Whether the completion consumes a row is decided by its lease alone.\<close>



lemma dequeueEvents_taken:
  "dequeueEvents now iid token n es = (rows, taken) \<Longrightarrow>
     taken = map (\<lambda>e. e\<lparr>ne_DequeueCount := ne_DequeueCount e + 1, ne_LockedBy := Some token\<rparr>)
               (take n (filter (dequeuable now iid) es))"
proof (induction es arbitrary: n rows taken)
  case (Cons e es)
  then show ?case by (cases n) (fastforce simp: Let_def split: if_splits prod.splits)+
qed simp

text \<open>A child result that was queued for another execution of the instance.\<close>

definition staleFor :: "string \<Rightarrow> NewEventRow \<times> HistoryEvent \<Rightarrow> bool" where
  "staleFor executionID p \<longleftrightarrow> IsChildResult (snd p) \<and> GetValue (ne_ExecutionID (fst p)) \<noteq> executionID"

lemma readEvents_Inr:
  "readEvents L executionID rs = Inr (events, stale, hasChild) \<Longrightarrow>
     \<exists>evs. map_result (\<lambda>r. UnmarshalHistoryEvent L (ne_EventPayload r)) rs = Inr evs
       \<and> events = map (\<lambda>p. (ne_SequenceNumber (fst p), snd p)) (filter (\<lambda>p. \<not> staleFor executionID p) (zip rs evs))"
proof (induction rs arbitrary: events stale hasChild)
  case (Cons r rs)
  then obtain e where e: "UnmarshalHistoryEvent L (ne_EventPayload r) = Inr e" by (auto simp: and_then_Inr_iff)
  with Cons.prems obtain events' stale' hasChild' where
    "readEvents L executionID rs = Inr (events', stale', hasChild')"
    and ev: "events = (if IsChildResult e \<and> GetValue (ne_ExecutionID r) \<noteq> executionID then events'
           else (ne_SequenceNumber r, e) # events')"
    by (auto simp: and_then_Inr_iff split: if_splits)
  from Cons.IH [OF this(1)] ev e show ?case by (auto simp: staleFor_def)
qed simp

lemma sort_key_taken:
  assumes "sorted_wrt (<) (map ne_SequenceNumber rs)" and "length evs = length rs"
  shows "sort_key fst (map (\<lambda>p. (ne_SequenceNumber (fst p), snd p)) (filter P (zip rs evs))) =
           map (\<lambda>p. (ne_SequenceNumber (fst p), snd p)) (filter P (zip rs evs))"
proof -
  have "map (\<lambda>p. ne_SequenceNumber (fst p)) (zip rs evs) = map ne_SequenceNumber rs"
    using assms(2) by (simp flip: map_map [of ne_SequenceNumber fst, unfolded comp_def])
  then have "sorted_wrt (<) (map (\<lambda>p. ne_SequenceNumber (fst p)) (filter P (zip rs evs)))"
    using assms(1) by (intro sorted_wrt_filter_map) simp
  then show ?thesis
    by (intro sort_key_id_if_sorted) (simp add: comp_def strict_sorted_iff)
qed

text \<open>
  C23. A fetch delivers what is visible. The events of a fetched work item are the first thousand
  queued events of its instance that are visible at the time of the poll, in the order of their
  sequence numbers, without the results of children that were started by another execution of the
  instance; every delivered child result therefore carries the execution id of the instance row.
\<close>

theorem fetch_delivers_visible:
  assumes "sql_reachable L be" and "sb_db be = Some db"
    and "getWorkflowWorkItem L now token be = (Inr (Some wi), be')"
  shows "\<exists>row evs. let rs = take 1000 (filter (dequeuable now (wwi_InstanceID wi)) (db_NewEvents db)) in
     row \<in> set (db_Instances db) \<and> ir_InstanceID row = wwi_InstanceID wi \<and>
     map_result (\<lambda>r. UnmarshalHistoryEvent L (ne_EventPayload r)) rs = Inr evs \<and>
     wwi_NewEvents wi = map snd (filter (\<lambda>p. \<not> staleFor (ir_ExecutionID row) p) (zip rs evs)) \<and>
     wwi_NewEvents wi \<noteq> []"
  using assms(3)
proof (cases rule: getWorkflowWorkItem_cases)
  case (2 db0 row x db')
  with assms(2) have db: "db0 = db" by simp
  from 2(4) show ?thesis
  proof (rule fetchWorkItemTx_Inr)
    fix rows taken events stale hasChild
    let ?touch = "\<lambda>e. e\<lparr>ne_DequeueCount := ne_DequeueCount e + 1, ne_LockedBy := Some token\<rparr>"
    let ?rs = "take 1000 (filter (dequeuable now (ir_InstanceID row)) (db_NewEvents db))"
    assume dq: "dequeueEvents now (ir_InstanceID row) token 1000 (db_NewEvents db0) = (rows, taken)"
      and rd: "readEvents L (ir_ExecutionID row) taken = Inr (events, stale, hasChild)"
      and x: "x = (if events = [] then None
          else Some \<lparr>wwi_InstanceID = ir_InstanceID row, wwi_NewEvents = map snd (sort_key fst events),
                     wwi_LockedBy = token,
                     wwi_RetryCount = word_of_int (foldr max (map ne_DequeueCount taken) 0 - 1),
                     wwi_State = None, wwi_IncomingHistory = None, wwi_OutgoingHistory = Map.empty\<rparr>)"
    have taken: "taken = map ?touch ?rs" using dequeueEvents_taken [OF dq] by (simp add: db)
    from readEvents_Inr [OF rd] obtain evs where
      evs: "map_result (\<lambda>r. UnmarshalHistoryEvent L (ne_EventPayload r)) taken = Inr evs"
      and events: "events = map (\<lambda>p. (ne_SequenceNumber (fst p), snd p))
            (filter (\<lambda>p. \<not> staleFor (ir_ExecutionID row) p) (zip taken evs))"
      by blast
    have sorted: "sorted_wrt (<) (map ne_SequenceNumber ?rs)"
      using reachable_inv [OF assms(1)] assms(2)
      by (auto simp: db_inv_def take_map [symmetric] intro!: sorted_wrt_take sorted_wrt_filter_map)
    have wi: "wi = \<lparr>wwi_InstanceID = ir_InstanceID row, wwi_NewEvents = map snd (sort_key fst events),
                     wwi_LockedBy = token,
                     wwi_RetryCount = word_of_int (foldr max (map ne_DequeueCount taken) 0 - 1),
                     wwi_State = None, wwi_IncomingHistory = None, wwi_OutgoingHistory = Map.empty\<rparr>"
      and ne: "events \<noteq> []"
      using x 2(5) by (auto split: if_splits)
    have "sort_key fst events = events"
      unfolding events by (rule sort_key_taken)
        (use sorted map_result_Inr_length [OF evs] in \<open>simp_all add: taken comp_def\<close>)
    moreover have "map snd events = map snd (filter (\<lambda>p. \<not> staleFor (ir_ExecutionID row) p) (zip ?rs evs))"
      by (simp add: events taken zip_map1 filter_map comp_def staleFor_def case_prod_beta)
    moreover have "map_result (\<lambda>r. UnmarshalHistoryEvent L (ne_EventPayload r)) ?rs = Inr evs"
      using evs unfolding taken map_result_map by simp
    ultimately show ?thesis
      using 2(2) ne db wi by (intro exI [of _ row] exI [of _ evs]) (auto simp: Let_def)
  qed
qed auto

theorem fetch_delivers_visible_witness:
  "\<exists>row evs. let rs = take 1000 (filter (dequeuable 2 ''child'') [sq_new]) in
     row \<in> set [sq_row] \<and> ir_InstanceID row = ''child'' \<and>
     map_result (\<lambda>r. UnmarshalHistoryEvent sq_lib (ne_EventPayload r)) rs = Inr evs \<and>
     [sq_event] = map snd (filter (\<lambda>p. \<not> staleFor (ir_ExecutionID row) p) (zip rs evs)) \<and> [sq_event] \<noteq> []"
proof -
  have "sql_reachable sq_lib sq_be0" by (rule sql_reachable.init) (simp add: sq_be0_def)
  then have "sql_reachable sq_lib sq_be1" by (rule sql_reachable.step) (rule sql_step.create, rule sq_be1_eq(1))
  from fetch_delivers_visible [OF this _ sq_be2_eq(1), of "emptyDB\<lparr>db_Instances := [sq_row], db_NewEvents := [sq_new]\<rparr>"]
  show ?thesis by (simp add: sq_be1_eq(2) sq_be0_def sq_item_def)
qed

section \<open>Abandoned work\<close>

text \<open>
  C24. Abandoned work comes back. After a work item was abandoned, its instance can be locked again
  and every event that it held is still queued with its payload and can be dequeued again, at any
  time after the retry delay.
\<close>

theorem abandoned_work_returns:
  assumes "AbandonWorkflowWorkItem now wi be = (Inr (), be')" and "sb_db be = Some db" and "sb_db be' = Some db'"
    and "now + GetAbandonDelay wi < now2"
  shows "(\<exists>row\<in>set (db_Instances db'). ir_InstanceID row = wwi_InstanceID wi \<and> lockable now2 db' row) \<and>
         (\<forall>r\<in>set (db_NewEvents db). held wi r \<longrightarrow>
            (\<exists>r'\<in>set (db_NewEvents db'). ne_SequenceNumber r' = ne_SequenceNumber r \<and>
               ne_EventPayload r' = ne_EventPayload r \<and> ne_LockedBy r' = None \<and>
               dequeuable now2 (wwi_InstanceID wi) r'))"
proof -
  let ?vis = "if GetAbandonDelay wi > 0 then Some (now + GetAbandonDelay wi) else None"
  from assms(1-3) have ne: "filter (held wi) (db_NewEvents db) \<noteq> []" and ni: "filter (leased_by wi) (db_Instances db) \<noteq> []"
    and db': "db' = db\<lparr>db_NewEvents := map (\<lambda>r. if held wi r then r\<lparr>ne_LockedBy := None, ne_VisibleTime := ?vis\<rparr> else r)
          (db_NewEvents db),
        db_Instances := map (\<lambda>r. if leased_by wi r then r\<lparr>ir_LockedBy := None, ir_LockExpiration := None\<rparr> else r)
          (db_Instances db)\<rparr>"
    by (auto simp: AbandonWorkflowWorkItem_def ensureDB_transaction updateWhere_def Let_def split: if_splits)
  have ev: "\<exists>r'\<in>set (db_NewEvents db'). ne_SequenceNumber r' = ne_SequenceNumber r \<and>
      ne_EventPayload r' = ne_EventPayload r \<and> ne_LockedBy r' = None \<and> ne_VisibleTime r' = ?vis \<and>
      ne_InstanceID r' = wwi_InstanceID wi" if "r \<in> set (db_NewEvents db)" "held wi r" for r
    using that by (intro bexI [of _ "r\<lparr>ne_LockedBy := None, ne_VisibleTime := ?vis\<rparr>"])
      (auto simp: db' held_def intro!: image_eqI [of _ _ r])
  show ?thesis
  proof (intro conjI ballI impI)
    from ni obtain row where row: "row \<in> set (db_Instances db)" "leased_by wi row" by (auto simp: filter_empty_conv)
    from ne obtain r where "r \<in> set (db_NewEvents db)" "held wi r" by (auto simp: filter_empty_conv)
    from ev [OF this] have "lockable now2 db' (row\<lparr>ir_LockedBy := None, ir_LockExpiration := None\<rparr>)"
      using row assms(4) by (auto simp: lockable_def leased_by_def list_ex_iff)
    then show "\<exists>row\<in>set (db_Instances db'). ir_InstanceID row = wwi_InstanceID wi \<and> lockable now2 db' row"
      using row by (intro bexI [of _ "row\<lparr>ir_LockedBy := None, ir_LockExpiration := None\<rparr>"])
        (auto simp: db' leased_by_def intro!: image_eqI [of _ _ row])
  next
    fix r assume "r \<in> set (db_NewEvents db)" "held wi r"
    from ev [OF this] assms(4) show "\<exists>r'\<in>set (db_NewEvents db'). ne_SequenceNumber r' = ne_SequenceNumber r \<and>
        ne_EventPayload r' = ne_EventPayload r \<and> ne_LockedBy r' = None \<and> dequeuable now2 (wwi_InstanceID wi) r'"
      by (fastforce simp: dequeuable_def)
  qed
qed

definition sq_be4 :: sqliteBackend where
  "sq_be4 = snd (AbandonWorkflowWorkItem 3 sq_item sq_be2)"

lemma sq_be4_eq:
  "AbandonWorkflowWorkItem 3 sq_item sq_be2 = (Inr (), sq_be4)"
  "sb_db sq_be4 = Some (emptyDB\<lparr>db_Instances := [sq_row],
     db_NewEvents := [sq_new\<lparr>ne_DequeueCount := 1\<rparr>]\<rparr>)"
  by (simp_all add: sq_be4_def sq_be2_eq(2) AbandonWorkflowWorkItem_def ensureDB_transaction updateWhere_def Let_def
      sq_be0_def sq_item_def sq_new_def sq_row_def held_def leased_by_def GetAbandonDelay_def emptyDB_def)

theorem abandoned_work_returns_witness:
  "\<exists>row\<in>set [sq_row]. ir_InstanceID row = ''child'' \<and> lockable 4 (the (sb_db sq_be4)) row"
  using abandoned_work_returns [OF sq_be4_eq(1) _ sq_be4_eq(2), of
      "emptyDB\<lparr>db_Instances := [sq_row\<lparr>ir_LockedBy := Some ''t'', ir_LockExpiration := Some 12\<rparr>],
       db_NewEvents := [sq_new\<lparr>ne_DequeueCount := 1, ne_LockedBy := Some ''t''\<rparr>]\<rparr>" 4]
  by (simp add: sq_be2_eq(2) sq_be0_def sq_be4_eq(2) GetAbandonDelay_def sq_item_def)

section \<open>Activity results\<close>

text \<open>
  C25. The result of an activity is delivered once. A completion that succeeds queues exactly one
  event for the workflow, the marshalled result, and takes the task off the queue; completing the
  same task again under the same lease fails with the lost-lock error and changes nothing.
\<close>

theorem activity_result_once:
  assumes "CompleteActivityWorkItem L awi be = (Inr (), be')" and "sb_db be = Some db" and "awi_Result awi = Some e"
  shows "\<exists>payload new db'. MarshalHistoryEvent L e = Inr payload \<and> sb_db be' = Some db' \<and>
           db_NewEvents db' = db_NewEvents db @ [new] \<and> ne_InstanceID new = awi_InstanceID awi \<and>
           ne_EventPayload new = payload \<and> ne_LockedBy new = None \<and> ne_VisibleTime new = None \<and>
           CompleteActivityWorkItem L awi be' = (Inl ErrWorkItemLockLost, be')"
proof -
  let ?p = "\<lambda>r. nt_SequenceNumber r = awi_SequenceNumber awi \<and> nt_LockedBy r = Some (awi_LockedBy awi)"
  from assms obtain payload where m: "MarshalHistoryEvent L e = Inr payload"
    and be': "be' = be\<lparr>sb_db := Some ((addNewEvents [(awi_InstanceID awi, None, payload, None)] db)
        \<lparr>db_NewTasks := filter (\<lambda>r. \<not> ?p r) (db_NewTasks db)\<rparr>)\<rparr>"
    by (auto simp: CompleteActivityWorkItem_def ensureDB_transaction deleteWhere_def and_then_def Let_def
        split: sum.splits if_splits)
  have "filter ?p (filter (\<lambda>r. \<not> ?p r) (db_NewTasks db)) = []" by (induction "db_NewTasks db") auto
  then have "CompleteActivityWorkItem L awi be' = (Inl ErrWorkItemLockLost, be')"
    using assms(3) m by (simp add: CompleteActivityWorkItem_def ensureDB_transaction deleteWhere_def Let_def be')
  with m be' show ?thesis by (simp add: addNewEvents_def)
qed

text \<open>A queued task, its lease and its completion.\<close>

definition sq_task :: NewTaskRow where
  "sq_task = \<lparr>nt_SequenceNumber = 1, nt_InstanceID = ''child'', nt_DequeueCount = 1, nt_LockedBy = Some ''t'',
     nt_LockExpiration = Some 12, nt_EventPayload = []\<rparr>"

definition sq_activity :: ActivityWorkItem where
  "sq_activity = \<lparr>awi_SequenceNumber = 1, awi_InstanceID = ''child'', awi_NewEvent = sq_event,
     awi_Result = Some sq_event, awi_LockedBy = ''t'', awi_IncomingHistory = None\<rparr>"

definition sq_be5 :: sqliteBackend where
  "sq_be5 = sq_be0\<lparr>sb_db := Some (emptyDB\<lparr>db_NewTasks := [sq_task]\<rparr>)\<rparr>"

theorem activity_result_once_witness:
  "\<exists>be'. CompleteActivityWorkItem sq_lib sq_activity sq_be5 = (Inr (), be')
     \<and> CompleteActivityWorkItem sq_lib sq_activity be' = (Inl ErrWorkItemLockLost, be')"
proof -
  have "\<exists>be'. CompleteActivityWorkItem sq_lib sq_activity sq_be5 = (Inr (), be')"
    by (simp add: CompleteActivityWorkItem_def sq_be5_def sq_activity_def ensureDB_transaction Let_def deleteWhere_def
        sq_task_def)
  then obtain be' where be': "CompleteActivityWorkItem sq_lib sq_activity sq_be5 = (Inr (), be')" ..
  from activity_result_once [OF this] be' show ?thesis by (auto simp: sq_be5_def sq_activity_def)
qed

section \<open>External deliveries\<close>

text \<open>Deliveries in a row: target, event name, delivery id and event of each.\<close>

fun deliverAll ::
  "lib \<Rightarrow> (InstanceID \<times> string \<times> string \<times> HistoryEvent) list \<Rightarrow> sqliteBackend \<Rightarrow> sqliteBackend" where
  "deliverAll L [] be = be"
| "deliverAll L ((iid, name, d, e) # ds) be =
     deliverAll L ds (snd (AddNewWorkflowEventWithExternalDelivery L iid name d (Some e) be))"

definition deliveryKey :: "InstanceID \<times> string \<times> string \<times> HistoryEvent \<Rightarrow> InstanceID \<times> string \<times> string" where
  "deliveryKey x = (case x of (iid, name, d, e) \<Rightarrow> (iid, name, d))"

definition deliverable :: "lib \<Rightarrow> HistoryEvent \<Rightarrow> bool" where
  "deliverable L e \<longleftrightarrow> addChecks (Some e) = None \<and> is_ok (MarshalHistoryEvent L e)"

lemma deliver_one:
  assumes "deliverable L e" and "sb_db be = Some db"
  shows "\<exists>db'. sb_db (snd (AddNewWorkflowEventWithExternalDelivery L iid name d (Some e) be)) = Some db' \<and>
    (if (iid, name, d) \<in> set (db_Deliveries db) then db' = db
     else db_Deliveries db' = db_Deliveries db @ [(iid, name, d)] \<and> length (db_NewEvents db') = Suc (length (db_NewEvents db)))"
  using assms
  by (cases "(iid, name, d) \<in> set (db_Deliveries db)")
    (auto simp: AddNewWorkflowEventWithExternalDelivery_def deliverable_def is_ok_def recordDelivery_def Let_def
      addNewEvents_def split: sum.splits)

text \<open>
  C26. External events are delivered exactly once. However often deliveries are repeated and in
  whatever order they come, the queue grows by one event for each delivery key (instance, event
  name, delivery id) that was not recorded before, and every key is recorded afterwards.
\<close>

theorem external_deliveries_once:
  assumes "\<forall>x\<in>set ds. deliverable L (snd (snd (snd x)))" and "sb_db be = Some db"
  shows "\<exists>db'. sb_db (deliverAll L ds be) = Some db' \<and>
     length (db_NewEvents db') = length (db_NewEvents db) + card (deliveryKey ` set ds - set (db_Deliveries db)) \<and>
     set (db_Deliveries db') = set (db_Deliveries db) \<union> deliveryKey ` set ds"
  using assms
proof (induction L ds be arbitrary: db rule: deliverAll.induct)
  case (2 L iid name d e ds be)
  from deliver_one [of L e be db iid name d] "2.prems" obtain db1 where
    db1: "sb_db (snd (AddNewWorkflowEventWithExternalDelivery L iid name d (Some e) be)) = Some db1"
    "if (iid, name, d) \<in> set (db_Deliveries db) then db1 = db
     else db_Deliveries db1 = db_Deliveries db @ [(iid, name, d)] \<and> length (db_NewEvents db1) = Suc (length (db_NewEvents db))"
    by auto
  let ?k = "(iid, name, d)" and ?K = "deliveryKey ` set ds" and ?D = "set (db_Deliveries db)"
  have key: "deliveryKey ` set ((iid, name, d, e) # ds) = insert ?k ?K" by (simp add: deliveryKey_def)
  have "card (insert ?k ?K - ?D) = (if ?k \<in> ?D then card (?K - ?D) else Suc (card (?K - (?D \<union> {?k}))))"
  proof (cases "?k \<in> ?D")
    case False
    then have "insert ?k ?K - ?D = insert ?k (?K - (?D \<union> {?k}))" by auto
    with False show ?thesis by simp
  qed (simp add: insert_Diff_if)
  with "2.IH" [OF _ db1(1)] "2.prems"(1) db1(2) show ?case
    unfolding key by (auto split: if_splits)
qed simp

theorem external_deliveries_once_witness:
  "\<exists>db'. sb_db (deliverAll sq_lib [(''child'', ''ev'', ''d1'', sq_event), (''child'', ''ev'', ''d1'', sq_event)] sq_be0) = Some db'
     \<and> length (db_NewEvents db') = 1"
  using external_deliveries_once [of "[(''child'', ''ev'', ''d1'', sq_event), (''child'', ''ev'', ''d1'', sq_event)]" sq_lib sq_be0 emptyDB]
  by (auto simp: deliverable_def addChecks_def is_ok_def sq_be0_def emptyDB_def deliveryKey_def)

section \<open>Purging\<close>

text \<open>The rows of every table that belong to other instances.\<close>

definition othersOf :: "InstanceID \<Rightarrow> DB \<Rightarrow> DB" where
  "othersOf iid db =
     \<lparr>db_Instances = filter (\<lambda>r. ir_InstanceID r \<noteq> iid) (db_Instances db),
      db_History = filter (\<lambda>r. hr_InstanceID r \<noteq> iid) (db_History db),
      db_NewEvents = filter (\<lambda>r. ne_InstanceID r \<noteq> iid) (db_NewEvents db),
      db_Deliveries = filter (\<lambda>d. fst d \<noteq> iid) (db_Deliveries db),
      db_NewTasks = filter (\<lambda>r. nt_InstanceID r \<noteq> iid) (db_NewTasks db)\<rparr>"

definition finished :: "InstanceRow \<Rightarrow> bool" where
  "finished row \<longleftrightarrow> ir_RuntimeStatus row \<in> {''COMPLETED'', ''FAILED'', ''TERMINATED''}"

lemma unique_row:
  assumes "distinct (map ir_InstanceID rows)" and "row \<in> set rows"
  shows "filter (\<lambda>r. \<not> (ir_InstanceID r = ir_InstanceID row \<and> finished r)) rows =
           (if finished row then filter (\<lambda>r. ir_InstanceID r \<noteq> ir_InstanceID row) rows else rows)"
    and "filter (\<lambda>r. ir_InstanceID r = ir_InstanceID row \<and> finished r) rows = [] \<longleftrightarrow> \<not> finished row"
proof -
  have u: "ir_InstanceID r = ir_InstanceID row \<longleftrightarrow> r = row" if "r \<in> set rows" for r
    using assms that by (auto simp: distinct_map dest: inj_onD)
  show "filter (\<lambda>r. \<not> (ir_InstanceID r = ir_InstanceID row \<and> finished r)) rows =
           (if finished row then filter (\<lambda>r. ir_InstanceID r \<noteq> ir_InstanceID row) rows else rows)"
    using u by (auto intro!: filter_cong simp: filter_id_conv)
  show "filter (\<lambda>r. ir_InstanceID r = ir_InstanceID row \<and> finished r) rows = [] \<longleftrightarrow> \<not> finished row"
    using u assms(2) by (auto simp: filter_empty_conv)
qed

lemma cleanup_exact:
  assumes "db_inv db"
  shows "cleanupWorkflowStateInternal db iid True =
     (case findInstance db iid of
        None \<Rightarrow> Inl ErrInstanceNotFound
      | Some row \<Rightarrow> if finished row then Inr (othersOf iid db) else Inl ErrNotCompleted)"
proof (cases "findInstance db iid")
  case None
  then show ?thesis by (simp add: cleanupWorkflowStateInternal_def)
next
  case (Some row)
  then have row: "row \<in> set (db_Instances db)" "ir_InstanceID row = iid"
    by (auto simp: findInstance_def find_Some_iff)
  have "distinct (map ir_InstanceID (db_Instances db))" using assms by (simp add: db_inv_def)
  note u = unique_row [OF this row(1), unfolded row(2) finished_def, folded finished_def]
  show ?thesis
    using Some u unfolding cleanupWorkflowStateInternal_def deleteWhere_def finished_def [symmetric]
    by (auto simp: Let_def othersOf_def)
qed

text \<open>
  C27. Purging is complete and local. In every reachable state, purging an instance removes all of
  its rows from all five tables and no row of any other instance when the instance is in one of the
  final states COMPLETED, FAILED and TERMINATED; otherwise it reports that the instance does not
  exist or is not completed and changes nothing. The flag that asks to force the purge and the one
  that asks to recurse into children make no difference.
\<close>

theorem purge_complete_and_local:
  assumes "sql_reachable L be" and "sb_db be = Some db" and "GetTargetAppID router = []"
  shows "PurgeWorkflowState iid router recursive force be =
     (case findInstance db iid of
        None \<Rightarrow> ((0, Some ErrInstanceNotFound), be)
      | Some row \<Rightarrow>
          if finished row then ((1, None), be\<lparr>sb_db := Some (othersOf iid db)\<rparr>)
          else ((0, Some ErrNotCompleted), be))"
proof -
  have "db_inv db" using reachable_inv [OF assms(1)] assms(2) by auto
  from cleanup_exact [OF this] assms(2,3) show ?thesis
    by (cases be) (auto simp: PurgeWorkflowState_def purgeWorkflowStateLocal_def ensureDB_transaction split: option.splits)
qed

theorem purge_complete_and_local_witness:
  "PurgeWorkflowState ''child'' None True True sq_be2 = ((0, Some ErrNotCompleted), sq_be2)"
  using purge_complete_and_local [OF sq_reachable, of _ None "''child''"]
  by (simp add: sq_be2_eq(2) sq_be0_def findInstance_def finished_def sq_row_def GetTargetAppID_def)

section \<open>Collisions of instance ids\<close>

text \<open>
  A start message without a parent whose target id belongs to an instance that is not finished is
  meant to be dropped, but its start event is queued for the existing instance all the same.
\<close>

lemma detached_collision_still_queued:
  assumes inv: "db_inv db" and start: "GetExecutionStarted (rm_HistoryEvent msg) = Some es"
    and w: "es_WorkflowInstance es = Some w" and detached: "es_ParentInstance es = None"
    and ts: "he_Timestamp (rm_HistoryEvent msg) \<noteq> None"
    and row: "findInstance db (wi_InstanceId w) = Some row" and running: "\<not> finished row"
    and m: "MarshalHistoryEvent L (rm_HistoryEvent msg) = Inr payload"
  shows "messageInserts L now [msg] db =
           Inr ([(rm_TargetInstanceId msg, None, payload, es_ScheduledStartTimestamp es)], db)"
proof -
  have nochild: "\<not> IsChildResult (rm_HistoryEvent msg)"
    using start by (auto simp: IsChildResult_def getter_defs split: HistoryEventType.splits)
  have "createWorkflowInstanceInternal now (Some (rm_HistoryEvent msg)) db = Inl ErrDuplicateInstance"
    using start w row ts by (simp add: createWorkflowInstanceInternal_def insertOrIgnoreInstance_def Let_def)
  then have "admitStart now (rm_HistoryEvent msg) db = Inr db"
    using start w detached row running cleanup_exact [OF inv, of "wi_InstanceId w"]
    by (simp add: admitStart_def)
  with nochild m start show ?thesis by (simp add: scheduledStart_def)
qed

text \<open>
  A turn that completes its instance and also sends a start message to its own id removes the queue
  rows that it holds when it replaces the finished instance, so its last lease check fails: the
  completion is rolled back, and every retry ends the same way.
\<close>

definition sq_restart :: WorkflowWorkItem where
  "sq_restart = sq_item\<lparr>wwi_State := Some (sq_state\<lparr>
     rs_CompletedEvent := Some \<lparr>ec_WorkflowStatus = COMPLETED, ec_Result = None, ec_FailureDetails = None\<rparr>,
     rs_PendingMessages := [\<lparr>rm_HistoryEvent = sq_event, rm_TargetInstanceId = ''child'', rm_PropagatedHistory = None\<rparr>]\<rparr>)\<rparr>"

lemma self_restart_never_commits:
  "CompleteWorkflowWorkItem sq_lib now sq_restart sq_be2 = (Inl ErrWorkItemLockLost, sq_be2)"
  by (simp add: sq_be2_eq(2) CompleteWorkflowWorkItem_def ensureDB_transaction sq_be0_def sq_restart_def
      completeWorkItemTx_def updateWhere_def deleteWhere_def emptyDB_def sq_row_def sq_new_def sq_item_def
      sq_state_def emptyWorkflowRuntimeState_def leased_by_def held_def saveHistory_def saveOutbox_def
      admitStart_def createWorkflowInstanceInternal_def insertOrIgnoreInstance_def findInstance_def Let_def
      cleanupWorkflowStateInternal_def finishUpdate_def addNewEvents_def RuntimeStatus_def
      ToRuntimeStatusString_def)

end
