(* ===== verification/Registry.thy ===== *)
theory Registry
  imports Processor "HOL-Library.AList"
begin

text \<open>
  The task registry (\<open>src/task/registry.go\<close>): names of workflow and activity functions, with
  versions of workflows. Go maps are association lists with distinct keys. The registry is a
  parameter type in what a workflow and an activity function is; the replay engine fixes it.
\<close>

record ('w, 'a) TaskRegistry =
  tg_workflows :: "(string \<times> 'w) list"
  tg_versionedWorkflows :: "(string \<times> (string \<times> 'w) list) list"
  tg_latestVersionedWorkflows :: "(string \<times> string) list"
  tg_activities :: "(string \<times> 'a) list"

definition NewTaskRegistry :: "('w, 'a) TaskRegistry" where
  "NewTaskRegistry = \<lparr>tg_workflows = [], tg_versionedWorkflows = [], tg_latestVersionedWorkflows = [], tg_activities = []\<rparr>"

definition AddWorkflowN :: "string \<Rightarrow> 'w \<Rightarrow> ('w, 'a) TaskRegistry \<Rightarrow> error option \<times> ('w, 'a) TaskRegistry" where
  "AddWorkflowN name w r =
     (if map_of (tg_workflows r) name \<noteq> None
      then (Some (ErrorString (''workflow named '' @ quoted name @ '' is already registered'')), r)
      else (None, r\<lparr>tg_workflows := AList.update name w (tg_workflows r)\<rparr>))"

definition AddVersionedWorkflowN ::
  "string \<Rightarrow> string \<Rightarrow> bool \<Rightarrow> 'w \<Rightarrow> ('w, 'a) TaskRegistry \<Rightarrow> error option \<times> ('w, 'a) TaskRegistry" where
  "AddVersionedWorkflowN canonicalName name isLatest w r =
     (let versions = (case map_of (tg_versionedWorkflows r) canonicalName of None \<Rightarrow> [] | Some vs \<Rightarrow> vs)
      in if map_of versions name \<noteq> None
         then (Some (ErrorString (''versioned workflow named '' @ quoted name @ '' is already registered'')), r)
         else
           (None, r\<lparr>tg_versionedWorkflows :=
                      AList.update canonicalName (AList.update name w versions) (tg_versionedWorkflows r),
                    tg_latestVersionedWorkflows :=
                      (if isLatest then AList.update canonicalName name (tg_latestVersionedWorkflows r)
                       else tg_latestVersionedWorkflows r)\<rparr>))"

definition UpsertVersionedWorkflowN ::
  "string \<Rightarrow> string \<Rightarrow> bool \<Rightarrow> 'w \<Rightarrow> ('w, 'a) TaskRegistry \<Rightarrow> ('w, 'a) TaskRegistry" where
  "UpsertVersionedWorkflowN canonicalName name isLatest w r =
     (let versions = (case map_of (tg_versionedWorkflows r) canonicalName of None \<Rightarrow> [] | Some vs \<Rightarrow> vs)
      in r\<lparr>tg_versionedWorkflows :=
             AList.update canonicalName (AList.update name w versions) (tg_versionedWorkflows r),
           tg_latestVersionedWorkflows :=
             (if isLatest then AList.update canonicalName name (tg_latestVersionedWorkflows r)
              else tg_latestVersionedWorkflows r)\<rparr>)"

definition AddActivityN :: "string \<Rightarrow> 'a \<Rightarrow> ('w, 'a) TaskRegistry \<Rightarrow> error option \<times> ('w, 'a) TaskRegistry" where
  "AddActivityN name a r =
     (if map_of (tg_activities r) name \<noteq> None
      then (Some (ErrorString (''activity named '' @ quoted name @ '' is already registered'')), r)
      else (None, r\<lparr>tg_activities := AList.update name a (tg_activities r)\<rparr>))"

definition UpsertActivityN :: "string \<Rightarrow> 'a \<Rightarrow> ('w, 'a) TaskRegistry \<Rightarrow> ('w, 'a) TaskRegistry" where
  "UpsertActivityN name a r = r\<lparr>tg_activities := AList.update name a (tg_activities r)\<rparr>"

text \<open>The workflow and, for a versioned one, the version that was chosen.\<close>

definition ResolveWorkflow ::
  "string \<Rightarrow> string option \<Rightarrow> ('w, 'a) TaskRegistry \<Rightarrow> error + 'w \<times> string option" where
  "ResolveWorkflow name pinnedVersion r =
     (case map_of (tg_workflows r) name of
        Some w \<Rightarrow> Inr (w, None)
      | None \<Rightarrow>
          (case map_of (tg_versionedWorkflows r) name of
             Some versions \<Rightarrow>
               (case (case pinnedVersion of Some v \<Rightarrow> Some v | None \<Rightarrow> map_of (tg_latestVersionedWorkflows r) name) of
                  None \<Rightarrow> Inl (ErrorString (''versioned workflow '' @ quoted name @ '' does not have a latest version registered''))
                | Some versionToUse \<Rightarrow>
                    (case map_of versions versionToUse of
                       Some w \<Rightarrow> Inr (w, Some versionToUse)
                     | None \<Rightarrow> Inl UnsupportedVersionError))
           | None \<Rightarrow>
               if pinnedVersion \<noteq> None then Inl UnsupportedVersionError
               else (case map_of (tg_workflows r) ''*'' of
                       Some w \<Rightarrow> Inr (w, None)
                     | None \<Rightarrow> Inl (ErrorString (''workflow named '' @ quoted name @ '' is not registered'')))))"

definition getActivity :: "string \<Rightarrow> ('w, 'a) TaskRegistry \<Rightarrow> 'a option" where
  "getActivity name r = map_of (tg_activities r) name"

definition RemoveVersionedWorkflow :: "string \<Rightarrow> ('w, 'a) TaskRegistry \<Rightarrow> ('w, 'a) TaskRegistry" where
  "RemoveVersionedWorkflow canonicalName r =
     r\<lparr>tg_versionedWorkflows := AList.delete canonicalName (tg_versionedWorkflows r),
       tg_latestVersionedWorkflows := AList.delete canonicalName (tg_latestVersionedWorkflows r)\<rparr>"

definition RemoveActivity :: "string \<Rightarrow> ('w, 'a) TaskRegistry \<Rightarrow> ('w, 'a) TaskRegistry" where
  "RemoveActivity name r = r\<lparr>tg_activities := AList.delete name (tg_activities r)\<rparr>"

section \<open>Lookup after registration\<close>

lemma ResolveWorkflow_AddWorkflowN:
  "AddWorkflowN name w r = (None, r') \<Longrightarrow> ResolveWorkflow name v r' = Inr (w, None)"
  by (auto simp: AddWorkflowN_def ResolveWorkflow_def update_conv split: if_splits)

lemma ResolveWorkflow_other:
  assumes "AddWorkflowN name w r = (None, r')" and "other \<noteq> name" and "name \<noteq> ''*''"
  shows "ResolveWorkflow other v r' = ResolveWorkflow other v r"
  using assms by (auto simp: AddWorkflowN_def ResolveWorkflow_def update_conv cong: option.case_cong split: if_splits)

text \<open>The changes a running process makes to its registry.\<close>

datatype ('w, 'a) registration =
    RegWorkflow string 'w
  | RegVersioned string string bool 'w
  | RegActivity string 'a

definition register :: "('w, 'a) TaskRegistry \<Rightarrow> ('w, 'a) registration \<Rightarrow> ('w, 'a) TaskRegistry" where
  "register r x =
     (case x of
        RegWorkflow name w \<Rightarrow> snd (AddWorkflowN name w r)
      | RegVersioned c v latest w \<Rightarrow> snd (AddVersionedWorkflowN c v latest w r)
      | RegActivity name a \<Rightarrow> snd (AddActivityN name a r))"

lemma register_keeps_version:
  assumes "map_of (tg_versionedWorkflows r) c = Some vs" and "map_of vs v = Some w"
  shows "\<exists>vs'. map_of (tg_versionedWorkflows (register r x)) c = Some vs' \<and> map_of vs' v = Some w"
  using assms
  by (cases x)
    (auto simp: register_def AddWorkflowN_def AddVersionedWorkflowN_def AddActivityN_def Let_def update_conv
      split: option.splits)

lemma foldl_register_version:
  assumes "map_of (tg_versionedWorkflows r) c = Some vs" and "map_of vs v = Some w"
  shows "\<exists>vs'. map_of (tg_versionedWorkflows (foldl register r xs)) c = Some vs' \<and> map_of vs' v = Some w"
  using assms
proof (induction xs arbitrary: r vs)
  case (Cons x xs)
  from register_keeps_version [OF Cons.prems, of x] Cons.IH show ?case by auto
qed auto

lemma register_workflows:
  "map_of (tg_workflows r) c = None \<Longrightarrow> (\<And>w. x \<noteq> RegWorkflow c w) \<Longrightarrow> map_of (tg_workflows (register r x)) c = None"
  by (cases x) (auto simp: register_def AddWorkflowN_def AddVersionedWorkflowN_def AddActivityN_def Let_def update_conv)

lemma foldl_register_workflows:
  "map_of (tg_workflows r) c = None \<Longrightarrow> \<forall>x\<in>set xs. \<forall>w. x \<noteq> RegWorkflow c w \<Longrightarrow>
     map_of (tg_workflows (foldl register r xs)) c = None"
  by (induction xs arbitrary: r) (auto simp: register_workflows)



end
