(* ===== verification/Replay.thy ===== *)
theory Replay
  imports Registry
begin

text \<open>
  The state of the replay engine (\<open>src/task/orchestrator.go\<close>, \<open>task.go\<close>, \<open>retry.go\<close>, \<open>activity.go\<close>,
  \<open>detached.go\<close>, \<open>timer.go\<close>, \<open>propagation.go\<close>): the workflow context, its tasks and the handlers of
  history events that do not run workflow code. Objects that the source shares by pointer (tasks,
  actions, lists of waiting tasks, retry state) live in heaps of the context and are addressed by
  their position. Logging is left out.
\<close>

section \<open>Options and policies\<close>

text \<open>
  A Go value passed as \<open>any\<close>: nil, or a value together with what JSON marshalling makes of it.
\<close>

type_synonym any = "(error + string) option"

definition marshalData :: "any \<Rightarrow> error + string" where
  "marshalData v = (case v of None \<Rightarrow> Inr [] | Some r \<Rightarrow> r)"

text \<open>A \<open>float64\<close> as its IEEE 754 bit pattern.\<close>

type_synonym float64 = "64 word"

definition float64_isNaN :: "float64 \<Rightarrow> bool" where
  "float64_isNaN f \<longleftrightarrow> take_bit 11 (drop_bit 52 f) = 2047 \<and> take_bit 52 f \<noteq> 0"

definition float64_le_zero :: "float64 \<Rightarrow> bool" where
  "float64_le_zero f \<longleftrightarrow> \<not> float64_isNaN f \<and> (take_bit 63 f = 0 \<or> bit f 63)"

definition float64_one :: float64 where
  "float64_one = push_bit 52 1023"

definition MaxInt64 :: int where
  "MaxInt64 = 2 ^ 63 - 1"

record RetryPolicy =
  rp_MaxAttempts :: int
  rp_InitialRetryInterval :: int
  rp_BackoffCoefficient :: float64
  rp_MaxRetryInterval :: int
  rp_RetryTimeout :: int
  rp_Handle :: "(error \<Rightarrow> bool) option"

definition RetryPolicy_Validate :: "RetryPolicy \<Rightarrow> error + RetryPolicy" where
  "RetryPolicy_Validate policy =
     (if rp_InitialRetryInterval policy \<le> 0 then Inl (ErrorString ''InitialRetryInterval must be greater than 0'')
      else Inr (policy
        \<lparr>rp_MaxAttempts := (if rp_MaxAttempts policy \<le> 0 then 1 else rp_MaxAttempts policy),
         rp_BackoffCoefficient := (if float64_le_zero (rp_BackoffCoefficient policy) then float64_one
                                   else rp_BackoffCoefficient policy),
         rp_MaxRetryInterval := (if rp_MaxRetryInterval policy \<le> 0 then MaxInt64 else rp_MaxRetryInterval policy),
         rp_RetryTimeout := (if rp_RetryTimeout policy \<le> 0 then MaxInt64 else rp_RetryTimeout policy),
         rp_Handle := (case rp_Handle policy of None \<Rightarrow> Some (\<lambda>_. True) | Some h \<Rightarrow> Some h)\<rparr>))"

record callActivityOptions =
  cao_rawInput :: "string option"
  cao_retryPolicy :: "RetryPolicy option"
  cao_targetAppID :: "string option"
  cao_targetAppNamespace :: "string option"
  cao_propagationScope :: "HistoryPropagationScope option"

type_synonym CallActivityOption = "callActivityOptions \<Rightarrow> error + callActivityOptions"

definition newCallActivityOptions :: callActivityOptions where
  "newCallActivityOptions = \<lparr>cao_rawInput = None, cao_retryPolicy = None, cao_targetAppID = None,
     cao_targetAppNamespace = None, cao_propagationScope = None\<rparr>"

definition WithActivityAppID :: "string \<Rightarrow> CallActivityOption" where
  "WithActivityAppID appID opt = Inr (opt\<lparr>cao_targetAppID := Some appID\<rparr>)"

definition WithActivityAppNamespace :: "string \<Rightarrow> CallActivityOption" where
  "WithActivityAppNamespace ns opt = Inr (opt\<lparr>cao_targetAppNamespace := Some ns\<rparr>)"

definition WithActivityInput :: "any \<Rightarrow> CallActivityOption" where
  "WithActivityInput input opt =
     (case marshalData input of Inl err \<Rightarrow> Inl err | Inr s \<Rightarrow> Inr (opt\<lparr>cao_rawInput := Some s\<rparr>))"

definition WithRawActivityInput :: "string option \<Rightarrow> CallActivityOption" where
  "WithRawActivityInput input opt = Inr (opt\<lparr>cao_rawInput := input\<rparr>)"

definition WithActivityRetryPolicy :: "RetryPolicy option \<Rightarrow> CallActivityOption" where
  "WithActivityRetryPolicy policy opt =
     (case policy of
        None \<Rightarrow> Inr opt
      | Some p \<Rightarrow> (case RetryPolicy_Validate p of Inl err \<Rightarrow> Inl err | Inr p' \<Rightarrow> Inr (opt\<lparr>cao_retryPolicy := Some p'\<rparr>)))"

record callChildWorkflowOptions =
  cco_instanceID :: string
  cco_rawInput :: "string option"
  cco_targetAppID :: "string option"
  cco_targetAppNamespace :: "string option"
  cco_retryPolicy :: "RetryPolicy option"
  cco_propagationScope :: "HistoryPropagationScope option"

type_synonym ChildWorkflowOption = "callChildWorkflowOptions \<Rightarrow> error + callChildWorkflowOptions"

definition newCallChildWorkflowOptions :: callChildWorkflowOptions where
  "newCallChildWorkflowOptions = \<lparr>cco_instanceID = [], cco_rawInput = None, cco_targetAppID = None,
     cco_targetAppNamespace = None, cco_retryPolicy = None, cco_propagationScope = None\<rparr>"

definition WithChildWorkflowAppID :: "string \<Rightarrow> ChildWorkflowOption" where
  "WithChildWorkflowAppID appID opts = Inr (opts\<lparr>cco_targetAppID := Some appID\<rparr>)"

definition WithChildWorkflowAppNamespace :: "string \<Rightarrow> ChildWorkflowOption" where
  "WithChildWorkflowAppNamespace ns opts = Inr (opts\<lparr>cco_targetAppNamespace := Some ns\<rparr>)"

definition WithChildWorkflowInput :: "any \<Rightarrow> ChildWorkflowOption" where
  "WithChildWorkflowInput input opts =
     (case marshalData input of
        Inl err \<Rightarrow> Inl (Wrapped ''failed to marshal input to JSON'' err)
      | Inr s \<Rightarrow> Inr (opts\<lparr>cco_rawInput := Some s\<rparr>))"

definition WithRawChildWorkflowInput :: "string option \<Rightarrow> ChildWorkflowOption" where
  "WithRawChildWorkflowInput input opts = Inr (opts\<lparr>cco_rawInput := input\<rparr>)"

definition WithChildWorkflowInstanceID :: "string \<Rightarrow> ChildWorkflowOption" where
  "WithChildWorkflowInstanceID iid opts = Inr (opts\<lparr>cco_instanceID := iid\<rparr>)"

definition WithChildWorkflowRetryPolicy :: "RetryPolicy option \<Rightarrow> ChildWorkflowOption" where
  "WithChildWorkflowRetryPolicy policy opt =
     (case policy of
        None \<Rightarrow> Inr opt
      | Some p \<Rightarrow> (case RetryPolicy_Validate p of Inl err \<Rightarrow> Inl err | Inr p' \<Rightarrow> Inr (opt\<lparr>cco_retryPolicy := Some p'\<rparr>)))"

text \<open>\<open>WithHistoryPropagation\<close> serves both kinds of calls.\<close>

definition applyActivityOption :: "HistoryPropagationScope \<Rightarrow> CallActivityOption" where
  "applyActivityOption scope opts = Inr (opts\<lparr>cao_propagationScope := Some scope\<rparr>)"

definition applyChildWorkflowOption :: "HistoryPropagationScope \<Rightarrow> ChildWorkflowOption" where
  "applyChildWorkflowOption scope opts = Inr (opts\<lparr>cco_propagationScope := Some scope\<rparr>)"

record scheduleNewWorkflowOptions =
  sno_instanceID :: "string option"
  sno_rawInput :: "string option"
  sno_scheduledStartTimestamp :: "int option"
  sno_parentTraceContext :: "TraceContext option"
  sno_targetAppID :: "string option"
  sno_targetAppNamespace :: "string option"

type_synonym DetachedWorkflowOption = "scheduleNewWorkflowOptions \<Rightarrow> error + scheduleNewWorkflowOptions"

definition newScheduleNewWorkflowOptions :: scheduleNewWorkflowOptions where
  "newScheduleNewWorkflowOptions = \<lparr>sno_instanceID = None, sno_rawInput = None, sno_scheduledStartTimestamp = None,
     sno_parentTraceContext = None, sno_targetAppID = None, sno_targetAppNamespace = None\<rparr>"

definition WithDetachedWorkflowInstanceID :: "string \<Rightarrow> DetachedWorkflowOption" where
  "WithDetachedWorkflowInstanceID iid opts = Inr (opts\<lparr>sno_instanceID := Some iid\<rparr>)"

definition WithDetachedWorkflowInput :: "any \<Rightarrow> DetachedWorkflowOption" where
  "WithDetachedWorkflowInput input opts =
     (case marshalData input of
        Inl err \<Rightarrow> Inl (Wrapped ''failed to marshal input to JSON'' err)
      | Inr s \<Rightarrow> Inr (opts\<lparr>sno_rawInput := Some s\<rparr>))"

definition WithRawDetachedWorkflowInput :: "string option \<Rightarrow> DetachedWorkflowOption" where
  "WithRawDetachedWorkflowInput input opts = Inr (opts\<lparr>sno_rawInput := input\<rparr>)"

definition WithDetachedWorkflowStartTime :: "int \<Rightarrow> DetachedWorkflowOption" where
  "WithDetachedWorkflowStartTime t opts = Inr (opts\<lparr>sno_scheduledStartTimestamp := Some t\<rparr>)"

definition WithDetachedWorkflowAppID :: "string \<Rightarrow> DetachedWorkflowOption" where
  "WithDetachedWorkflowAppID appID opts = Inr (opts\<lparr>sno_targetAppID := Some appID\<rparr>)"

definition WithDetachedWorkflowAppNamespace :: "string \<Rightarrow> DetachedWorkflowOption" where
  "WithDetachedWorkflowAppNamespace ns opts = Inr (opts\<lparr>sno_targetAppNamespace := Some ns\<rparr>)"

text \<open>The loops \<open>for _, configure := range opts\<close>, stopping at the first error.\<close>

fun applyOptions :: "('o \<Rightarrow> error + 'o) list \<Rightarrow> 'o \<Rightarrow> error + 'o" where
  "applyOptions [] o' = Inr o'"
| "applyOptions (f # fs) o' = (case f o' of Inl err \<Rightarrow> Inl err | Inr o'' \<Rightarrow> applyOptions fs o'')"

type_synonym CreateTimerOption = "string option \<Rightarrow> error + string option"

definition WithTimerName :: "string \<Rightarrow> CreateTimerOption" where
  "WithTimerName name opt = Inr (Some name)"

section \<open>The workflow context\<close>

text \<open>
  What the engine takes from its environment: fresh UUIDs, the orders in which Go iterates over the
  map of pending actions and the map of buffered events, \<open>strings.ToUpper\<close>, how an error prints
  its type and its message, the SHA-256 helper, and the floating point product of a retry interval
  and a power of the coefficient (in milliseconds, truncated), absent when it is not below the limit.
\<close>

record engine =
  en_uuid :: "nat \<Rightarrow> string"
  en_orderActions :: "(int32 \<times> nat) list \<Rightarrow> (int32 \<times> nat) list"
  en_orderEvents :: "(string \<times> HistoryEvent list) list \<Rightarrow> (string \<times> HistoryEvent list) list"
  en_ToUpper :: "string \<Rightarrow> string"
  en_typeOf :: "error \<Rightarrow> string"
  en_Error :: "error \<Rightarrow> string"
  en_lib :: lib
  en_backoffMs :: "int \<Rightarrow> float64 \<Rightarrow> int \<Rightarrow> int \<Rightarrow> int option"

text \<open>
  The one callback the engine registers on a task: the timer behind a wait for an external event
  cancels the waiting task and takes it off the list of waiters of its key.
\<close>

record eventTimeout =
  to_task :: nat
  to_key :: string
  to_list :: nat

record completableTask =
  ct_isCompleted :: bool
  ct_isCanceled :: bool
  ct_rawResult :: string
  ct_failureDetails :: "TaskFailureDetails option"
  ct_completedCallback :: "eventTimeout option"
  ct_taskExecutionId :: string
  ct_childInstanceID :: string
  ct_childAction :: "nat option"
  ct_kind :: Kind

text \<open>The event behind the closure that redelivers a buffered resolution.\<close>

datatype resolution =
    ResTaskCompleted TaskCompletedEvent
  | ResTaskFailed TaskFailedEvent
  | ResChildCompleted ChildWorkflowInstanceCompletedEvent
  | ResChildFailed ChildWorkflowInstanceFailedEvent
  | ResTimerFired TimerFiredEvent

type_synonym resolutionKey = "Kind \<times> int32"

text \<open>
  What a retried call schedules: an activity, or a child workflow together with the variables that
  its closures share (\<open>firstTask\<close> and \<open>firstInstanceID\<close>).
\<close>

datatype retryCall =
    RetryActivity string callActivityOptions
  | RetryChild string callChildWorkflowOptions nat

record retryTask =
  rt_name :: string
  rt_initialAttempt :: int
  rt_schedule :: retryCall
  rt_policy :: RetryPolicy
  rt_current :: nat
  rt_dispatchExecutionID :: string
  rt_recordedExecutionID :: string
  rt_retryCount :: int
  rt_finished :: bool
  rt_terminalError :: "error option"

text \<open>The wrapper of \<open>internalScheduleTaskWithRetriesLegacy\<close> with the variables its closure captures.\<close>

record taskWrapper =
  tw_delegate :: nat
  tw_name :: string
  tw_initialAttempt :: int
  tw_schedule :: retryCall
  tw_policy :: RetryPolicy
  tw_retryCount :: int

datatype Task = TaskCompletable nat | TaskRetry nat | TaskWrapper taskWrapper

record WorkflowContext =
  wc_ID :: InstanceID
  wc_Name :: string
  wc_VersionName :: "string option"
  wc_IsReplaying :: bool
  wc_CurrentTimeUtc :: int
  wc_rawInput :: string
  wc_oldEvents :: "HistoryEvent list"
  wc_newEvents :: "HistoryEvent list"
  wc_suspendedEvents :: "HistoryEvent list"
  wc_isSuspended :: bool
  wc_isTerminated :: bool
  wc_historyIndex :: nat
  wc_sequenceNumber :: int32
  wc_pendingActions :: "(int32 \<times> nat) list"
  wc_pendingTasks :: "(int32 \<times> nat) list"
  wc_continuedAsNew :: bool
  wc_continuedAsNewInput :: any
  wc_customStatus :: string
  wc_bufferedExternalEvents :: "(string \<times> HistoryEvent list) list"
  wc_pendingExternalEventTasks :: "(string \<times> nat) list"
  wc_saveBufferedExternalEvents :: bool
  wc_bufferedResolutions :: "(resolutionKey \<times> resolution) list"
  wc_resolvedResolutions :: "resolutionKey list"
  wc_optionalTimerIDs :: "int32 list"
  wc_historyPatches :: "string list"
  wc_appliedPatches :: "(string \<times> bool) list"
  wc_encounteredPatches :: "string list"
  wc_propagatedHistory :: "api_PropagatedHistory option"
  wc_defaultDetachedWorkflowCounter :: int32
  wc_tasks :: "completableTask list"
  wc_actions :: "WorkflowAction list"
  wc_lists :: "nat list list"
  wc_retries :: "retryTask list"
  wc_firsts :: "(nat option \<times> string) list"
  wc_uuids :: nat

definition NewWorkflowContext ::
  "InstanceID \<Rightarrow> HistoryEvent list \<Rightarrow> HistoryEvent list \<Rightarrow> WorkflowContext" where
  "NewWorkflowContext iid oldEvents newEvents =
     \<lparr>wc_ID = iid, wc_Name = [], wc_VersionName = None, wc_IsReplaying = False, wc_CurrentTimeUtc = zero_time,
      wc_rawInput = [], wc_oldEvents = oldEvents, wc_newEvents = newEvents, wc_suspendedEvents = [],
      wc_isSuspended = False, wc_isTerminated = False, wc_historyIndex = 0, wc_sequenceNumber = 0,
      wc_pendingActions = [], wc_pendingTasks = [], wc_continuedAsNew = False, wc_continuedAsNewInput = None,
      wc_customStatus = [], wc_bufferedExternalEvents = [], wc_pendingExternalEventTasks = [],
      wc_saveBufferedExternalEvents = False, wc_bufferedResolutions = [], wc_resolvedResolutions = [],
      wc_optionalTimerIDs = [], wc_historyPatches = [], wc_appliedPatches = [], wc_encounteredPatches = [],
      wc_propagatedHistory = None, wc_defaultDetachedWorkflowCounter = 0, wc_tasks = [], wc_actions = [],
      wc_lists = [], wc_retries = [], wc_firsts = [], wc_uuids = 0\<rparr>"

section \<open>Tasks\<close>

definition newTask :: "WorkflowContext \<Rightarrow> nat \<times> WorkflowContext" where
  "newTask c =
     (length (wc_tasks c),
      c\<lparr>wc_tasks := wc_tasks c @
         [\<lparr>ct_isCompleted = False, ct_isCanceled = False, ct_rawResult = [], ct_failureDetails = None,
           ct_completedCallback = None, ct_taskExecutionId = [], ct_childInstanceID = [], ct_childAction = None,
           ct_kind = KindNone\<rparr>]\<rparr>)"

definition updTask :: "nat \<Rightarrow> (completableTask \<Rightarrow> completableTask) \<Rightarrow> WorkflowContext \<Rightarrow> WorkflowContext" where
  "updTask t f c = c\<lparr>wc_tasks := (wc_tasks c)[t := f (wc_tasks c ! t)]\<rparr>"

text \<open>
  The callback of a timer task, run when the timer completes: nothing when the event won the race,
  otherwise the waiting task is cancelled (it has no callback of its own) and deregistered.
\<close>

definition runCallback :: "eventTimeout \<Rightarrow> WorkflowContext \<Rightarrow> WorkflowContext" where
  "runCallback cb c =
     (if ct_isCompleted (wc_tasks c ! to_task cb) then c
      else
        let c1 = updTask (to_task cb) (\<lambda>t. t\<lparr>ct_isCanceled := True, ct_isCompleted := True\<rparr>) c;
            taskList = wc_lists c1 ! to_list cb
        in if length taskList > 1
           then c1\<lparr>wc_lists := (wc_lists c1)[to_list cb := remove1 (to_task cb) taskList]\<rparr>
           else c1\<lparr>wc_pendingExternalEventTasks := AList.delete (to_key cb) (wc_pendingExternalEventTasks c1)\<rparr>)"

definition completeInternal :: "nat \<Rightarrow> WorkflowContext \<Rightarrow> WorkflowContext" where
  "completeInternal t c =
     (let c1 = updTask t (\<lambda>x. x\<lparr>ct_isCompleted := True\<rparr>) c
      in case ct_completedCallback (wc_tasks c1 ! t) of None \<Rightarrow> c1 | Some cb \<Rightarrow> runCallback cb c1)"

definition task_onCompleted :: "nat \<Rightarrow> eventTimeout \<Rightarrow> WorkflowContext \<Rightarrow> WorkflowContext" where
  "task_onCompleted t cb c =
     (if ct_isCompleted (wc_tasks c ! t) then runCallback cb c
      else updTask t (\<lambda>x. x\<lparr>ct_completedCallback := Some cb\<rparr>) c)"

definition task_complete :: "nat \<Rightarrow> string \<Rightarrow> WorkflowContext \<Rightarrow> WorkflowContext" where
  "task_complete t raw c = completeInternal t (updTask t (\<lambda>x. x\<lparr>ct_rawResult := raw\<rparr>) c)"

definition task_fail :: "nat \<Rightarrow> TaskFailureDetails option \<Rightarrow> WorkflowContext \<Rightarrow> WorkflowContext" where
  "task_fail t fd c =
     (let details = (case fd of
            None \<Rightarrow> TaskFailureDetails ''TaskFailed'' ''task failed without failure details'' None None False
          | Some d \<Rightarrow> d)
      in completeInternal t (updTask t (\<lambda>x. x\<lparr>ct_failureDetails := Some details\<rparr>) c))"

definition task_cancel :: "nat \<Rightarrow> WorkflowContext \<Rightarrow> WorkflowContext" where
  "task_cancel t c = completeInternal t (updTask t (\<lambda>x. x\<lparr>ct_isCanceled := True\<rparr>) c)"

text \<open>A task that failed before it was scheduled.\<close>

definition failedTask :: "string \<Rightarrow> string \<Rightarrow> WorkflowContext \<Rightarrow> Task \<times> WorkflowContext" where
  "failedTask errType msg c =
     (let (t, c1) = newTask c
      in (TaskCompletable t, task_fail t (Some (TaskFailureDetails errType msg None None False)) c1))"

section \<open>Actions\<close>

definition getNextSequenceNumber :: "WorkflowContext \<Rightarrow> int32 \<times> WorkflowContext" where
  "getNextSequenceNumber c = (wc_sequenceNumber c, c\<lparr>wc_sequenceNumber := wc_sequenceNumber c + 1\<rparr>)"

text \<open>Allocating an action under the next id and entering it in \<open>ctx.pendingActions\<close>.\<close>

definition addAction ::
  "WorkflowActionType \<Rightarrow> TaskRouter option \<Rightarrow> WorkflowContext \<Rightarrow> int32 \<times> nat \<times> WorkflowContext" where
  "addAction ty r c =
     (let (i, c1) = getNextSequenceNumber c; a = length (wc_actions c1)
      in (i, a, c1\<lparr>wc_actions := wc_actions c1 @ [\<lparr>wa_Id = i, wa_Type = ty, wa_Router = r\<rparr>],
                   wc_pendingActions := AList.update i a (wc_pendingActions c1)\<rparr>))"

definition pendingAction :: "int32 \<Rightarrow> WorkflowContext \<Rightarrow> WorkflowAction option" where
  "pendingAction i c = map_option (\<lambda>a. wc_actions c ! a) (map_of (wc_pendingActions c) i)"

definition updAction :: "nat \<Rightarrow> (WorkflowAction \<Rightarrow> WorkflowAction) \<Rightarrow> WorkflowContext \<Rightarrow> WorkflowContext" where
  "updAction a f c = c\<lparr>wc_actions := (wc_actions c)[a := f (wc_actions c ! a)]\<rparr>"

definition GetScheduleTask :: "WorkflowAction \<Rightarrow> ScheduleTaskAction option" where
  "GetScheduleTask a = (case wa_Type a of ScheduleTask x \<Rightarrow> Some x | _ \<Rightarrow> None)"

definition GetCreateChildWorkflow :: "WorkflowAction \<Rightarrow> CreateChildWorkflowAction option" where
  "GetCreateChildWorkflow a = (case wa_Type a of CreateChildWorkflow x \<Rightarrow> Some x | _ \<Rightarrow> None)"

definition GetCreateTimer :: "WorkflowAction \<Rightarrow> CreateTimerAction option" where
  "GetCreateTimer a = (case wa_Type a of CreateTimer x \<Rightarrow> Some x | _ \<Rightarrow> None)"

definition GetCreateDetachedWorkflow :: "WorkflowAction \<Rightarrow> CreateDetachedWorkflowAction option" where
  "GetCreateDetachedWorkflow a = (case wa_Type a of CreateDetachedWorkflow x \<Rightarrow> Some x | _ \<Rightarrow> None)"

definition taskRouterFromTarget :: "string option \<Rightarrow> string option \<Rightarrow> TaskRouter option" where
  "taskRouterFromTarget appID ns =
     (case appID of
        None \<Rightarrow> None
      | Some a \<Rightarrow> Some \<lparr>tr_SourceAppID = [], tr_TargetAppID = Some a, tr_TargetAppNamespace = ns\<rparr>)"

definition namespaceWithoutApp :: "string option \<Rightarrow> string option \<Rightarrow> bool" where
  "namespaceWithoutApp appID ns \<longleftrightarrow> \<not> (ns = None \<or> appID \<noteq> None)"

section \<open>Resolutions\<close>

definition resolutionIDProvisional :: "int32 \<Rightarrow> WorkflowContext \<Rightarrow> bool" where
  "resolutionIDProvisional i c = list_ex (\<lambda>t. sint t \<le> sint i) (wc_optionalTimerIDs c)"

definition bufferResolution :: "resolutionKey \<Rightarrow> resolution \<Rightarrow> WorkflowContext \<Rightarrow> WorkflowContext" where
  "bufferResolution key r c =
     (if key \<in> set (wc_resolvedResolutions c) then c
      else if map_of (wc_bufferedResolutions c) key \<noteq> None then c
      else c\<lparr>wc_bufferedResolutions := AList.update key r (wc_bufferedResolutions c)\<rparr>)"

definition restoreActivityScheduleIdentity :: "int32 \<Rightarrow> string \<Rightarrow> WorkflowContext \<Rightarrow> WorkflowContext" where
  "restoreActivityScheduleIdentity taskID executionID c =
     (case map_of (wc_pendingActions c) taskID of
        None \<Rightarrow> c
      | Some a \<Rightarrow>
          (case GetScheduleTask (wc_actions c ! a) of
             None \<Rightarrow> c
           | Some s \<Rightarrow> updAction a (\<lambda>x. x\<lparr>wa_Type := ScheduleTask (s\<lparr>sta_TaskExecutionId := executionID\<rparr>)\<rparr>) c))"

text \<open>The pending task that a resolution of the given kind and id may complete.\<close>

definition resolvable :: "Kind \<Rightarrow> int32 \<Rightarrow> WorkflowContext \<Rightarrow> nat option" where
  "resolvable kind i c =
     (case map_of (wc_pendingTasks c) i of
        None \<Rightarrow> None
      | Some t \<Rightarrow> if ct_kind (wc_tasks c ! t) \<noteq> kind \<or> resolutionIDProvisional i c then None else Some t)"

definition markResolved :: "Kind \<Rightarrow> int32 \<Rightarrow> WorkflowContext \<Rightarrow> WorkflowContext" where
  "markResolved kind i c =
     c\<lparr>wc_pendingTasks := AList.delete i (wc_pendingTasks c),
       wc_resolvedResolutions := List.insert (kind, i) (wc_resolvedResolutions c)\<rparr>"

definition onTaskCompleted :: "TaskCompletedEvent \<Rightarrow> WorkflowContext \<Rightarrow> WorkflowContext" where
  "onTaskCompleted tc c =
     (let i = tcd_TaskScheduledId tc
      in case resolvable KindTask i c of
           None \<Rightarrow> bufferResolution (KindTask, i) (ResTaskCompleted tc) c
         | Some t \<Rightarrow>
             task_complete t (GetValue (tcd_Result tc))
               (restoreActivityScheduleIdentity i (tcd_TaskExecutionId tc) (markResolved KindTask i c)))"

definition onTaskFailed :: "TaskFailedEvent \<Rightarrow> WorkflowContext \<Rightarrow> WorkflowContext" where
  "onTaskFailed tf c =
     (let i = tf_TaskScheduledId tf
      in case resolvable KindTask i c of
           None \<Rightarrow> bufferResolution (KindTask, i) (ResTaskFailed tf) c
         | Some t \<Rightarrow>
             task_fail t (tf_FailureDetails tf)
               (updTask t (\<lambda>x. x\<lparr>ct_taskExecutionId := tf_TaskExecutionId tf\<rparr>)
                 (restoreActivityScheduleIdentity i (tf_TaskExecutionId tf) (markResolved KindTask i c))))"

definition onChildWorkflowCompleted ::
  "ChildWorkflowInstanceCompletedEvent \<Rightarrow> WorkflowContext \<Rightarrow> WorkflowContext" where
  "onChildWorkflowCompleted soc c =
     (let i = cc_TaskScheduledId soc
      in case resolvable KindChild i c of
           None \<Rightarrow> bufferResolution (KindChild, i) (ResChildCompleted soc) c
         | Some t \<Rightarrow> task_complete t (GetValue (cc_Result soc)) (markResolved KindChild i c))"

definition onChildWorkflowFailed ::
  "ChildWorkflowInstanceFailedEvent \<Rightarrow> WorkflowContext \<Rightarrow> WorkflowContext" where
  "onChildWorkflowFailed sof c =
     (let i = cf_TaskScheduledId sof
      in case resolvable KindChild i c of
           None \<Rightarrow> bufferResolution (KindChild, i) (ResChildFailed sof) c
         | Some t \<Rightarrow> task_fail t (cf_FailureDetails sof) (markResolved KindChild i c))"

definition onTimerFired :: "TimerFiredEvent \<Rightarrow> WorkflowContext \<Rightarrow> WorkflowContext" where
  "onTimerFired tf c =
     (let i = tmf_TimerId tf
      in case resolvable KindTimer i c of
           None \<Rightarrow> bufferResolution (KindTimer, i) (ResTimerFired tf) c
         | Some t \<Rightarrow> task_complete t [] (markResolved KindTimer i c))"

definition redeliver :: "resolution \<Rightarrow> WorkflowContext \<Rightarrow> WorkflowContext" where
  "redeliver r =
     (case r of
        ResTaskCompleted x \<Rightarrow> onTaskCompleted x
      | ResTaskFailed x \<Rightarrow> onTaskFailed x
      | ResChildCompleted x \<Rightarrow> onChildWorkflowCompleted x
      | ResChildFailed x \<Rightarrow> onChildWorkflowFailed x
      | ResTimerFired x \<Rightarrow> onTimerFired x)"

definition consumeBufferedResolution :: "Kind \<Rightarrow> int32 \<Rightarrow> WorkflowContext \<Rightarrow> WorkflowContext" where
  "consumeBufferedResolution kind i c =
     (case map_of (wc_bufferedResolutions c) (kind, i) of
        None \<Rightarrow> c
      | Some br \<Rightarrow>
          if resolutionIDProvisional i c then c
          else redeliver br (c\<lparr>wc_bufferedResolutions := AList.delete (kind, i) (wc_bufferedResolutions c)\<rparr>))"

text \<open>Delivering to the pending tasks with the given ids, in their order, as far as they are still pending.\<close>

fun consumeFor :: "int32 list \<Rightarrow> WorkflowContext \<Rightarrow> WorkflowContext" where
  "consumeFor [] c = c"
| "consumeFor (i # is) c =
     consumeFor is
       (case map_of (wc_pendingTasks c) i of
          None \<Rightarrow> c
        | Some t \<Rightarrow> consumeBufferedResolution (ct_kind (wc_tasks c ! t)) i c)"

definition consumeReadyBufferedResolutions :: "WorkflowContext \<Rightarrow> WorkflowContext" where
  "consumeReadyBufferedResolutions c =
     (if wc_bufferedResolutions c = [] then c
      else consumeFor (sort_key sint (map fst (wc_pendingTasks c))) c)"

definition actionIDProvisional :: "int32 \<Rightarrow> WorkflowContext \<Rightarrow> bool" where
  "actionIDProvisional i c \<longleftrightarrow>
     wc_bufferedResolutions c \<noteq> [] \<and>
     list_ex (\<lambda>t. sint t \<le> sint i \<and> list_ex (\<lambda>(k, _). sint (snd k) \<ge> sint t) (wc_bufferedResolutions c))
       (wc_optionalTimerIDs c)"

section \<open>Scheduling\<close>

text \<open>Registering the task of a new action and delivering a result that came early.\<close>

definition registerTask :: "Kind \<Rightarrow> nat option \<Rightarrow> int32 \<Rightarrow> WorkflowContext \<Rightarrow> nat \<times> WorkflowContext" where
  "registerTask kind childAction i c =
     (let (t, c1) = newTask c;
          c2 = updTask t (\<lambda>x. x\<lparr>ct_kind := kind, ct_childAction := childAction\<rparr>) c1;
          c3 = c2\<lparr>wc_pendingTasks := AList.update i t (wc_pendingTasks c2)\<rparr>
      in (t, consumeBufferedResolution kind i c3))"

definition internalScheduleActivity ::
  "string \<Rightarrow> string \<Rightarrow> callActivityOptions \<Rightarrow> WorkflowContext \<Rightarrow> nat \<times> WorkflowContext" where
  "internalScheduleActivity activityName taskExecutionId options c =
     (let (i, a, c1) = addAction
            (ScheduleTask \<lparr>sta_Name = activityName, sta_Version = None, sta_Input = cao_rawInput options,
                           sta_TaskExecutionId = taskExecutionId,
                           sta_HistoryPropagationScope = cao_propagationScope options\<rparr>)
            (taskRouterFromTarget (cao_targetAppID options) (cao_targetAppNamespace options)) c
      in registerTask KindTask None i c1)"

definition internalCallChildWorkflow ::
  "string \<Rightarrow> callChildWorkflowOptions \<Rightarrow> string option \<Rightarrow> WorkflowContext \<Rightarrow> nat \<times> WorkflowContext" where
  "internalCallChildWorkflow workflowName options retryParentInstanceID c =
     (let (i, a, c1) = addAction
            (CreateChildWorkflow \<lparr>cca_InstanceId = cco_instanceID options, cca_Name = workflowName,
               cca_Version = None, cca_Input = cco_rawInput options,
               cca_HistoryPropagationScope = cco_propagationScope options,
               cca_RetryParentInstanceInfo = retryParentInstanceID\<rparr>)
            (taskRouterFromTarget (cco_targetAppID options) (cco_targetAppNamespace options)) c
      in registerTask KindChild (Some a) i c1)"

text \<open>The task of the timer and its action.\<close>

definition createTimerInternal ::
  "string option \<Rightarrow> int \<Rightarrow> WorkflowContext \<Rightarrow> nat \<times> nat \<times> WorkflowContext" where
  "createTimerInternal name delay c =
     (let (i, a, c1) = addAction
            (CreateTimer \<lparr>cta_FireAt = Some (wc_CurrentTimeUtc c + delay), cta_Name = name,
                          cta_Origin = OriginCreateTimer\<rparr>) None c;
          (t, c2) = registerTask KindTimer None i c1
      in (t, a, c2))"

text \<open>The last instant of the year 9999, in nanoseconds since the epoch.\<close>

definition externalEventIndefiniteFireAt :: int where
  "externalEventIndefiniteFireAt = 253402300799 * 1000000000 + 999999999"

definition isOptionalExternalEventTimerAction :: "WorkflowAction \<Rightarrow> bool" where
  "isOptionalExternalEventTimerAction a \<longleftrightarrow>
     (case wa_Type a of
        CreateTimer ct \<Rightarrow>
          (case cta_Origin ct of
             OriginExternalEvent _ \<Rightarrow> cta_FireAt ct = Some externalEventIndefiniteFireAt
           | _ \<Rightarrow> False)
      | _ \<Rightarrow> False)"

definition isOptionalExternalEventTimerCreatedEvent :: "TimerCreatedEvent \<Rightarrow> bool" where
  "isOptionalExternalEventTimerCreatedEvent tc \<longleftrightarrow>
     (case tmc_Origin tc of
        OriginExternalEvent _ \<Rightarrow> tmc_FireAt tc = Some externalEventIndefiniteFireAt
      | _ \<Rightarrow> False)"

definition createExternalEventTimerInternal :: "string \<Rightarrow> int \<Rightarrow> WorkflowContext \<Rightarrow> nat \<times> WorkflowContext" where
  "createExternalEventTimerInternal eventName fireAt c =
     (let (i, a, c1) = addAction
            (CreateTimer \<lparr>cta_FireAt = Some fireAt, cta_Name = Some eventName,
                          cta_Origin = OriginExternalEvent eventName\<rparr>) None c;
          c2 = (if isOptionalExternalEventTimerAction (wc_actions c1 ! a)
                then c1\<lparr>wc_optionalTimerIDs := List.insert i (wc_optionalTimerIDs c1)\<rparr> else c1)
      in registerTask KindTimer None i c2)"

definition ctx_CreateTimer ::
  "engine \<Rightarrow> CreateTimerOption list \<Rightarrow> int \<Rightarrow> WorkflowContext \<Rightarrow> Task \<times> WorkflowContext" where
  "ctx_CreateTimer en opts delay c =
     (case applyOptions opts None of
        Inl err \<Rightarrow> failedTask (en_typeOf en err) (en_Error en err) c
      | Inr name \<Rightarrow> (case createTimerInternal name delay c of (t, _, c1) \<Rightarrow> (TaskCompletable t, c1)))"

definition WaitForSingleEvent ::
  "engine \<Rightarrow> string \<Rightarrow> int \<Rightarrow> WorkflowContext \<Rightarrow> Task \<times> WorkflowContext" where
  "WaitForSingleEvent en eventName timeout c =
     (let (t, c1) = newTask c; key = en_ToUpper en eventName
      in case map_of (wc_bufferedExternalEvents c1) key of
           Some eventList \<Rightarrow>
             let next = hd eventList;
                 rest = (if length eventList > 1
                         then AList.update key (tl eventList) (wc_bufferedExternalEvents c1)
                         else AList.delete key (wc_bufferedExternalEvents c1));
                 rawValue = (case he_EventType next of EventRaised er \<Rightarrow> GetValue (evr_Input er) | _ \<Rightarrow> [])
             in (TaskCompletable t, task_complete t rawValue (c1\<lparr>wc_bufferedExternalEvents := rest\<rparr>))
         | None \<Rightarrow>
             if timeout = 0 then (TaskCompletable t, task_cancel t c1)
             else
               let (l, c2) = (case map_of (wc_pendingExternalEventTasks c1) key of
                       Some l \<Rightarrow> (l, c1)
                     | None \<Rightarrow> (length (wc_lists c1),
                         c1\<lparr>wc_lists := wc_lists c1 @ [[]],
                            wc_pendingExternalEventTasks :=
                              AList.update key (length (wc_lists c1)) (wc_pendingExternalEventTasks c1)\<rparr>));
                   c3 = c2\<lparr>wc_lists := (wc_lists c2)[l := wc_lists c2 ! l @ [t]]\<rparr>;
                   fireAt = (if timeout > 0 then wc_CurrentTimeUtc c3 + timeout else externalEventIndefiniteFireAt);
                   (timer, c4) = createExternalEventTimerInternal eventName fireAt c3
               in (TaskCompletable t, task_onCompleted timer \<lparr>to_task = t, to_key = key, to_list = l\<rparr> c4))"

definition ctx_ContinueAsNew :: "any \<Rightarrow> bool \<Rightarrow> WorkflowContext \<Rightarrow> WorkflowContext" where
  "ctx_ContinueAsNew newInput keepUnprocessedEvents c =
     c\<lparr>wc_continuedAsNew := True, wc_continuedAsNewInput := newInput,
       wc_saveBufferedExternalEvents := (keepUnprocessedEvents \<or> wc_saveBufferedExternalEvents c)\<rparr>"

definition isPatched :: "string \<Rightarrow> WorkflowContext \<Rightarrow> bool \<times> WorkflowContext" where
  "isPatched patchName c =
     (case map_of (wc_appliedPatches c) patchName of
        Some patched \<Rightarrow> (patched, c)
      | None \<Rightarrow>
          let decision = (patchName \<in> set (wc_historyPatches c) \<or>
                \<not> wc_historyIndex c < length (wc_oldEvents c) + length (wc_newEvents c))
          in (decision, c\<lparr>wc_appliedPatches := AList.update patchName decision (wc_appliedPatches c)\<rparr>))"

definition IsPatched :: "string \<Rightarrow> WorkflowContext \<Rightarrow> bool \<times> WorkflowContext" where
  "IsPatched patchName c =
     (let (patched, c1) = isPatched patchName c
      in (patched, if patched then c1\<lparr>wc_encounteredPatches := wc_encounteredPatches c1 @ [patchName]\<rparr> else c1))"

definition ScheduleNewWorkflow ::
  "string \<Rightarrow> DetachedWorkflowOption list \<Rightarrow> WorkflowContext \<Rightarrow> (error + InstanceID) \<times> WorkflowContext" where
  "ScheduleNewWorkflow workflowName opts c =
     (case applyOptions opts newScheduleNewWorkflowOptions of
        Inl err \<Rightarrow> (Inl err, c)
      | Inr options \<Rightarrow>
          if sno_targetAppNamespace options \<noteq> None \<and> sno_targetAppID options = None
          then (Inl (ErrorString ''WithDetachedWorkflowAppNamespace requires WithDetachedWorkflowAppID to also be set''), c)
          else
            case (case sno_instanceID options of
                    None \<Rightarrow>
                      Inr (wc_ID c @ ''-'' @ string_of_int (sint (wc_defaultDetachedWorkflowCounter c)),
                           c\<lparr>wc_defaultDetachedWorkflowCounter := wc_defaultDetachedWorkflowCounter c + 1\<rparr>)
                  | Some iid \<Rightarrow>
                      if iid = [] then Inl (ErrorString ''WithDetachedWorkflowInstanceID was passed an empty string; omit the option to opt into the default ID'')
                      else Inr (iid, c)) of
              Inl err \<Rightarrow> (Inl err, c)
            | Inr (instanceID, c1) \<Rightarrow>
                (Inr instanceID,
                 snd (snd (addAction
                   (CreateDetachedWorkflow \<lparr>cda_InstanceId = instanceID, cda_Name = workflowName, cda_Version = None,
                      cda_Input = sno_rawInput options, cda_ScheduledStartTimestamp = sno_scheduledStartTimestamp options,
                      cda_ExecutionId = None, cda_Tags = [], cda_ParentTraceContext = sno_parentTraceContext options\<rparr>)
                   (taskRouterFromTarget (sno_targetAppID options) (sno_targetAppNamespace options)) c1))))"

section \<open>Completion\<close>

definition setCompleteInternal ::
  "string option \<Rightarrow> OrchestrationStatus \<Rightarrow> TaskFailureDetails option \<Rightarrow> WorkflowContext \<Rightarrow> WorkflowContext" where
  "setCompleteInternal rawResult status failureDetails c =
     snd (snd (addAction
       (CompleteWorkflow \<lparr>cwa_WorkflowStatus = status, cwa_Result = rawResult, cwa_Details = None,
          cwa_NewVersion = None, cwa_CarryoverEvents = [], cwa_FailureDetails = failureDetails\<rparr>) None c))"

definition setComplete :: "any \<Rightarrow> WorkflowContext \<Rightarrow> error option \<times> WorkflowContext" where
  "setComplete output c =
     (case output of
        None \<Rightarrow> (None, setCompleteInternal None COMPLETED None c)
      | Some _ \<Rightarrow>
          (case marshalData output of
             Inl err \<Rightarrow> (Some (Wrapped ''failed to marshal output to JSON'' err), c)
           | Inr s \<Rightarrow> (None, setCompleteInternal (Some s) COMPLETED None c)))"

definition setFailed :: "engine \<Rightarrow> error \<Rightarrow> WorkflowContext \<Rightarrow> WorkflowContext" where
  "setFailed en appError c =
     setCompleteInternal None FAILED
       (Some (TaskFailureDetails (en_typeOf en appError) (en_Error en appError) None None False)) c"

definition setContinuedAsNew :: "WorkflowContext \<Rightarrow> error option \<times> WorkflowContext" where
  "setContinuedAsNew c =
     (case wc_continuedAsNewInput c of
        None \<Rightarrow> (None, setCompleteInternal None CONTINUED_AS_NEW None c)
      | Some _ \<Rightarrow>
          (case marshalData (wc_continuedAsNewInput c) of
             Inl err \<Rightarrow> (Some (Wrapped ''failed to marshal continue-as-new payload to JSON'' err), c)
           | Inr s \<Rightarrow> (None, setCompleteInternal (Some s) CONTINUED_AS_NEW None c)))"

definition setVersionNotRegistered :: "WorkflowContext \<Rightarrow> WorkflowContext" where
  "setVersionNotRegistered c = snd (snd (addAction WorkflowVersionNotAvailable None c))"

section \<open>Optional timers\<close>

text \<open>Moving the entry of one id to the id below.\<close>

definition shiftAction :: "int32 \<Rightarrow> WorkflowContext \<Rightarrow> WorkflowContext" where
  "shiftAction i c =
     (case map_of (wc_pendingActions c) i of
        None \<Rightarrow> c
      | Some a \<Rightarrow>
          let c1 = updAction a (\<lambda>x. x\<lparr>wa_Id := i - 1\<rparr>)
                (c\<lparr>wc_pendingActions := AList.update (i - 1) a (AList.delete i (wc_pendingActions c))\<rparr>)
          in if i \<in> set (wc_optionalTimerIDs c1)
             then c1\<lparr>wc_optionalTimerIDs := List.insert (i - 1) (removeAll i (wc_optionalTimerIDs c1))\<rparr>
             else c1)"

definition shiftTask :: "int32 \<Rightarrow> WorkflowContext \<Rightarrow> WorkflowContext" where
  "shiftTask i c =
     (case map_of (wc_pendingTasks c) i of
        None \<Rightarrow> c
      | Some t \<Rightarrow> c\<lparr>wc_pendingTasks := AList.update (i - 1) t (AList.delete i (wc_pendingTasks c))\<rparr>)"

text \<open>The ids above the given one, in increasing order.\<close>

definition laterIDs :: "int32 \<Rightarrow> (int32 \<times> nat) list \<Rightarrow> int32 list" where
  "laterIDs atID m = sort_key sint (filter (\<lambda>i. sint i > sint atID) (map fst m))"

definition dropOptionalExternalEventTimerAt :: "int32 \<Rightarrow> WorkflowContext \<Rightarrow> bool \<times> WorkflowContext" where
  "dropOptionalExternalEventTimerAt atID c =
     (case pendingAction atID c of
        None \<Rightarrow> (False, c)
      | Some a \<Rightarrow>
          if \<not> isOptionalExternalEventTimerAction a then (False, c)
          else
            let c1 = c\<lparr>wc_pendingActions := AList.delete atID (wc_pendingActions c),
                       wc_pendingTasks := AList.delete atID (wc_pendingTasks c),
                       wc_optionalTimerIDs := removeAll atID (wc_optionalTimerIDs c)\<rparr>;
                c2 = fold shiftAction (laterIDs atID (wc_pendingActions c1)) c1;
                taskIDs = laterIDs atID (wc_pendingTasks c2);
                c3 = fold shiftTask taskIDs c2;
                c4 = c3\<lparr>wc_sequenceNumber := wc_sequenceNumber c3 - 1\<rparr>
            in (True, consumeFor (map (\<lambda>i. i - 1) taskIDs) c4))"

subsection \<open>Dropping ends\<close>

lemma pendingActions_upds [simp]:
  "wc_pendingActions (updTask t f c) = wc_pendingActions c"
  "wc_pendingActions (updAction a g c) = wc_pendingActions c"
  "wc_pendingActions (restoreActivityScheduleIdentity i x c) = wc_pendingActions c"
  "wc_pendingActions (markResolved k i c) = wc_pendingActions c"
  "wc_pendingActions (bufferResolution key r c) = wc_pendingActions c"
  by (simp_all add: updTask_def updAction_def restoreActivityScheduleIdentity_def markResolved_def
      bufferResolution_def split: option.split)

lemma pendingActions_runCallback [simp]: "wc_pendingActions (runCallback cb c) = wc_pendingActions c"
  by (simp add: runCallback_def Let_def)

lemma pendingActions_complete [simp]:
  "wc_pendingActions (completeInternal t c) = wc_pendingActions c"
  "wc_pendingActions (task_complete t raw c) = wc_pendingActions c"
  "wc_pendingActions (task_fail t fd c) = wc_pendingActions c"
  "wc_pendingActions (task_cancel t c) = wc_pendingActions c"
  by (simp_all add: completeInternal_def task_complete_def task_fail_def task_cancel_def Let_def split: option.split)

lemma pendingActions_redeliver [simp]: "wc_pendingActions (redeliver r c) = wc_pendingActions c"
  by (cases r) (simp_all add: redeliver_def onTaskCompleted_def onTaskFailed_def onChildWorkflowCompleted_def
      onChildWorkflowFailed_def onTimerFired_def Let_def split: option.split)

lemma pendingActions_consume [simp]:
  "wc_pendingActions (consumeBufferedResolution kind i c) = wc_pendingActions c"
  by (simp add: consumeBufferedResolution_def split: option.split)

lemma pendingActions_consumeFor [simp]: "wc_pendingActions (consumeFor is c) = wc_pendingActions c"
  by (induction "is" arbitrary: c) (simp_all split: option.split)

lemma length_delete_le: "length (AList.delete k m) \<le> length m"
  by (simp add: AList.delete_eq)

lemma length_delete_less: "map_of m k \<noteq> None \<Longrightarrow> length (AList.delete k m) < length m"
proof (induction m)
  case (Cons p m)
  then show ?case using length_delete_le [of k m] by (cases p) (auto simp: AList.delete_eq less_Suc_eq_le split: if_splits)
qed simp

lemma length_update_le: "length (AList.update k v m) \<le> Suc (length m)"
  by (induction m) auto

lemma shiftAction_length: "length (wc_pendingActions (shiftAction i c)) \<le> length (wc_pendingActions c)"
proof (cases "map_of (wc_pendingActions c) i")
  case (Some a)
  with length_delete_less [of "wc_pendingActions c" i]
    length_update_le [of "i - 1" a "AList.delete i (wc_pendingActions c)"]
  show ?thesis by (simp add: shiftAction_def Let_def)
qed (simp add: shiftAction_def)

lemma shiftAction_fold_length: "length (wc_pendingActions (fold shiftAction is c)) \<le> length (wc_pendingActions c)"
  using shiftAction_length le_trans by (induction "is" arbitrary: c) fastforce+

lemma shiftTask_pendingActions: "wc_pendingActions (fold shiftTask is c) = wc_pendingActions c"
  by (induction "is" arbitrary: c) (simp_all add: shiftTask_def split: option.split)

lemma dropOptional_decreases:
  assumes "dropOptionalExternalEventTimerAt i c = (True, c')"
  shows "length (wc_pendingActions c') < length (wc_pendingActions c)"
proof -
  from assms obtain a where a: "map_of (wc_pendingActions c) i = Some a"
    by (auto simp: dropOptionalExternalEventTimerAt_def pendingAction_def split: option.splits if_splits)
  let ?c1 = "c\<lparr>wc_pendingActions := AList.delete i (wc_pendingActions c),
      wc_pendingTasks := AList.delete i (wc_pendingTasks c),
      wc_optionalTimerIDs := removeAll i (wc_optionalTimerIDs c)\<rparr>"
  have "length (wc_pendingActions ?c1) < length (wc_pendingActions c)"
    using a length_delete_less [of "wc_pendingActions c" i] by simp
  moreover have "wc_pendingActions c' =
      wc_pendingActions (fold shiftAction (laterIDs i (wc_pendingActions ?c1)) ?c1)"
    using assms by (auto simp: dropOptionalExternalEventTimerAt_def Let_def shiftTask_pendingActions
        split: option.splits if_splits)
  ultimately show ?thesis using shiftAction_fold_length [of "laterIDs i (wc_pendingActions ?c1)" ?c1] by simp
qed

text \<open>The loop \<open>for ctx.dropOptionalExternalEventTimerAt(taskID)\<close>.\<close>

function dropOptionalTimers :: "int32 \<Rightarrow> WorkflowContext \<Rightarrow> WorkflowContext" where
  "dropOptionalTimers i c =
     (case dropOptionalExternalEventTimerAt i c of
        (True, c') \<Rightarrow> dropOptionalTimers i c'
      | (False, c') \<Rightarrow> c')"
  by pat_completeness auto
termination
  by (relation "measure (\<lambda>(i, c). length (wc_pendingActions c))") (auto dest: dropOptional_decreases [OF sym])

section \<open>Scheduling events\<close>

definition noSuchAction :: "string \<Rightarrow> string \<Rightarrow> int32 \<Rightarrow> error" where
  "noSuchAction call what taskID =
     ErrorString (''a previous execution called '' @ call @ '' for '' @ what @ '' and sequence number '' @
       string_of_int (sint taskID) @
       '' at this point in the workflow logic, but the current execution doesn't have this action with this sequence number'')"

definition deletePendingAction :: "int32 \<Rightarrow> WorkflowContext \<Rightarrow> WorkflowContext" where
  "deletePendingAction i c = c\<lparr>wc_pendingActions := AList.delete i (wc_pendingActions c)\<rparr>"

definition onTaskScheduled :: "int32 \<Rightarrow> TaskScheduledEvent \<Rightarrow> WorkflowContext \<Rightarrow> error option \<times> WorkflowContext" where
  "onTaskScheduled taskID ts c =
     (let c1 = (if Option.bind (pendingAction taskID c) GetScheduleTask = None then dropOptionalTimers taskID c else c)
      in if Option.bind (pendingAction taskID c1) GetScheduleTask = None
         then (Some (noSuchAction ''CallActivity'' (quoted (ts_Name ts)) taskID), c1)
         else (None, deletePendingAction taskID c1))"

definition onChildWorkflowScheduled ::
  "int32 \<Rightarrow> ChildWorkflowInstanceCreatedEvent \<Rightarrow> WorkflowContext \<Rightarrow> error option \<times> WorkflowContext" where
  "onChildWorkflowScheduled taskID ts c =
     (let c1 = (if Option.bind (pendingAction taskID c) GetCreateChildWorkflow = None
                then dropOptionalTimers taskID c else c)
      in if Option.bind (pendingAction taskID c1) GetCreateChildWorkflow = None
         then (Some (noSuchAction ''CallChildWorkflow'' (quoted (cw_Name ts)) taskID), c1)
         else
           let c2 = (case map_of (wc_pendingTasks c1) taskID of
                  None \<Rightarrow> c1
                | Some t \<Rightarrow> if ct_kind (wc_tasks c1 ! t) = KindChild
                            then updTask t (\<lambda>x. x\<lparr>ct_childInstanceID := cw_InstanceId ts\<rparr>) c1 else c1)
           in (None, deletePendingAction taskID c2))"

text \<open>Here the source drops at most one optional timer.\<close>

definition onDetachedWorkflowCreated :: "int32 \<Rightarrow> string \<Rightarrow> WorkflowContext \<Rightarrow> error option \<times> WorkflowContext" where
  "onDetachedWorkflowCreated taskID instanceId c =
     (let c1 = (if Option.bind (pendingAction taskID c) GetCreateDetachedWorkflow = None
                then snd (dropOptionalExternalEventTimerAt taskID c) else c)
      in case Option.bind (pendingAction taskID c1) GetCreateDetachedWorkflow of
           None \<Rightarrow> (Some (noSuchAction ''ScheduleNewWorkflow'' (''instance ID '' @ quoted instanceId) taskID), c1)
         | Some a \<Rightarrow>
             if cda_InstanceId a \<noteq> instanceId
             then (Some (ErrorString (''a previous execution called ScheduleNewWorkflow for instance ID '' @ quoted instanceId @
                     '' and sequence number '' @ string_of_int (sint taskID) @
                     '' at this point in the workflow logic, but the current execution scheduled instance ID '' @
                     quoted (cda_InstanceId a))), c1)
             else (None, deletePendingAction taskID c1))"

definition onTimerCreated :: "int32 \<Rightarrow> TimerCreatedEvent \<Rightarrow> WorkflowContext \<Rightarrow> error option \<times> WorkflowContext" where
  "onTimerCreated eventId tc c =
     (let c1 = (if isOptionalExternalEventTimerCreatedEvent tc then c else dropOptionalTimers eventId c)
      in if Option.bind (pendingAction eventId c1) GetCreateTimer = None
         then (Some (ErrorString (''a previous execution called CreateTimer with sequence number '' @
                 string_of_int (sint eventId) @
                 '', but the current execution doesn't have this action with this sequence number'')), c1)
         else
           let c2 = deletePendingAction eventId c1;
               c3 = c2\<lparr>wc_optionalTimerIDs := removeAll eventId (wc_optionalTimerIDs c2)\<rparr>
           in (None, consumeReadyBufferedResolutions c3))"

section \<open>Other events\<close>

definition onExternalEventRaised :: "engine \<Rightarrow> HistoryEvent \<Rightarrow> EventRaisedEvent \<Rightarrow> WorkflowContext \<Rightarrow> WorkflowContext" where
  "onExternalEventRaised en e er c =
     (let key = en_ToUpper en (evr_Name er)
      in case map_of (wc_pendingExternalEventTasks c) key of
           Some l \<Rightarrow>
             let waiting = wc_lists c ! l; t = hd waiting;
                 c1 = (if length waiting > 1 then c\<lparr>wc_lists := (wc_lists c)[l := tl waiting]\<rparr>
                       else c\<lparr>wc_pendingExternalEventTasks := AList.delete key (wc_pendingExternalEventTasks c)\<rparr>)
             in task_complete t (GetValue (evr_Input er)) c1
         | None \<Rightarrow>
             let buffered = (case map_of (wc_bufferedExternalEvents c) key of None \<Rightarrow> [] | Some es \<Rightarrow> es)
             in c\<lparr>wc_bufferedExternalEvents := AList.update key (buffered @ [e]) (wc_bufferedExternalEvents c)\<rparr>)"

text \<open>The loop over the pending actions: what happens at the first completion action that it meets.\<close>

fun terminateScan ::
  "(int32 \<times> nat) list \<Rightarrow> string option \<Rightarrow> WorkflowContext \<Rightarrow> WorkflowContext" where
  "terminateScan [] input c = setCompleteInternal input TERMINATED None c"
| "terminateScan ((i, a) # as) input c =
     (case GetCompleteWorkflow (wc_actions c ! a) of
        None \<Rightarrow> terminateScan as input c
      | Some co \<Rightarrow>
          if cwa_WorkflowStatus co = CONTINUED_AS_NEW
          then setCompleteInternal input TERMINATED None (deletePendingAction i c)
          else c)"

definition onExecutionTerminated :: "engine \<Rightarrow> ExecutionTerminatedEvent \<Rightarrow> WorkflowContext \<Rightarrow> WorkflowContext" where
  "onExecutionTerminated en et c =
     terminateScan (en_orderActions en (wc_pendingActions c)) (et_Input et) (c\<lparr>wc_isTerminated := True\<rparr>)"

section \<open>The actions of a turn\<close>

definition addCarryover :: "HistoryEvent list \<Rightarrow> WorkflowAction \<Rightarrow> WorkflowAction" where
  "addCarryover es a =
     (case wa_Type a of
        CompleteWorkflow co \<Rightarrow> a\<lparr>wa_Type := CompleteWorkflow (co\<lparr>cwa_CarryoverEvents := cwa_CarryoverEvents co @ es\<rparr>)\<rparr>
      | _ \<Rightarrow> a)"

definition ctx_actions :: "engine \<Rightarrow> WorkflowContext \<Rightarrow> WorkflowAction list" where
  "ctx_actions en c =
     (if wc_isSuspended c \<and> \<not> wc_isTerminated c then []
      else
        let pending = map (\<lambda>(_, a). wc_actions c ! a) (wc_pendingActions c);
            kept = filter (\<lambda>a. GetCompleteWorkflow a \<noteq> None \<or> wa_Type a = WorkflowVersionNotAvailable
                               \<or> \<not> actionIDProvisional (wa_Id a) c) pending;
            carry = (if wc_continuedAsNew c \<and> wc_saveBufferedExternalEvents c
                     then concat (map snd (en_orderEvents en (wc_bufferedExternalEvents c))) else [])
        in sort_key (\<lambda>a. sint (wa_Id a)) (map (addCarryover carry) kept))"

end
