(* ===== verification/ReplayRun.thy ===== *)
theory ReplayRun
  imports Replay
begin

text \<open>
  Running workflow code. A workflow function is a tree of the calls that it makes on its context:
  it returns, panics, or makes a call and goes on with the answer. The engine runs the function when
  the start event is processed; a call that awaits a task processes further history events on top
  of it. An event that resumes a suspended workflow replays the events buffered meanwhile.

  \<open>processEvent\<close> takes a number that bounds how deep runs of workflow code and replays of buffered
  events can nest; the loops inside a level are bounded by the number of events that are left and
  by the attempts that are left of a retried call. \<open>start\<close> passes a bound that is never reached.
\<close>

section \<open>Workflow functions\<close>

record view =
  vw_ID :: InstanceID
  vw_Name :: string
  vw_VersionName :: "string option"
  vw_IsReplaying :: bool
  vw_CurrentTimeUtc :: int
  vw_rawInput :: string
  vw_propagatedHistory :: "api_PropagatedHistory option"

text \<open>
  The calls. The optional function of an \<open>Await\<close> decodes the result into the caller's variable and
  may fail; without it the caller passed nil.
\<close>

datatype call =
    CallActivity string "CallActivityOption list"
  | CallChildWorkflow string "ChildWorkflowOption list"
  | CallCreateTimer "CreateTimerOption list" int
  | CallWaitForSingleEvent string int
  | CallScheduleNewWorkflow string "DetachedWorkflowOption list"
  | CallAwait Task "(string \<Rightarrow> error option) option"
  | CallTaskExecutionId Task
  | CallIsPatched string
  | CallContinueAsNew any bool
  | CallSetCustomStatus string
  | CallReadContext

datatype answer =
    AnswerTask Task
  | AnswerAwait "error option" string
  | AnswerString string
  | AnswerBool bool
  | AnswerInstance "error + InstanceID"
  | AnswerView view
  | AnswerUnit

datatype Workflow =
    Return any "error option"
  | Panic string
  | Call call "answer \<Rightarrow> Workflow"

text \<open>
  The outcome of running a piece of the engine: a value, the control-flow panic \<open>ErrTaskBlocked\<close>,
  another panic, or the bound on nesting reached. The context carries all mutations up to there.
\<close>

datatype 'r run = Done 'r WorkflowContext | Blocked WorkflowContext | Panicked string WorkflowContext | OutOfFuel

fun bind_run :: "'a run \<Rightarrow> ('a \<Rightarrow> WorkflowContext \<Rightarrow> 'b run) \<Rightarrow> 'b run" where
  "bind_run (Done x c) f = f x c"
| "bind_run (Blocked c) f = Blocked c"
| "bind_run (Panicked p c) f = Panicked p c"
| "bind_run OutOfFuel f = OutOfFuel"

type_synonym next_event = "WorkflowContext \<Rightarrow> (bool \<times> error option) run"

section \<open>Awaiting\<close>

definition remaining :: "WorkflowContext \<Rightarrow> nat" where
  "remaining c = length (wc_oldEvents c) + length (wc_newEvents c) - wc_historyIndex c"

text \<open>What \<open>Await\<close> returns on a completed task.\<close>

definition taskError :: "(string \<Rightarrow> error option) option \<Rightarrow> completableTask \<Rightarrow> error option" where
  "taskError decode t =
     (case ct_failureDetails t of
        Some fd \<Rightarrow> Some (ErrorString (''task failed with an error: '' @ fd_ErrorMessage fd))
      | None \<Rightarrow>
          if ct_isCanceled t then Some ErrTaskCanceled
          else (case decode of
                  None \<Rightarrow> None
                | Some d \<Rightarrow>
                    if ct_rawResult t = [] then None
                    else map_option (Wrapped ''failed to decode task result'') (d (ct_rawResult t))))"

fun awaitLoop ::
  "nat \<Rightarrow> next_event \<Rightarrow> nat \<Rightarrow> (string \<Rightarrow> error option) option \<Rightarrow> WorkflowContext \<Rightarrow> error option run" where
  "awaitLoop m next t decode c =
     (if ct_isCompleted (wc_tasks c ! t) then Done (taskError decode (wc_tasks c ! t)) c
      else case m of
             0 \<Rightarrow> OutOfFuel
           | Suc m' \<Rightarrow>
               bind_run (next c) (\<lambda>(ok, err) c1.
                 case err of
                   Some e \<Rightarrow> Done (Some e) c1
                 | None \<Rightarrow> if \<not> ok then Blocked c1 else awaitLoop m' next t decode c1))"

definition task_Await ::
  "next_event \<Rightarrow> nat \<Rightarrow> (string \<Rightarrow> error option) option \<Rightarrow> WorkflowContext \<Rightarrow> error option run" where
  "task_Await next t decode c = awaitLoop (Suc (remaining c)) next t decode c"

section \<open>Retries\<close>

definition computeNextDelay :: "engine \<Rightarrow> int \<Rightarrow> RetryPolicy \<Rightarrow> int \<Rightarrow> int \<Rightarrow> error \<Rightarrow> int" where
  "computeNextDelay en currentTimeUtc policy attempt firstAttempt err =
     (if (case rp_Handle policy of None \<Rightarrow> False | Some h \<Rightarrow> h err) then
        let isExpired = (rp_RetryTimeout policy \<noteq> MaxInt64 \<and> currentTimeUtc > firstAttempt + rp_RetryTimeout policy)
        in if \<not> isExpired then
             (case en_backoffMs en (rp_InitialRetryInterval policy div 1000000) (rp_BackoffCoefficient policy) attempt
                     (rp_MaxRetryInterval policy div 1000000) of
                Some ms \<Rightarrow> ms * 1000000
              | None \<Rightarrow> rp_MaxRetryInterval policy)
           else 0
      else 0)"

definition retrySchedule :: "retryCall \<Rightarrow> string \<Rightarrow> bool \<Rightarrow> WorkflowContext \<Rightarrow> nat \<times> WorkflowContext" where
  "retrySchedule rc taskExecutionId isRetry c =
     (case rc of
        RetryActivity name options \<Rightarrow> internalScheduleActivity name taskExecutionId options c
      | RetryChild name options f \<Rightarrow>
          if isRetry then internalCallChildWorkflow name options (Some (snd (wc_firsts c ! f))) c
          else
            let (t, c1) = internalCallChildWorkflow name options None c
            in (t, c1\<lparr>wc_firsts := (wc_firsts c1)[f := (Some t, snd (wc_firsts c1 ! f))]\<rparr>))"

text \<open>The recorded child of the first attempt: the last match in the history.\<close>

definition recordedChild :: "int32 \<Rightarrow> HistoryEvent list \<Rightarrow> string \<Rightarrow> string" where
  "recordedChild actionId es firstInstanceID =
     foldl (\<lambda>acc e.
       case GetChildWorkflowInstanceCreated e of
         Some created \<Rightarrow> if he_EventId e = actionId \<and> cw_InstanceId created \<noteq> [] then cw_InstanceId created else acc
       | None \<Rightarrow> acc) firstInstanceID es"

definition setOrigin :: "nat \<Rightarrow> TimerOrigin \<Rightarrow> WorkflowContext \<Rightarrow> WorkflowContext" where
  "setOrigin a origin c =
     updAction a (\<lambda>x. case wa_Type x of
        CreateTimer ct \<Rightarrow> x\<lparr>wa_Type := CreateTimer (ct\<lparr>cta_Origin := origin\<rparr>)\<rparr> | _ \<Rightarrow> x) c"

definition setTimerOrigin :: "retryCall \<Rightarrow> nat \<Rightarrow> string \<Rightarrow> WorkflowContext \<Rightarrow> WorkflowContext" where
  "setTimerOrigin rc a execID c =
     (case rc of
        RetryActivity name options \<Rightarrow> setOrigin a (OriginActivityRetry execID) c
      | RetryChild name options f \<Rightarrow>
          let (firstTask, fid) = wc_firsts c ! f;
              fid1 = (case firstTask of
                  Some t \<Rightarrow> if ct_childInstanceID (wc_tasks c ! t) \<noteq> [] then ct_childInstanceID (wc_tasks c ! t) else fid
                | None \<Rightarrow> fid);
              fid2 = (case Option.bind firstTask (\<lambda>t. ct_childAction (wc_tasks c ! t)) of
                  Some act \<Rightarrow> recordedChild (wa_Id (wc_actions c ! act)) (wc_oldEvents c @ wc_newEvents c) fid1
                | None \<Rightarrow> fid1)
          in setOrigin a (OriginChildWorkflowRetry fid2) (c\<lparr>wc_firsts := (wc_firsts c)[f := (firstTask, fid2)]\<rparr>))"

definition updRetry :: "nat \<Rightarrow> (retryTask \<Rightarrow> retryTask) \<Rightarrow> WorkflowContext \<Rightarrow> WorkflowContext" where
  "updRetry r f c = c\<lparr>wc_retries := (wc_retries c)[r := f (wc_retries c ! r)]\<rparr>"

text \<open>\<open>t.finished, t.terminalError = true, err\<close>.\<close>

definition finishRetry :: "nat \<Rightarrow> error option \<Rightarrow> WorkflowContext \<Rightarrow> WorkflowContext" where
  "finishRetry r err c = updRetry r (\<lambda>x. x\<lparr>rt_finished := True, rt_terminalError := err\<rparr>) c"

definition noteExecutionID :: "nat \<Rightarrow> completableTask \<Rightarrow> WorkflowContext \<Rightarrow> WorkflowContext" where
  "noteExecutionID r current c =
     (if \<not> ct_isCanceled current \<or> ct_taskExecutionId current \<noteq> []
      then updRetry r (\<lambda>x. x\<lparr>rt_dispatchExecutionID := ct_taskExecutionId current,
                            rt_recordedExecutionID := ct_taskExecutionId current\<rparr>) c
      else c)"

text \<open>The loop of \<open>retryTask.Await\<close>: it leaves the retry task finished.\<close>

fun retryLoop :: "nat \<Rightarrow> engine \<Rightarrow> next_event \<Rightarrow> nat \<Rightarrow> WorkflowContext \<Rightarrow> unit run" where
  "retryLoop k en next r c =
     (if rt_finished (wc_retries c ! r) then Done () c
      else case k of
             0 \<Rightarrow> OutOfFuel
           | Suc k' \<Rightarrow>
               bind_run (task_Await next (rt_current (wc_retries c ! r)) None c) (\<lambda>errOpt c1.
                 let rt = wc_retries c1 ! r; current = wc_tasks c1 ! rt_current rt
                 in case errOpt of
                      None \<Rightarrow> Done () (updRetry r (\<lambda>x. x\<lparr>rt_finished := True\<rparr>) c1)
                    | Some err \<Rightarrow>
                        if \<not> ct_isCompleted current then Done () (finishRetry r (Some err) c1)
                        else
                          let c2 = noteExecutionID r current c1;
                              delay = computeNextDelay en (wc_CurrentTimeUtc c2) (rt_policy rt) (rt_retryCount rt)
                                        (rt_initialAttempt rt) err
                          in if rt_retryCount rt + 1 \<ge> rp_MaxAttempts (rt_policy rt) then Done () (finishRetry r (Some err) c2)
                             else if delay = 0 then Done () (finishRetry r (Some err) c2)
                             else
                               let (timer, action, c3) = createTimerInternal (Some (rt_name rt)) delay c2;
                                   c4 = setTimerOrigin (rt_schedule rt) action
                                          (rt_dispatchExecutionID (wc_retries c3 ! r)) c3
                               in bind_run (task_Await next timer None c4) (\<lambda>timerErr c5.
                                    case timerErr of
                                      Some te \<Rightarrow> Done () (finishRetry r (Some (Wrapped (en_Error en te) err)) c5)
                                    | None \<Rightarrow>
                                        let c6 = updRetry r (\<lambda>x. x\<lparr>rt_retryCount := rt_retryCount x + 1\<rparr>) c5;
                                            (t, c7) = retrySchedule (rt_schedule rt) (rt_dispatchExecutionID (wc_retries c6 ! r)) True c6
                                        in retryLoop k' en next r (updRetry r (\<lambda>x. x\<lparr>rt_current := t\<rparr>) c7))))"

definition retry_Await ::
  "engine \<Rightarrow> next_event \<Rightarrow> nat \<Rightarrow> (string \<Rightarrow> error option) option \<Rightarrow> WorkflowContext \<Rightarrow> error option run" where
  "retry_Await en next r decode c =
     (let rt = wc_retries c ! r
      in bind_run (retryLoop (Suc (nat (rp_MaxAttempts (rt_policy rt) - rt_retryCount rt))) en next r c) (\<lambda>_ c1.
           case rt_terminalError (wc_retries c1 ! r) of
             Some err \<Rightarrow> Done (Some err) c1
           | None \<Rightarrow> task_Await next (rt_current (wc_retries c1 ! r)) decode c1))"

text \<open>\<open>taskWrapper.Await\<close>; the answer of the last attempt's task is what the caller reads.\<close>

fun legacyLoop ::
  "nat \<Rightarrow> engine \<Rightarrow> next_event \<Rightarrow> taskWrapper \<Rightarrow> (string \<Rightarrow> error option) option \<Rightarrow> WorkflowContext
    \<Rightarrow> (error option \<times> nat) run" where
  "legacyLoop k en next w decode c =
     bind_run (task_Await next (tw_delegate w) decode c) (\<lambda>errOpt c1.
       let taskExecutionId = ct_taskExecutionId (wc_tasks c1 ! tw_delegate w)
       in case errOpt of
            None \<Rightarrow> Done (None, tw_delegate w) c1
          | Some err \<Rightarrow>
              let delay = computeNextDelay en (wc_CurrentTimeUtc c1) (tw_policy w) (tw_retryCount w) (tw_initialAttempt w) err
              in if tw_retryCount w + 1 \<ge> rp_MaxAttempts (tw_policy w) then Done (Some err, tw_delegate w) c1
                 else if delay = 0 then Done (Some err, tw_delegate w) c1
                 else
                   let (timer, action, c2) = createTimerInternal (Some (tw_name w)) delay c1;
                       c3 = setTimerOrigin (tw_schedule w) action taskExecutionId c2
                   in bind_run (task_Await next timer None c3) (\<lambda>timerErr c4.
                        case timerErr of
                          Some te \<Rightarrow> Done (Some (Wrapped (en_Error en te) err), tw_delegate w) c4
                        | None \<Rightarrow>
                            (case k of
                               0 \<Rightarrow> OutOfFuel
                             | Suc k' \<Rightarrow>
                                 let (t, c5) = retrySchedule (tw_schedule w) taskExecutionId (tw_retryCount w + 1 > 0) c4
                                 in legacyLoop k' en next (w\<lparr>tw_delegate := t, tw_retryCount := tw_retryCount w + 1\<rparr>) decode c5)))"

definition legacy_Await ::
  "engine \<Rightarrow> next_event \<Rightarrow> taskWrapper \<Rightarrow> (string \<Rightarrow> error option) option \<Rightarrow> WorkflowContext
    \<Rightarrow> (error option \<times> nat) run" where
  "legacy_Await en next w decode c =
     legacyLoop (nat (rp_MaxAttempts (tw_policy w) - tw_retryCount w)) en next w decode c"

section \<open>Calls\<close>

text \<open>Awaiting any kind of task: the error, and the raw result that a successful decoding read.\<close>

definition awaitTask ::
  "engine \<Rightarrow> next_event \<Rightarrow> Task \<Rightarrow> (string \<Rightarrow> error option) option \<Rightarrow> WorkflowContext \<Rightarrow> answer run" where
  "awaitTask en next task decode c =
     (let reply = (\<lambda>err t c1. Done (AnswerAwait err (if err = None then ct_rawResult (wc_tasks c1 ! t) else [])) c1)
      in case task of
           TaskCompletable t \<Rightarrow> bind_run (task_Await next t decode c) (\<lambda>err c1. reply err t c1)
         | TaskRetry r \<Rightarrow>
             bind_run (retry_Await en next r decode c) (\<lambda>err c1. reply err (rt_current (wc_retries c1 ! r)) c1)
         | TaskWrapper w \<Rightarrow> bind_run (legacy_Await en next w decode c) (\<lambda>(err, t) c1. reply err t c1))"

definition TaskExecutionId :: "Task \<Rightarrow> WorkflowContext \<Rightarrow> string" where
  "TaskExecutionId task c =
     (case task of
        TaskCompletable t \<Rightarrow> ct_taskExecutionId (wc_tasks c ! t)
      | TaskRetry r \<Rightarrow>
          let rt = wc_retries c ! r; i = ct_taskExecutionId (wc_tasks c ! rt_current rt)
          in if i \<noteq> [] then i else rt_recordedExecutionID rt
      | TaskWrapper w \<Rightarrow> ct_taskExecutionId (wc_tasks c ! tw_delegate w))"

definition newUUID :: "engine \<Rightarrow> WorkflowContext \<Rightarrow> string \<times> WorkflowContext" where
  "newUUID en c = (en_uuid en (wc_uuids c), c\<lparr>wc_uuids := Suc (wc_uuids c)\<rparr>)"

definition retryChainPatch :: string where
  "retryChainPatch = ''durabletask-go/retry-chain-v1''"

definition internalScheduleTaskWithRetries ::
  "string \<Rightarrow> int \<Rightarrow> retryCall \<Rightarrow> RetryPolicy \<Rightarrow> string \<Rightarrow> WorkflowContext \<Rightarrow> Task \<times> WorkflowContext" where
  "internalScheduleTaskWithRetries name initialAttempt rc policy taskExecutionId c =
     (let (patched, c1) = (case map_of (wc_appliedPatches c) retryChainPatch of
              Some p \<Rightarrow> (p, c)
            | None \<Rightarrow> IsPatched retryChainPatch c);
          (t, c2) = retrySchedule rc taskExecutionId False c1
      in if patched
         then (TaskRetry (length (wc_retries c2)),
               c2\<lparr>wc_retries := wc_retries c2 @
                   [\<lparr>rt_name = name, rt_initialAttempt = initialAttempt, rt_schedule = rc, rt_policy = policy,
                     rt_current = t, rt_dispatchExecutionID = taskExecutionId, rt_recordedExecutionID = [],
                     rt_retryCount = 0, rt_finished = False, rt_terminalError = None\<rparr>]\<rparr>)
         else (TaskWrapper \<lparr>tw_delegate = t, tw_name = name, tw_initialAttempt = initialAttempt, tw_schedule = rc,
                 tw_policy = policy, tw_retryCount = 0\<rparr>, c2))"

definition ctx_CallActivity ::
  "engine \<Rightarrow> string \<Rightarrow> CallActivityOption list \<Rightarrow> WorkflowContext \<Rightarrow> Task \<times> WorkflowContext" where
  "ctx_CallActivity en activityName opts c =
     (case applyOptions opts newCallActivityOptions of
        Inl err \<Rightarrow> failedTask (en_typeOf en err) (en_Error en err) c
      | Inr options \<Rightarrow>
          if namespaceWithoutApp (cao_targetAppID options) (cao_targetAppNamespace options)
          then failedTask ''InvalidActivityOptions'' ''WithActivityAppNamespace requires WithActivityAppID to also be set'' c
          else
            let (uuid, c1) = newUUID en c
            in case cao_retryPolicy options of
                 Some policy \<Rightarrow>
                   internalScheduleTaskWithRetries (activityName @ ''-retry'') (wc_CurrentTimeUtc c)
                     (RetryActivity activityName options) policy uuid c1
               | None \<Rightarrow>
                   (case internalScheduleActivity activityName uuid options c1 of (t, c2) \<Rightarrow> (TaskCompletable t, c2)))"

text \<open>The execution id in the history: the first start event of the new events, else of the old ones.\<close>

definition historyExecutionID :: "WorkflowContext \<Rightarrow> string" where
  "historyExecutionID c =
     (case find_first GetExecutionStarted (wc_newEvents c) of
        Some es \<Rightarrow> GetValue (es_executionId es)
      | None \<Rightarrow>
          (case find_first GetExecutionStarted (wc_oldEvents c) of
             Some es \<Rightarrow> GetValue (es_executionId es)
           | None \<Rightarrow> []))"

definition ctx_CallChildWorkflow ::
  "engine \<Rightarrow> string \<Rightarrow> ChildWorkflowOption list \<Rightarrow> WorkflowContext \<Rightarrow> Task \<times> WorkflowContext" where
  "ctx_CallChildWorkflow en workflowName opts c =
     (case applyOptions opts newCallChildWorkflowOptions of
        Inl err \<Rightarrow> failedTask (en_typeOf en err) (en_Error en err) c
      | Inr options \<Rightarrow>
          if namespaceWithoutApp (cco_targetAppID options) (cco_targetAppNamespace options)
          then failedTask ''InvalidChildWorkflowOptions''
                 ''WithChildWorkflowAppNamespace requires WithChildWorkflowAppID to also be set'' c
          else case cco_retryPolicy options of
                 Some policy \<Rightarrow>
                   let firstInstanceID = (if cco_instanceID options = []
                         then GenerateChildWorkflowInstanceIDForExecution (en_lib en) (wc_ID c)
                                (historyExecutionID c) (wc_sequenceNumber c)
                         else cco_instanceID options);
                       f = length (wc_firsts c);
                       (uuid, c1) = newUUID en (c\<lparr>wc_firsts := wc_firsts c @ [(None, firstInstanceID)]\<rparr>)
                   in internalScheduleTaskWithRetries (workflowName @ ''-retry'') (wc_CurrentTimeUtc c)
                        (RetryChild workflowName options f) policy uuid c1
               | None \<Rightarrow>
                   (case internalCallChildWorkflow workflowName options None c of (t, c1) \<Rightarrow> (TaskCompletable t, c1)))"

text \<open>A handle that no call handed out is a nil pointer.\<close>

definition validTask :: "Task \<Rightarrow> WorkflowContext \<Rightarrow> bool" where
  "validTask task c =
     (case task of
        TaskCompletable t \<Rightarrow> t < length (wc_tasks c)
      | TaskRetry r \<Rightarrow> r < length (wc_retries c)
      | TaskWrapper w \<Rightarrow> tw_delegate w < length (wc_tasks c))"

definition readContext :: "WorkflowContext \<Rightarrow> view" where
  "readContext c =
     \<lparr>vw_ID = wc_ID c, vw_Name = wc_Name c, vw_VersionName = wc_VersionName c, vw_IsReplaying = wc_IsReplaying c,
      vw_CurrentTimeUtc = wc_CurrentTimeUtc c, vw_rawInput = wc_rawInput c,
      vw_propagatedHistory = wc_propagatedHistory c\<rparr>"

definition perform :: "engine \<Rightarrow> next_event \<Rightarrow> call \<Rightarrow> WorkflowContext \<Rightarrow> answer run" where
  "perform en next x c =
     (case x of
        CallActivity name opts \<Rightarrow> (case ctx_CallActivity en name opts c of (t, c1) \<Rightarrow> Done (AnswerTask t) c1)
      | CallChildWorkflow name opts \<Rightarrow> (case ctx_CallChildWorkflow en name opts c of (t, c1) \<Rightarrow> Done (AnswerTask t) c1)
      | CallCreateTimer opts delay \<Rightarrow> (case ctx_CreateTimer en opts delay c of (t, c1) \<Rightarrow> Done (AnswerTask t) c1)
      | CallWaitForSingleEvent name timeout \<Rightarrow>
          (case WaitForSingleEvent en name timeout c of (t, c1) \<Rightarrow> Done (AnswerTask t) c1)
      | CallScheduleNewWorkflow name opts \<Rightarrow>
          (case ScheduleNewWorkflow name opts c of (r, c1) \<Rightarrow> Done (AnswerInstance r) c1)
      | CallAwait t decode \<Rightarrow>
          if validTask t c then awaitTask en next t decode c else Panicked ''nil pointer dereference'' c
      | CallTaskExecutionId t \<Rightarrow>
          if validTask t c then Done (AnswerString (TaskExecutionId t c)) c else Panicked ''nil pointer dereference'' c
      | CallIsPatched name \<Rightarrow> (case IsPatched name c of (b, c1) \<Rightarrow> Done (AnswerBool b) c1)
      | CallContinueAsNew input keep \<Rightarrow> Done AnswerUnit (ctx_ContinueAsNew input keep c)
      | CallSetCustomStatus s \<Rightarrow> Done AnswerUnit (c\<lparr>wc_customStatus := s\<rparr>)
      | CallReadContext \<Rightarrow> Done (AnswerView (readContext c)) c)"

primrec runWorkflow :: "engine \<Rightarrow> next_event \<Rightarrow> Workflow \<Rightarrow> WorkflowContext \<Rightarrow> (any \<times> error option) run" where
  "runWorkflow en next (Return output err) = (\<lambda>c. Done (output, err) c)"
| "runWorkflow en next (Panic p) = (\<lambda>c. Panicked p c)"
| "runWorkflow en next (Call x k) = (\<lambda>c. bind_run (perform en next x c) (\<lambda>a c1. runWorkflow en next (k a) c1))"

section \<open>Processing events\<close>

definition getNextHistoryEvent :: "WorkflowContext \<Rightarrow> (HistoryEvent \<times> WorkflowContext) option" where
  "getNextHistoryEvent c =
     (if wc_historyIndex c \<ge> length (wc_oldEvents c) + length (wc_newEvents c) then None
      else if wc_historyIndex c < length (wc_oldEvents c)
      then Some (wc_oldEvents c ! wc_historyIndex c,
                 c\<lparr>wc_IsReplaying := True, wc_historyIndex := Suc (wc_historyIndex c)\<rparr>)
      else Some (wc_newEvents c ! (wc_historyIndex c - length (wc_oldEvents c)),
                 c\<lparr>wc_IsReplaying := False, wc_historyIndex := Suc (wc_historyIndex c)\<rparr>))"

definition processNextEvent :: "(HistoryEvent \<Rightarrow> WorkflowContext \<Rightarrow> error option run) \<Rightarrow> next_event" where
  "processNextEvent pe c =
     (case getNextHistoryEvent c of
        None \<Rightarrow> Done (False, None) c
      | Some (e, c1) \<Rightarrow> bind_run (pe e c1) (\<lambda>err c2. Done (True, err) c2))"

definition onWorkflowStarted :: "HistoryEvent \<Rightarrow> WorkflowVersion option \<Rightarrow> WorkflowContext \<Rightarrow> WorkflowContext" where
  "onWorkflowStarted e version c =
     (let c1 = c\<lparr>wc_CurrentTimeUtc := AsTime (he_Timestamp e)\<rparr>
      in case version of
           None \<Rightarrow> c1
         | Some v \<Rightarrow>
             c1\<lparr>wc_historyPatches := wc_historyPatches c1 @ wv_Patches v,
                wc_VersionName := (case wv_Name v of None \<Rightarrow> wc_VersionName c1 | Some n \<Rightarrow> Some n)\<rparr>)"

definition getWorkflow ::
  "(Workflow, 'a) TaskRegistry \<Rightarrow> ExecutionStartedEvent \<Rightarrow> WorkflowContext \<Rightarrow> error + Workflow \<times> WorkflowContext" where
  "getWorkflow reg es c =
     (case ResolveWorkflow (es_Name es) (wc_VersionName c) reg of
        Inl err \<Rightarrow> Inl err
      | Inr (w, version) \<Rightarrow>
          Inr (w, case version of None \<Rightarrow> c | Some v \<Rightarrow> c\<lparr>wc_VersionName := Some v\<rparr>))"

text \<open>What follows the return of the workflow function.\<close>

definition finishWorkflow :: "engine \<Rightarrow> any \<Rightarrow> error option \<Rightarrow> WorkflowContext \<Rightarrow> WorkflowContext" where
  "finishWorkflow en output appError c =
     (case appError of
        Some err \<Rightarrow> setFailed en err c
      | None \<Rightarrow>
          (case (if wc_continuedAsNew c then setContinuedAsNew c else setComplete output c) of
             (None, c1) \<Rightarrow> c1
           | (Some err, c1) \<Rightarrow> setFailed en (Wrapped ''failed to complete the workflow'' err) c1))"

definition onExecutionStarted ::
  "engine \<Rightarrow> (Workflow, 'a) TaskRegistry \<Rightarrow> next_event \<Rightarrow> ExecutionStartedEvent \<Rightarrow> WorkflowContext \<Rightarrow> error option run" where
  "onExecutionStarted en reg next es c =
     (case getWorkflow reg es c of
        Inl err \<Rightarrow> Done (Some err) c
      | Inr (w, c1) \<Rightarrow>
          let c2 = c1\<lparr>wc_Name := es_Name es,
                      wc_rawInput := (case es_Input es of None \<Rightarrow> wc_rawInput c1 | Some i \<Rightarrow> i)\<rparr>
          in bind_run (runWorkflow en next w c2) (\<lambda>(output, appError) c3.
               Done None (finishWorkflow en output appError c3)))"

text \<open>The buffered events, processed until the first error.\<close>

fun processAll ::
  "(HistoryEvent \<Rightarrow> WorkflowContext \<Rightarrow> error option run) \<Rightarrow> HistoryEvent list \<Rightarrow> WorkflowContext \<Rightarrow> error option run" where
  "processAll pe [] c = Done None c"
| "processAll pe (e # es) c =
     bind_run (pe e c) (\<lambda>err c1. case err of Some x \<Rightarrow> Done (Some x) c1 | None \<Rightarrow> processAll pe es c1)"

definition onExecutionResumed ::
  "(HistoryEvent \<Rightarrow> WorkflowContext \<Rightarrow> error option run) \<Rightarrow> WorkflowContext \<Rightarrow> error option run" where
  "onExecutionResumed pe c =
     (let c1 = c\<lparr>wc_isSuspended := False\<rparr>
      in bind_run (processAll pe (wc_suspendedEvents c1) c1) (\<lambda>err c2.
           case err of
             Some x \<Rightarrow> Done (Some x) c2
           | None \<Rightarrow> Done None (c2\<lparr>wc_suspendedEvents := []\<rparr>)))"

definition isResumeOrTerminate :: "HistoryEvent \<Rightarrow> bool" where
  "isResumeOrTerminate e =
     (case he_EventType e of ExecutionResumed _ \<Rightarrow> True | ExecutionTerminated _ \<Rightarrow> True | _ \<Rightarrow> False)"

primrec processEvent ::
  "nat \<Rightarrow> engine \<Rightarrow> (Workflow, 'a) TaskRegistry \<Rightarrow> HistoryEvent \<Rightarrow> WorkflowContext \<Rightarrow> error option run" where
  "processEvent 0 en reg e c = OutOfFuel"
| "processEvent (Suc n) en reg e c =
     (if wc_isTerminated c then Done None c
      else if wc_isSuspended c \<and> \<not> isResumeOrTerminate e
      then Done None (c\<lparr>wc_suspendedEvents := wc_suspendedEvents c @ [e]\<rparr>)
      else case he_EventType e of
          WorkflowStarted version \<Rightarrow> Done None (onWorkflowStarted e version c)
        | ExecutionStarted es \<Rightarrow> onExecutionStarted en reg (processNextEvent (processEvent n en reg)) es c
        | TaskScheduled ts \<Rightarrow> (case onTaskScheduled (he_EventId e) ts c of (err, c1) \<Rightarrow> Done err c1)
        | TaskCompleted tc \<Rightarrow> Done None (onTaskCompleted tc c)
        | TaskFailed tf \<Rightarrow> Done None (onTaskFailed tf c)
        | ChildWorkflowInstanceCreated ts \<Rightarrow>
            (case onChildWorkflowScheduled (he_EventId e) ts c of (err, c1) \<Rightarrow> Done err c1)
        | ChildWorkflowInstanceCompleted sc \<Rightarrow> Done None (onChildWorkflowCompleted sc c)
        | ChildWorkflowInstanceFailed sf \<Rightarrow> Done None (onChildWorkflowFailed sf c)
        | DetachedWorkflowInstanceCreated iid \<Rightarrow>
            (case onDetachedWorkflowCreated (he_EventId e) iid c of (err, c1) \<Rightarrow> Done err c1)
        | TimerCreated tc \<Rightarrow> (case onTimerCreated (he_EventId e) tc c of (err, c1) \<Rightarrow> Done err c1)
        | TimerFired tf \<Rightarrow> Done None (onTimerFired tf c)
        | EventRaised er \<Rightarrow> Done None (onExternalEventRaised en e er c)
        | ExecutionSuspended _ \<Rightarrow> Done None (c\<lparr>wc_isSuspended := True\<rparr>)
        | ExecutionResumed _ \<Rightarrow> onExecutionResumed (processEvent n en reg) c
        | ExecutionTerminated et \<Rightarrow> Done None (onExecutionTerminated en et c)
        | ExecutionStalled _ \<Rightarrow> Done None c
        | WorkflowCompleted \<Rightarrow> Done None c
        | _ \<Rightarrow> Done (Some (ErrorString ''don't know how to handle event'')) c)"

section \<open>A turn\<close>

text \<open>The loop of \<open>start\<close>; a panic \<open>ErrTaskBlocked\<close> ends it in the same way as the end of the history.\<close>

fun startLoop :: "nat \<Rightarrow> engine \<Rightarrow> next_event \<Rightarrow> WorkflowContext \<Rightarrow> unit run" where
  "startLoop 0 en next c = OutOfFuel"
| "startLoop (Suc m) en next c =
     bind_run (next c) (\<lambda>(ok, err) c1.
       case err of
         Some e \<Rightarrow> Done () (if e = UnsupportedVersionError then setVersionNotRegistered c1 else setFailed en e c1)
       | None \<Rightarrow> if \<not> ok then Done () c1 else startLoop m en next c1)"

definition resetContext :: "WorkflowContext \<Rightarrow> WorkflowContext" where
  "resetContext c = c\<lparr>wc_historyIndex := 0, wc_sequenceNumber := 0, wc_defaultDetachedWorkflowCounter := 0,
     wc_pendingActions := [], wc_pendingTasks := [], wc_bufferedResolutions := [], wc_resolvedResolutions := [],
     wc_optionalTimerIDs := []\<rparr>"

definition nestingBound :: "WorkflowContext \<Rightarrow> nat" where
  "nestingBound c = 2 * remaining c + 2"

definition runTurns :: "engine \<Rightarrow> (Workflow, 'a) TaskRegistry \<Rightarrow> WorkflowContext \<Rightarrow> unit run" where
  "runTurns en reg c =
     (let c0 = resetContext c
      in startLoop (Suc (remaining c0)) en (processNextEvent (processEvent (nestingBound c0) en reg)) c0)"

text \<open>The actions and the context after the turn, or the value of another panic.\<close>

definition start ::
  "engine \<Rightarrow> (Workflow, 'a) TaskRegistry \<Rightarrow> WorkflowContext \<Rightarrow> (string + WorkflowAction list \<times> WorkflowContext) option" where
  "start en reg c =
     (case runTurns en reg c of
        Done _ c1 \<Rightarrow> Some (Inr (ctx_actions en c1, c1))
      | Blocked c1 \<Rightarrow> Some (Inr (ctx_actions en c1, c1))
      | Panicked p c1 \<Rightarrow> Some (Inl p)
      | OutOfFuel \<Rightarrow> None)"

section \<open>The in-process executor (task/executor.go)\<close>

text \<open>
  What the executor of \<open>NewTaskExecutor\<close> returns for a workflow turn: an error or a response. A
  panic of the workflow function that is not \<open>ErrTaskBlocked\<close> leaves the executor as a panic.
\<close>

datatype 'r execution = Returned "error + 'r" | Crashed string

definition SetPropagatedHistory :: "api_PropagatedHistory option \<Rightarrow> WorkflowContext \<Rightarrow> WorkflowContext" where
  "SetPropagatedHistory ph c = c\<lparr>wc_propagatedHistory := ph\<rparr>"

definition workflowResponse :: "InstanceID \<Rightarrow> WorkflowAction list \<Rightarrow> WorkflowContext \<Rightarrow> WorkflowResponse" where
  "workflowResponse iid actions c =
     \<lparr>wfr_InstanceId = iid, wfr_Actions = actions, wfr_CustomStatus = Some (wc_customStatus c), wfr_CompletionToken = [],
      wfr_Version =
        (if wc_encounteredPatches c = [] \<and> wc_VersionName c = None then None
         else Some \<lparr>wv_Patches = wc_encounteredPatches c, wv_Name = wc_VersionName c\<rparr>)\<rparr>"

definition ExecuteWorkflow ::
  "engine \<Rightarrow> (Workflow, 'a) TaskRegistry \<Rightarrow> InstanceID \<Rightarrow> HistoryEvent list \<Rightarrow> HistoryEvent list
    \<Rightarrow> PropagatedHistory option \<Rightarrow> WorkflowResponse execution option" where
  "ExecuteWorkflow en reg iid oldEvents newEvents propagated =
     (let c = NewWorkflowContext iid oldEvents newEvents;
          prepared = (if propagated = None then Inr c
            else (case PropagatedHistoryFromProto (en_lib en) propagated of
                    Inl err \<Rightarrow> Inl (Wrapped ''invalid propagated history'' err)
                  | Inr ph \<Rightarrow> Inr (SetPropagatedHistory ph c)))
      in case prepared of
           Inl err \<Rightarrow> Some (Returned (Inl err))
         | Inr c1 \<Rightarrow>
             (case start en reg c1 of
                None \<Rightarrow> None
              | Some (Inl p) \<Rightarrow> Some (Crashed p)
              | Some (Inr (actions, c2)) \<Rightarrow> Some (Returned (Inr (workflowResponse iid actions c2)))))"

record activityContext =
  ac_TaskID :: int32
  ac_TaskExecutionID :: string
  ac_Name :: string
  ac_TraceContext :: "TraceContext option"
  ac_rawInput :: string
  ac_propagatedHistory :: "api_PropagatedHistory option"

definition newTaskActivityContext ::
  "int32 \<Rightarrow> TaskScheduledEvent \<Rightarrow> api_PropagatedHistory option \<Rightarrow> activityContext" where
  "newTaskActivityContext taskID ts ph =
     \<lparr>ac_TaskID = taskID, ac_TaskExecutionID = ts_TaskExecutionId ts, ac_Name = ts_Name ts,
      ac_TraceContext = ts_ParentTraceContext ts, ac_rawInput = GetValue (ts_Input ts), ac_propagatedHistory = ph\<rparr>"

text \<open>An activity function returns a value and an error, or panics.\<close>

datatype activityOutcome = ActivityReturns any "error option" | ActivityPanics string

type_synonym Activity = "activityContext \<Rightarrow> activityOutcome"

definition taskFailedEvent :: "int \<Rightarrow> int32 \<Rightarrow> TaskScheduledEvent \<Rightarrow> string \<Rightarrow> string \<Rightarrow> HistoryEvent" where
  "taskFailedEvent now taskID ts errorType errorMessage =
     mkEvent (-1) now (TaskFailed \<lparr>tf_TaskScheduledId = taskID,
       tf_FailureDetails = Some (TaskFailureDetails errorType errorMessage None None False),
       tf_TaskExecutionId = ts_TaskExecutionId ts\<rparr>) None"

definition ExecuteActivity ::
  "engine \<Rightarrow> int \<Rightarrow> ('w, Activity) TaskRegistry \<Rightarrow> HistoryEvent \<Rightarrow> PropagatedHistory option \<Rightarrow> error + HistoryEvent" where
  "ExecuteActivity en now reg e propagated =
     (case GetTaskScheduled e of
        None \<Rightarrow> Inl (ErrorString ''Unexpected event type for ExecuteActivity'')
      | Some ts \<Rightarrow>
          (case (case getActivity (ts_Name ts) reg of Some a \<Rightarrow> Some a | None \<Rightarrow> getActivity ''*'' reg) of
             None \<Rightarrow> Inr (taskFailedEvent now (he_EventId e) ts ''TaskActivityNotRegistered''
                      (''no task activity named '' @ quoted (ts_Name ts) @ '' was registered''))
           | Some invoker \<Rightarrow>
               (case PropagatedHistoryFromProto (en_lib en) propagated of
                  Inl err \<Rightarrow> Inr (taskFailedEvent now (he_EventId e) ts ''InvalidPropagatedHistory'' (en_Error en err))
                | Inr ph \<Rightarrow>
                    (case invoker (newTaskActivityContext (he_EventId e) ts ph) of
                       ActivityPanics p \<Rightarrow> Inr (taskFailedEvent now (he_EventId e) ts ''TaskActivityPanic'' (''panic: '' @ p))
                     | ActivityReturns result (Some err) \<Rightarrow>
                         Inr (taskFailedEvent now (he_EventId e) ts (en_typeOf en err) (en_Error en err))
                     | ActivityReturns result None \<Rightarrow>
                         (case marshalData result of
                            Inl err \<Rightarrow> Inr (taskFailedEvent now (he_EventId e) ts (en_typeOf en err) (en_Error en err))
                          | Inr bytes \<Rightarrow>
                              Inr (mkEvent (-1) now (TaskCompleted \<lparr>tcd_TaskScheduledId = he_EventId e,
                                tcd_Result = (if bytes = [] then None else Some bytes),
                                tcd_TaskExecutionId = ts_TaskExecutionId ts\<rparr>) None))))))"

end
