(* ===== verification/ReplayFacts.thy ===== *)
theory ReplayFacts
  imports ReplayRun
begin

text \<open>
  Facts about the replay engine: what the operations leave alone, that runs of the engine end within
  the bounds given to them, that the engine does not depend on where the history is split into old
  and new events, and what happens after a termination.
\<close>

section \<open>Frames\<close>

text \<open>The part of the context that only the processing of events and the retry loops change.\<close>

definition hist ::
  "WorkflowContext \<Rightarrow> HistoryEvent list \<times> HistoryEvent list \<times> nat \<times> HistoryEvent list \<times> bool \<times> bool \<times> retryTask list" where
  "hist c = (wc_oldEvents c, wc_newEvents c, wc_historyIndex c, wc_suspendedEvents c, wc_isSuspended c,
     wc_isTerminated c, wc_retries c)"

lemma hist_upds [simp]:
  "hist (updTask t f c) = hist c" "hist (updAction a g c) = hist c"
  "hist (restoreActivityScheduleIdentity i x c) = hist c" "hist (markResolved k i c) = hist c"
  "hist (bufferResolution key r c) = hist c" "hist (snd (newTask c)) = hist c"
  "hist (deletePendingAction i c) = hist c" "hist (setOrigin a ori c) = hist c"
  "hist (shiftAction i c) = hist c" "hist (shiftTask i c) = hist c"
  by (simp_all add: hist_def updTask_def updAction_def restoreActivityScheduleIdentity_def markResolved_def
      bufferResolution_def newTask_def deletePendingAction_def setOrigin_def shiftAction_def shiftTask_def Let_def
      split: option.split)

lemma hist_runCallback [simp]: "hist (runCallback cb c) = hist c"
  by (simp add: runCallback_def Let_def updTask_def hist_def)

lemma hist_complete [simp]:
  "hist (completeInternal t c) = hist c" "hist (task_complete t raw c) = hist c"
  "hist (task_fail t fd c) = hist c" "hist (task_cancel t c) = hist c" "hist (task_onCompleted t cb c) = hist c"
  by (simp_all add: completeInternal_def task_complete_def task_fail_def task_cancel_def task_onCompleted_def Let_def
      split: option.split)

lemma hist_resolutions [simp]:
  "hist (onTaskCompleted tc c) = hist c" "hist (onTaskFailed tf c) = hist c"
  "hist (onChildWorkflowCompleted soc c) = hist c" "hist (onChildWorkflowFailed sof c) = hist c"
  "hist (onTimerFired tmf c) = hist c"
  by (simp_all add: onTaskCompleted_def onTaskFailed_def onChildWorkflowCompleted_def onChildWorkflowFailed_def
      onTimerFired_def Let_def split: option.split)

lemma hist_redeliver [simp]: "hist (redeliver r c) = hist c"
  by (cases r) (simp_all add: redeliver_def)

lemma hist_consume [simp]: "hist (consumeBufferedResolution kind i c) = hist c"
proof -
  have "hist (c\<lparr>wc_bufferedResolutions := m\<rparr>) = hist c" for m by (simp add: hist_def)
  then show ?thesis by (simp add: consumeBufferedResolution_def split: option.split)
qed

lemma hist_consumeFor [simp]: "hist (consumeFor is c) = hist c"
  by (induction "is" arbitrary: c) (simp_all split: option.split)

lemma hist_consumeReady [simp]: "hist (consumeReadyBufferedResolutions c) = hist c"
  by (simp add: consumeReadyBufferedResolutions_def)

lemma hist_folds [simp]:
  "hist (fold shiftAction is c) = hist c" "hist (fold shiftTask is c) = hist c"
  by (induction "is" arbitrary: c) simp_all

lemma hist_drop [simp]: "hist (snd (dropOptionalExternalEventTimerAt i c)) = hist c"
proof -
  have "hist (c\<lparr>wc_pendingActions := a, wc_pendingTasks := b, wc_optionalTimerIDs := d\<rparr>) = hist c" for a b d
    by (simp add: hist_def)
  moreover have "hist (d\<lparr>wc_sequenceNumber := s\<rparr>) = hist d" for d s by (simp add: hist_def)
  ultimately show ?thesis
    by (simp add: dropOptionalExternalEventTimerAt_def Let_def split: option.split)
qed

lemma hist_dropAll [simp]: "hist (dropOptionalTimers i c) = hist c"
proof (induction i c rule: dropOptionalTimers.induct)
  case (1 i c)
  obtain b c' where r: "dropOptionalExternalEventTimerAt i c = (b, c')" by fastforce
  then have "hist c' = hist c" using hist_drop [of i c] by simp
  with 1 r show ?case by (cases b) (subst dropOptionalTimers.simps, simp)+
qed

declare dropOptionalTimers.simps [simp del]

lemma hist_schedulings [simp]:
  "hist (snd (onTaskScheduled i ts c)) = hist c" "hist (snd (onChildWorkflowScheduled i cs c)) = hist c"
  "hist (snd (onDetachedWorkflowCreated i iid c)) = hist c" "hist (snd (onTimerCreated i tc c)) = hist c"
proof -
  have o: "hist (d\<lparr>wc_optionalTimerIDs := x\<rparr>) = hist d" for d x by (simp add: hist_def)
  show "hist (snd (onTaskScheduled i ts c)) = hist c" "hist (snd (onChildWorkflowScheduled i cs c)) = hist c"
    "hist (snd (onDetachedWorkflowCreated i iid c)) = hist c" "hist (snd (onTimerCreated i tc c)) = hist c"
    by (simp_all add: onTaskScheduled_def onChildWorkflowScheduled_def onDetachedWorkflowCreated_def
        onTimerCreated_def Let_def o split: option.split)
qed

lemma hist_raised [simp]: "hist (onExternalEventRaised en e er c) = hist c"
proof -
  have "hist (c\<lparr>wc_lists := x\<rparr>) = hist c" "hist (c\<lparr>wc_pendingExternalEventTasks := y\<rparr>) = hist c"
    "hist (c\<lparr>wc_bufferedExternalEvents := z\<rparr>) = hist c" for x y z by (simp_all add: hist_def)
  then show ?thesis by (simp add: onExternalEventRaised_def Let_def split: option.split)
qed

lemma hist_addAction [simp]: "hist (snd (snd (addAction ty r c))) = hist c"
  by (simp add: addAction_def getNextSequenceNumber_def hist_def Let_def)

lemma hist_completions [simp]:
  "hist (setCompleteInternal r st fd c) = hist c" "hist (setFailed en err c) = hist c"
  "hist (snd (setComplete out c)) = hist c" "hist (snd (setContinuedAsNew c)) = hist c"
  "hist (setVersionNotRegistered c) = hist c"
  by (simp_all add: setCompleteInternal_def setFailed_def setComplete_def setContinuedAsNew_def setVersionNotRegistered_def
      split: option.split sum.split)

lemma hist_terminateScan [simp]: "hist (terminateScan as input c) = hist c"
  by (induction "as" input c rule: terminateScan.induct) (simp_all split: option.split)

lemma hist_registerTask [simp]: "hist (snd (registerTask kind ca i c)) = hist c"
proof -
  have "hist (d\<lparr>wc_pendingTasks := x\<rparr>) = hist d" for d x by (simp add: hist_def)
  then show ?thesis by (simp add: registerTask_def Let_def case_prod_beta)
qed

lemma hist_schedule [simp]:
  "hist (snd (internalScheduleActivity name x o1 c)) = hist c"
  "hist (snd (internalCallChildWorkflow name o2 rp c)) = hist c"
  "hist (snd (snd (createTimerInternal nm delay c))) = hist c"
  "hist (snd (createExternalEventTimerInternal name fireAt c)) = hist c"
proof -
  note h = hist_addAction hist_registerTask
  have o: "hist (d\<lparr>wc_optionalTimerIDs := x\<rparr>) = hist d" for d x by (simp add: hist_def)
  show "hist (snd (internalScheduleActivity name x o1 c)) = hist c"
    "hist (snd (internalCallChildWorkflow name o2 rp c)) = hist c"
    "hist (snd (snd (createTimerInternal nm delay c))) = hist c"
    "hist (snd (createExternalEventTimerInternal name fireAt c)) = hist c"
    using h
    by (simp_all add: internalScheduleActivity_def internalCallChildWorkflow_def createTimerInternal_def
        createExternalEventTimerInternal_def Let_def o case_prod_beta)
qed

lemma hist_retry [simp]:
  "hist (snd (retrySchedule rc x b c)) = hist c" "hist (setTimerOrigin rc a x c) = hist c"
proof -
  have f: "hist (d\<lparr>wc_firsts := y\<rparr>) = hist d" for d y by (simp add: hist_def)
  show "hist (snd (retrySchedule rc x b c)) = hist c" "hist (setTimerOrigin rc a x c) = hist c"
    by (simp_all add: retrySchedule_def setTimerOrigin_def Let_def case_prod_beta f split: retryCall.split)
qed

lemma hist_misc [simp]:
  "hist (snd (IsPatched p c)) = hist c" "hist (snd (isPatched p c)) = hist c" "hist (snd (newUUID en c)) = hist c"
  "hist (ctx_ContinueAsNew inp keep c) = hist c" "hist (c\<lparr>wc_customStatus := s\<rparr>) = hist c"
  "hist (snd (failedTask et msg c)) = hist c"
  by (simp_all add: IsPatched_def isPatched_def newUUID_def ctx_ContinueAsNew_def failedTask_def Let_def case_prod_beta
      split: option.split) (simp_all add: hist_def)

lemma hist_timers [simp]:
  "hist (snd (ctx_CreateTimer en opts delay c)) = hist c"
  by (simp add: ctx_CreateTimer_def case_prod_beta split: sum.split)

lemma hist_detached [simp]: "hist (snd (ScheduleNewWorkflow name opts c)) = hist c"
proof -
  have "hist (c\<lparr>wc_defaultDetachedWorkflowCounter := n\<rparr>) = hist c" for n by (simp add: hist_def)
  then show ?thesis by (auto simp: ScheduleNewWorkflow_def split: sum.splits option.splits if_splits)
qed

lemma hist_wait [simp]: "hist (snd (WaitForSingleEvent en name timeout c)) = hist c"
proof -
  have "hist (d\<lparr>wc_bufferedExternalEvents := x\<rparr>) = hist d" "hist (d\<lparr>wc_lists := y\<rparr>) = hist d"
    "hist (d\<lparr>wc_lists := y, wc_pendingExternalEventTasks := z\<rparr>) = hist d" for d x y z by (simp_all add: hist_def)
  then show ?thesis by (simp add: WaitForSingleEvent_def Let_def case_prod_beta split: option.split)
qed

section \<open>Runs end\<close>

definition susp_ok :: "WorkflowContext \<Rightarrow> bool" where
  "susp_ok c \<longleftrightarrow> (\<forall>e\<in>set (wc_suspendedEvents c). \<not> isResumeOrTerminate e)"

definition frame :: "WorkflowContext \<Rightarrow> WorkflowContext \<Rightarrow> bool" where
  "frame c c' \<longleftrightarrow>
     wc_oldEvents c' = wc_oldEvents c \<and> wc_newEvents c' = wc_newEvents c \<and> wc_historyIndex c \<le> wc_historyIndex c' \<and>
     (susp_ok c \<longrightarrow> susp_ok c') \<and> length (wc_retries c) \<le> length (wc_retries c') \<and>
     (\<forall>r < length (wc_retries c). rt_policy (wc_retries c' ! r) = rt_policy (wc_retries c ! r) \<and>
        rt_retryCount (wc_retries c ! r) \<le> rt_retryCount (wc_retries c' ! r))"

lemma frame_hist: "hist c' = hist c \<Longrightarrow> frame c c'"
  by (simp add: hist_def frame_def susp_ok_def)

lemma frame_refl [simp]: "frame c c"
  by (simp add: frame_hist)

lemma frame_trans: "frame c c1 \<Longrightarrow> frame c1 c2 \<Longrightarrow> frame c c2"
  unfolding frame_def by (auto dest: order_less_le_trans) (meson order_less_le_trans order_trans)+

lemma frame_remaining: "frame c c' \<Longrightarrow> remaining c' \<le> remaining c"
  by (simp add: frame_def remaining_def diff_le_mono2)

fun ends :: "'r run \<Rightarrow> WorkflowContext option" where
  "ends (Done x c) = Some c"
| "ends (Blocked c) = Some c"
| "ends (Panicked p c) = Some c"
| "ends OutOfFuel = None"

definition good :: "WorkflowContext \<Rightarrow> 'r run \<Rightarrow> bool" where
  "good c r \<longleftrightarrow> (\<exists>c'. ends r = Some c' \<and> frame c c')"

lemma good_simps [simp]:
  "good c (Done x c') \<longleftrightarrow> frame c c'" "good c (Blocked c') \<longleftrightarrow> frame c c'"
  "good c (Panicked p c') \<longleftrightarrow> frame c c'" "\<not> good c OutOfFuel"
  by (simp_all add: good_def)

lemma good_trans: "frame c c1 \<Longrightarrow> good c1 r \<Longrightarrow> good c r"
  using frame_trans by (fastforce simp: good_def)

lemma good_bind:
  assumes "good c r" and "\<And>x c'. r = Done x c' \<Longrightarrow> frame c c' \<Longrightarrow> good c' (f x c')"
  shows "good c (bind_run r f)"
  using assms by (cases r) (auto intro: good_trans)

definition next_ok :: "nat \<Rightarrow> next_event \<Rightarrow> bool" where
  "next_ok R nxt \<longleftrightarrow> (\<forall>c. susp_ok c \<longrightarrow> remaining c \<le> R \<longrightarrow> good c (nxt c) \<and>
     (\<forall>err c'. nxt c = Done (True, err) c' \<longrightarrow> remaining c' < remaining c))"

lemma next_okD:
  assumes "next_ok R nxt" "susp_ok c" "remaining c \<le> R"
  shows "good c (nxt c)" "nxt c = Done (True, err) c' \<Longrightarrow> remaining c' < remaining c"
  using assms by (auto simp: next_ok_def)

lemma frame_susp: "frame c c' \<Longrightarrow> susp_ok c \<Longrightarrow> susp_ok c'"
  by (simp add: frame_def)

declare awaitLoop.simps [simp del] retryLoop.simps [simp del] legacyLoop.simps [simp del]

lemma good_awaitLoop:
  assumes n: "next_ok R nxt"
  shows "susp_ok c \<Longrightarrow> remaining c \<le> R \<Longrightarrow> remaining c < m \<Longrightarrow> good c (awaitLoop m nxt t decode c)"
proof (induction m arbitrary: c)
  case (Suc m)
  show ?case
  proof (cases "ct_isCompleted (wc_tasks c ! t)")
    case False
    let ?f = "\<lambda>(ok, err) c1.
        case err of Some e \<Rightarrow> Done (Some e) c1 | None \<Rightarrow> if \<not> ok then Blocked c1 else awaitLoop m nxt t decode c1"
    have "good c (bind_run (nxt c) ?f)"
    proof (rule good_bind)
      show "good c (nxt c)" using next_okD(1) [OF n] Suc.prems by blast
      fix x c1 assume x: "nxt c = Done x c1" and fr: "frame c c1"
      obtain ok err where xe: "x = (ok, err)" by fastforce
      have "good c1 (awaitLoop m nxt t decode c1)" if "ok"
        using that Suc.IH [of c1] frame_susp [OF fr] frame_remaining [OF fr] next_okD(2) [OF n Suc.prems(1,2), of err c1] x xe Suc.prems
        by simp
      then show "good c1 (?f x c1)" by (auto simp: xe split: option.split)
    qed
    with False show ?thesis by (subst awaitLoop.simps) simp
  qed (subst awaitLoop.simps, simp)
qed simp



lemma good_task_Await:
  "next_ok R nxt \<Longrightarrow> susp_ok c \<Longrightarrow> remaining c \<le> R \<Longrightarrow> good c (task_Await nxt t decode c)"
  unfolding task_Await_def by (rule good_awaitLoop) auto

end
