(* ===== verification/ReplayEnds.thy ===== *)
theory ReplayEnds
  imports ReplayFacts
begin

text \<open>
  A turn of the replay engine ends: the bounds that \<open>start\<close> and the loops pass down are never reached.
  Awaiting consumes history events; a retried call consumes attempts; a nested run of workflow code or
  a replay of buffered events starts with fewer events left than the one around it.
\<close>

lemma frame_updRetry:
  assumes "\<And>x. rt_policy (f x) = rt_policy x \<and> rt_retryCount x \<le> rt_retryCount (f x)"
  shows "frame c (updRetry r f c)"
proof -
  have "rt_policy ((wc_retries c)[r := f (wc_retries c ! r)] ! q) = rt_policy (wc_retries c ! q) \<and>
      rt_retryCount (wc_retries c ! q) \<le> rt_retryCount ((wc_retries c)[r := f (wc_retries c ! r)] ! q)"
    if "q < length (wc_retries c)" for q
    using that assms by (cases "q = r") auto
  then show ?thesis by (simp add: frame_def updRetry_def susp_ok_def)
qed

lemma frame_finishRetry: "frame c (finishRetry r err c)"
  unfolding finishRetry_def by (rule frame_updRetry) simp

lemma frame_noteExecutionID: "frame c (noteExecutionID r t c)"
  by (simp add: noteExecutionID_def frame_updRetry)

text \<open>What a retried call has left.\<close>

definition attemptsLeft :: "nat \<Rightarrow> WorkflowContext \<Rightarrow> nat" where
  "attemptsLeft r c = nat (rp_MaxAttempts (rt_policy (wc_retries c ! r)) - rt_retryCount (wc_retries c ! r))"

lemma attemptsLeft_next:
  assumes "frame c c1" and "frame c1 c5" and "r < length (wc_retries c)"
    and "\<not> rt_retryCount (wc_retries c1 ! r) + 1 \<ge> rp_MaxAttempts (rt_policy (wc_retries c1 ! r))"
    and "hist c7 = hist (updRetry r (\<lambda>x. x\<lparr>rt_retryCount := rt_retryCount x + 1\<rparr>) c5)"
    and "attemptsLeft r c < Suc k"
  shows "attemptsLeft r (updRetry r (\<lambda>x. x\<lparr>rt_current := t\<rparr>) c7) < k"
proof -
  have len: "r < length (wc_retries c1)" "r < length (wc_retries c5)" "r < length (wc_retries c7)"
    using assms(1-3,5) by (auto simp: frame_def hist_def updRetry_def)
  have "wc_retries c7 = wc_retries (updRetry r (\<lambda>x. x\<lparr>rt_retryCount := rt_retryCount x + 1\<rparr>) c5)"
    using assms(5) by (simp add: hist_def)
  then have "rt_policy (wc_retries c7 ! r) = rt_policy (wc_retries c5 ! r)"
    "rt_retryCount (wc_retries c7 ! r) = rt_retryCount (wc_retries c5 ! r) + 1"
    using len by (simp_all add: updRetry_def)
  moreover have "rt_policy (wc_retries c5 ! r) = rt_policy (wc_retries c ! r)"
    "rt_policy (wc_retries c1 ! r) = rt_policy (wc_retries c ! r)"
    "rt_retryCount (wc_retries c ! r) \<le> rt_retryCount (wc_retries c1 ! r)"
    "rt_retryCount (wc_retries c1 ! r) \<le> rt_retryCount (wc_retries c5 ! r)"
    using assms(1-3) len by (auto simp: frame_def)
  ultimately show ?thesis
    using assms(4,6) len by (auto simp: attemptsLeft_def updRetry_def)
qed

lemma good_retryLoop:
  assumes n: "next_ok R nxt"
  shows "susp_ok c \<Longrightarrow> remaining c \<le> R \<Longrightarrow> r < length (wc_retries c) \<Longrightarrow> attemptsLeft r c < k
    \<Longrightarrow> good c (retryLoop k en nxt r c)"
proof (induction k arbitrary: c)
  case (Suc k)
  note aw = good_task_Await [OF n]
  show ?case
  proof (cases "rt_finished (wc_retries c ! r)")
    case True
    then show ?thesis by (subst retryLoop.simps) simp
  next
    case False
    show ?thesis
      unfolding retryLoop.simps [of "Suc k"] if_not_P [OF False] nat.case
    proof (rule good_bind [OF aw [OF Suc.prems(1,2)]], goal_cases)
      case (1 errOpt c1)
      note fr = this(2)
      have ok1: "susp_ok c1" "remaining c1 \<le> R"
        using frame_susp [OF fr Suc.prems(1)] frame_remaining [OF fr] Suc.prems(2) by auto
      show ?case
      proof (cases errOpt)
        case None
        then show ?thesis by (simp add: Let_def frame_updRetry)
      next
        case (Some err)
        let ?rt = "wc_retries c1 ! r"
        let ?c2 = "noteExecutionID r (wc_tasks c1 ! rt_current ?rt) c1"
        define delay where "delay = computeNextDelay en (wc_CurrentTimeUtc ?c2) (rt_policy ?rt) (rt_retryCount ?rt)
            (rt_initialAttempt ?rt) err"
        let ?tm = "createTimerInternal (Some (rt_name ?rt)) delay ?c2"
        let ?c3 = "snd (snd ?tm)"
        let ?c4 = "setTimerOrigin (rt_schedule ?rt) (fst (snd ?tm)) (rt_dispatchExecutionID (wc_retries ?c3 ! r)) ?c3"
        have fr2: "frame c1 ?c2" by (rule frame_noteExecutionID)
        have fr4: "frame c1 ?c4" by (rule frame_trans [OF fr2]) (simp add: frame_hist)
        have ok4: "susp_ok ?c4" "remaining ?c4 \<le> R"
          using frame_susp [OF fr4 ok1(1)] frame_remaining [OF fr4] ok1(2) by auto
        define u where "u c5 = updRetry r (\<lambda>x. x\<lparr>rt_retryCount := rt_retryCount x + 1\<rparr>) c5" for c5
        define S where "S c5 = retrySchedule (rt_schedule ?rt) (rt_dispatchExecutionID (wc_retries (u c5) ! r)) True (u c5)" for c5
        define G where "G timerErr c5 = (case timerErr of
            Some te \<Rightarrow> Done () (finishRetry r (Some (Wrapped (en_Error en te) err)) c5)
          | None \<Rightarrow> retryLoop k en nxt r (updRetry r (\<lambda>x. x\<lparr>rt_current := fst (S c5)\<rparr>) (snd (S c5))))" for timerErr c5
        have main: "good c1 (bind_run (task_Await nxt (fst ?tm) None ?c4) G)"
          if more: "\<not> rt_retryCount ?rt + 1 \<ge> rp_MaxAttempts (rt_policy ?rt)"
        proof (rule good_trans [OF fr4], rule good_bind [OF aw [OF ok4]])
          fix timerErr c5 assume fr5: "frame ?c4 c5"
          let ?c8 = "updRetry r (\<lambda>x. x\<lparr>rt_current := fst (S c5)\<rparr>) (snd (S c5))"
          have "frame c5 (u c5)" unfolding u_def by (rule frame_updRetry) simp
          moreover have "frame (u c5) (snd (S c5))" by (simp add: S_def frame_hist)
          moreover have "frame (snd (S c5)) ?c8" by (rule frame_updRetry) simp
          ultimately have fr8: "frame c5 ?c8" using frame_trans by blast
          have fr15: "frame c1 c5" by (rule frame_trans [OF fr4 fr5])
          have "attemptsLeft r ?c8 < k"
            by (rule attemptsLeft_next [OF fr fr15 Suc.prems(3) more _ Suc.prems(4)]) (simp add: S_def u_def)
          moreover note fr18 = frame_trans [OF fr15 fr8]
          have "susp_ok ?c8" "remaining ?c8 \<le> R"
            using frame_susp [OF fr18 ok1(1)] frame_remaining [OF fr18] ok1(2) by simp_all
          moreover have "r < length (wc_retries ?c8)" using fr fr18 Suc.prems(3) by (simp add: frame_def)
          ultimately show "good c5 (G timerErr c5)"
            using Suc.IH [of ?c8] good_trans [OF fr8] frame_finishRetry by (auto simp: G_def split: option.split)
        qed
        show ?thesis
          using Some main frame_finishRetry frame_trans [OF fr2 frame_finishRetry]
          by (simp add: Let_def case_prod_beta delay_def [symmetric] G_def [abs_def] S_def u_def cong: option.case_cong)
      qed
    qed
  qed
qed simp

lemma good_retry_Await:
  assumes n: "next_ok R nxt" and c: "susp_ok c" "remaining c \<le> R" and r: "r < length (wc_retries c)"
  shows "good c (retry_Await en nxt r decode c)"
  unfolding retry_Await_def Let_def
proof (rule good_bind)
  show "good c (retryLoop (Suc (nat (rp_MaxAttempts (rt_policy (wc_retries c ! r)) - rt_retryCount (wc_retries c ! r)))) en nxt r c)"
    by (rule good_retryLoop [OF n c r]) (simp add: attemptsLeft_def)
  fix x c1 assume fr: "frame c c1"
  show "good c1 (case rt_terminalError (wc_retries c1 ! r) of None \<Rightarrow> task_Await nxt (rt_current (wc_retries c1 ! r)) decode c1
      | Some err \<Rightarrow> Done (Some err) c1)"
    using good_task_Await [OF n frame_susp [OF fr c(1)]] frame_remaining [OF fr] c(2) by (simp split: option.split)
qed

lemma good_legacyLoop:
  assumes n: "next_ok R nxt"
  shows "susp_ok c \<Longrightarrow> remaining c \<le> R \<Longrightarrow> nat (rp_MaxAttempts (tw_policy w) - tw_retryCount w) \<le> k
    \<Longrightarrow> good c (legacyLoop k en nxt w decode c)"
proof (induction k arbitrary: c w)
  case (0 c w)
  note aw = good_task_Await [OF n]
  show ?case
    unfolding legacyLoop.simps [of 0]
    by (rule good_bind [OF aw [OF 0(1,2)]]) (use 0(3) in \<open>auto simp: Let_def split: option.split\<close>)
next
  case (Suc k c w)
  note aw = good_task_Await [OF n]
  show ?case
    unfolding legacyLoop.simps [of "Suc k"]
  proof (rule good_bind [OF aw [OF Suc.prems(1,2)]], goal_cases)
    case (1 errOpt c1)
    note fr = this(2)
    show ?case
    proof (cases errOpt)
      case None
      then show ?thesis by (simp add: Let_def)
    next
      case (Some err)
      define delay where "delay = computeNextDelay en (wc_CurrentTimeUtc c1) (tw_policy w) (tw_retryCount w)
          (tw_initialAttempt w) err"
      define x where "x = ct_taskExecutionId (wc_tasks c1 ! tw_delegate w)"
      let ?tm = "createTimerInternal (Some (tw_name w)) delay c1"
      let ?c3 = "setTimerOrigin (tw_schedule w) (fst (snd ?tm)) x (snd (snd ?tm))"
      define S where "S c4 = retrySchedule (tw_schedule w) x (tw_retryCount w + 1 > 0) c4" for c4
      define G where "G timerErr c4 = (case timerErr of
          Some te \<Rightarrow> Done (Some (Wrapped (en_Error en te) err), tw_delegate w) c4
        | None \<Rightarrow> legacyLoop k en nxt (w\<lparr>tw_delegate := fst (S c4), tw_retryCount := tw_retryCount w + 1\<rparr>) decode (snd (S c4)))"
        for timerErr c4
      have fr3: "frame c1 ?c3" by (simp add: frame_hist)
      have main: "good c1 (bind_run (task_Await nxt (fst ?tm) None ?c3) G)"
        if more: "\<not> tw_retryCount w + 1 \<ge> rp_MaxAttempts (tw_policy w)"
      proof (rule good_trans [OF fr3], rule good_bind [OF aw])
        note fr03 = frame_trans [OF fr fr3]
        show "susp_ok ?c3" "remaining ?c3 \<le> R"
          using frame_susp [OF fr03 Suc.prems(1)] frame_remaining [OF fr03] Suc.prems(2) by simp_all
        fix timerErr c4 assume fr4: "frame ?c3 c4"
        have fr5: "frame c4 (snd (S c4))" by (simp add: S_def frame_hist)
        note fr05 = frame_trans [OF fr03 frame_trans [OF fr4 fr5]]
        have "susp_ok (snd (S c4))" "remaining (snd (S c4)) \<le> R"
          using frame_susp [OF fr05 Suc.prems(1)] frame_remaining [OF fr05] Suc.prems(2) by simp_all
        then have "good (snd (S c4)) (legacyLoop k en nxt (w\<lparr>tw_delegate := fst (S c4), tw_retryCount := tw_retryCount w + 1\<rparr>)
            decode (snd (S c4)))"
          by (rule Suc.IH) (use more Suc.prems(3) in simp)
        from good_trans [OF fr5 this] show "good c4 (G timerErr c4)"
          by (simp add: G_def split: option.split)
      qed
      show ?thesis
        using Some main
        by (simp add: Let_def case_prod_beta delay_def [symmetric] x_def [symmetric] G_def [abs_def] S_def cong: option.case_cong)
    qed
  qed
qed

lemma good_awaitTask:
  assumes n: "next_ok R nxt" and c: "susp_ok c" "remaining c \<le> R" and v: "validTask task c"
  shows "good c (awaitTask en nxt task decode c)"
proof (cases task)
  case (TaskCompletable t)
  then show ?thesis
    by (auto simp: awaitTask_def Let_def intro!: good_bind [OF good_task_Await [OF n c]])
next
  case (TaskRetry r)
  with v show ?thesis
    by (auto simp: awaitTask_def Let_def validTask_def intro!: good_bind [OF good_retry_Await [OF n c]])
next
  case (TaskWrapper w)
  have "good c (legacy_Await en nxt w decode c)"
    unfolding legacy_Await_def by (rule good_legacyLoop [OF n c]) simp
  with TaskWrapper show ?thesis by (auto simp: awaitTask_def Let_def intro!: good_bind)
qed

lemma frame_retries:
  "hist d = hist c \<Longrightarrow> frame c (d\<lparr>wc_retries := wc_retries d @ [x]\<rparr>)"
  by (auto simp: frame_def hist_def susp_ok_def nth_append)

lemma frame_withRetries: "frame c (snd (internalScheduleTaskWithRetries name t0 rc policy x c))"
proof -
  define p where "p = (case map_of (wc_appliedPatches c) retryChainPatch of Some p \<Rightarrow> (p, c) | None \<Rightarrow> IsPatched retryChainPatch c)"
  have "hist (snd p) = hist c" by (simp add: p_def split: option.split)
  then have h: "hist (snd (retrySchedule rc x False (snd p))) = hist c" by simp
  show ?thesis
    unfolding internalScheduleTaskWithRetries_def p_def [symmetric]
    using frame_retries [OF h] frame_hist [OF h] by (simp add: Let_def case_prod_beta)
qed

lemma frame_calls:
  "frame c (snd (ctx_CallActivity en name opts c))" "frame c (snd (ctx_CallChildWorkflow en name copts c))"
proof -
  have u: "frame c (snd (newUUID en d))" if "hist d = hist c" for d by (simp add: frame_hist that)
  have f: "hist (c\<lparr>wc_firsts := y\<rparr>) = hist c" for y by (simp add: hist_def)
  show "frame c (snd (ctx_CallActivity en name opts c))"
    using frame_trans [OF u [OF refl] frame_withRetries]
    by (auto simp: ctx_CallActivity_def Let_def case_prod_beta frame_hist split: sum.splits option.splits)
  show "frame c (snd (ctx_CallChildWorkflow en name copts c))"
    using frame_trans [OF u [OF f] frame_withRetries]
    by (auto simp: ctx_CallChildWorkflow_def Let_def case_prod_beta frame_hist split: sum.splits option.splits)
qed

lemma good_perform:
  assumes n: "next_ok R nxt" and c: "susp_ok c" "remaining c \<le> R"
  shows "good c (perform en nxt x c)"
  using frame_calls good_awaitTask [OF n c]
  by (cases x) (simp_all add: perform_def case_prod_beta frame_hist)

lemma good_runWorkflow:
  assumes n: "next_ok R nxt"
  shows "susp_ok c \<Longrightarrow> remaining c \<le> R \<Longrightarrow> good c (runWorkflow en nxt w c)"
proof (induction w arbitrary: c)
  case (Call x k)
  show ?case
    unfolding runWorkflow.simps
  proof (rule good_bind [OF good_perform [OF n Call.prems]])
    fix a c1 assume fr: "frame c c1"
    show "good c1 (runWorkflow en nxt (k a) c1)"
      using Call.IH [of "k a" c1] frame_susp [OF fr] frame_remaining [OF fr] Call.prems by simp
  qed
qed simp_all

lemma frame_fields:
  assumes "hist d = hist c" shows "frame c (d\<lparr>wc_isTerminated := b\<rparr>)" "frame c (d\<lparr>wc_isSuspended := b\<rparr>)"
  using assms by (simp_all add: frame_def hist_def susp_ok_def)

lemma frame_onExecutionTerminated: "frame c (onExecutionTerminated en et c)"
proof -
  have h: "hist d = hist (c\<lparr>wc_isTerminated := True\<rparr>) \<Longrightarrow> frame c d" for d
    by (simp add: frame_def hist_def susp_ok_def)
  show ?thesis
    by (rule h) (simp add: onExecutionTerminated_def Let_def split: sum.split)
qed

lemma hist_onWorkflowStarted [simp]: "hist (onWorkflowStarted e v c) = hist c"
  by (simp add: onWorkflowStarted_def hist_def Let_def split: option.split)

lemma hist_finishWorkflow [simp]: "hist (finishWorkflow en out err c) = hist c"
proof -
  define p where "p = (if wc_continuedAsNew c then setContinuedAsNew c else setComplete out c)"
  have "hist (snd p) = hist c" by (simp add: p_def)
  then show ?thesis
    unfolding finishWorkflow_def p_def [symmetric] by (cases p) (simp split: option.split)
qed

lemma good_onExecutionStarted:
  assumes n: "next_ok (remaining c) nxt" and c: "susp_ok c"
  shows "good c (onExecutionStarted en reg nxt es c)"
proof (cases "getWorkflow reg es c")
  case (Inr p)
  obtain w c1 where p: "p = (w, c1)" by fastforce
  define c2 where "c2 = c1\<lparr>wc_Name := es_Name es,
      wc_rawInput := (case es_Input es of None \<Rightarrow> wc_rawInput c1 | Some i \<Rightarrow> i)\<rparr>"
  have "hist c1 = hist c"
    using Inr p by (auto simp: getWorkflow_def hist_def split: sum.splits option.splits)
  then have h: "hist c2 = hist c" by (simp add: c2_def hist_def)
  note fr = frame_hist [OF h]
  have run: "good c2 (runWorkflow en nxt w c2)"
    by (rule good_runWorkflow [OF n frame_susp [OF fr c] frame_remaining [OF fr]])
  have "good c2 (bind_run (runWorkflow en nxt w c2) (\<lambda>x c3. Done None (finishWorkflow en (fst x) (snd x) c3)))"
    by (rule good_bind [OF run]) (simp add: frame_hist)
  from good_trans [OF fr this] show ?thesis
    using Inr p by (simp add: onExecutionStarted_def Let_def c2_def case_prod_unfold cong: option.case_cong)
qed (simp add: onExecutionStarted_def)

lemma good_processAll:
  assumes "\<And>e d. e \<in> set es \<Longrightarrow> susp_ok d \<Longrightarrow> remaining d \<le> R \<Longrightarrow> good d (pe e d)"
  shows "susp_ok c \<Longrightarrow> remaining c \<le> R \<Longrightarrow> good c (processAll pe es c)"
  using assms
proof (induction es arbitrary: c)
  case (Cons e es)
  have pe: "good c (pe e c)" using Cons.prems by simp
  show ?case
    unfolding processAll.simps
  proof (rule good_bind [OF pe])
    fix err c1 assume fr: "frame c c1"
    have "good c1 (processAll pe es c1)"
      using Cons.IH [of c1] Cons.prems frame_susp [OF fr] frame_remaining [OF fr] by simp
    then show "good c1 (case err of None \<Rightarrow> processAll pe es c1 | Some x \<Rightarrow> Done (Some x) c1)"
      by (simp split: option.split)
  qed
qed simp

lemma good_onExecutionResumed:
  assumes pe: "\<And>e d. \<not> isResumeOrTerminate e \<Longrightarrow> susp_ok d \<Longrightarrow> remaining d \<le> remaining c \<Longrightarrow> good d (pe e d)"
    and c: "susp_ok c"
  shows "good c (onExecutionResumed pe c)"
proof -
  let ?c1 = "c\<lparr>wc_isSuspended := False\<rparr>"
  have fr: "frame c ?c1" by (simp add: frame_fields)
  have all: "good ?c1 (processAll pe (wc_suspendedEvents ?c1) ?c1)"
    using c by (intro good_processAll [where R = "remaining c"] pe) (auto simp: susp_ok_def remaining_def)
  have "good ?c1 (bind_run (processAll pe (wc_suspendedEvents ?c1) ?c1) (\<lambda>err c2.
      case err of Some x \<Rightarrow> Done (Some x) c2 | None \<Rightarrow> Done None (c2\<lparr>wc_suspendedEvents := []\<rparr>)))"
    by (rule good_bind [OF all]) (auto simp: frame_def susp_ok_def split: option.split)
  from good_trans [OF fr this] show ?thesis by (simp add: onExecutionResumed_def Let_def)
qed

lemma getNextHistoryEvent_None: "getNextHistoryEvent c = None \<longleftrightarrow> remaining c = 0"
  by (auto simp: getNextHistoryEvent_def remaining_def)

lemma getNextHistoryEvent_Some:
  "getNextHistoryEvent c = Some (e, c1) \<Longrightarrow> frame c c1 \<and> Suc (remaining c1) = remaining c \<and> susp_ok c1 = susp_ok c"
  by (auto simp: getNextHistoryEvent_def remaining_def frame_def susp_ok_def split: if_splits)

lemma next_ok_processNextEvent:
  assumes "\<And>e d. susp_ok d \<Longrightarrow> remaining d < R \<Longrightarrow> good d (pe e d)"
  shows "next_ok R (processNextEvent pe)"
  unfolding next_ok_def
proof (intro allI impI)
  fix c assume c: "susp_ok c" "remaining c \<le> R"
  show "good c (processNextEvent pe c) \<and>
     (\<forall>err c'. processNextEvent pe c = Done (True, err) c' \<longrightarrow> remaining c' < remaining c)"
  proof (cases "getNextHistoryEvent c")
    case (Some p)
    obtain e c1 where p: "p = (e, c1)" by fastforce
    note g = getNextHistoryEvent_Some [OF Some [unfolded p]]
    have pe: "good c1 (pe e c1)" using assms g c by simp
    have b: "good c1 (bind_run (pe e c1) (\<lambda>err c2. Done (True, err) c2))"
      by (rule good_bind [OF pe]) simp
    have "remaining c' < remaining c" if "bind_run (pe e c1) (\<lambda>err c2. Done (True, err) c2) = Done (True, err) c'" for err c'
      using b that g frame_remaining [of c1 c'] by simp
    with good_trans [OF conjunct1 [OF g] b] show ?thesis
      using Some p by (simp add: processNextEvent_def)
  qed (simp add: processNextEvent_def)
qed

text \<open>Each level of nesting either reads an event or replays buffered ones after the resumption it read.\<close>

definition levels :: "HistoryEvent \<Rightarrow> WorkflowContext \<Rightarrow> nat" where
  "levels e c = 2 * remaining c + (if isResumeOrTerminate e then 2 else 1)"

lemma good_processEvent: "susp_ok c \<Longrightarrow> levels e c \<le> n \<Longrightarrow> good c (processEvent n en reg e c)"
proof (induction n arbitrary: e c)
  case (Suc n)
  have nxt: "next_ok (remaining c) (processNextEvent (processEvent n en reg))"
    by (rule next_ok_processNextEvent, rule Suc.IH) (use Suc.prems(2) in \<open>auto simp: levels_def split: if_splits\<close>)
  note started = good_onExecutionStarted [OF nxt Suc.prems(1)]
  have resumed: "good c (onExecutionResumed (processEvent n en reg) c)" if "isResumeOrTerminate e"
    by (rule good_onExecutionResumed [OF Suc.IH Suc.prems(1)]) (use that Suc.prems(2) in \<open>auto simp: levels_def\<close>)
  have buf: "frame c (c\<lparr>wc_suspendedEvents := wc_suspendedEvents c @ [e]\<rparr>)" if "\<not> isResumeOrTerminate e"
    using that by (auto simp: frame_def susp_ok_def)
  note fr = frame_onExecutionTerminated frame_fields(2) [OF refl]
  show ?case
    using resumed buf
    by (cases "he_EventType e") (simp_all add: isResumeOrTerminate_def case_prod_beta frame_hist started fr)
qed (auto simp: levels_def split: if_splits)

lemma good_startLoop:
  assumes n: "next_ok R nxt"
  shows "susp_ok c \<Longrightarrow> remaining c \<le> R \<Longrightarrow> remaining c < m \<Longrightarrow> good c (startLoop m en nxt c)"
proof (induction m arbitrary: c)
  case (Suc m)
  let ?f = "\<lambda>(ok, err) c1. case err of
       Some e \<Rightarrow> Done () (if e = UnsupportedVersionError then setVersionNotRegistered c1 else setFailed en e c1)
     | None \<Rightarrow> if \<not> ok then Done () c1 else startLoop m en nxt c1"
  show ?case
    unfolding startLoop.simps
  proof (rule good_bind)
    show "good c (nxt c)" using next_okD(1) [OF n] Suc.prems by blast
    fix x c1 assume x: "nxt c = Done x c1" and fr: "frame c c1"
    obtain ok err where xe: "x = (ok, err)" by fastforce
    have "good c1 (startLoop m en nxt c1)" if "ok"
      using that Suc.IH [of c1] frame_susp [OF fr] frame_remaining [OF fr] next_okD(2) [OF n Suc.prems(1,2), of err c1] x xe Suc.prems
      by simp
    then show "good c1 (?f x c1)" by (auto simp: xe frame_hist split: option.split)
  qed
qed simp

lemma runTurns_ends:
  assumes "susp_ok c" shows "good (resetContext c) (runTurns en reg c)"
proof -
  let ?c = "resetContext c"
  have s: "susp_ok ?c" using assms by (simp add: resetContext_def susp_ok_def)
  have "next_ok (remaining ?c) (processNextEvent (processEvent (nestingBound ?c) en reg))"
    by (rule next_ok_processNextEvent, rule good_processEvent) (auto simp: nestingBound_def levels_def)
  then show ?thesis
    unfolding runTurns_def Let_def by (rule good_startLoop) (auto simp: s)
qed

lemma start_ends:
  "susp_ok c \<Longrightarrow> \<exists>r. start en reg c = Some r"
  using runTurns_ends [of c en reg] by (cases "runTurns en reg c") (auto simp: start_def)

lemma susp_ok_NewWorkflowContext [simp]:
  "susp_ok (NewWorkflowContext iid olds news)" "susp_ok (SetPropagatedHistory ph (NewWorkflowContext iid olds news))"
  by (simp_all add: susp_ok_def NewWorkflowContext_def SetPropagatedHistory_def)

lemma ExecuteWorkflow_ends: "\<exists>r. ExecuteWorkflow en reg iid olds news ph = Some r"
proof -
  define c where "c = NewWorkflowContext iid olds news"
  have "\<exists>r. start en reg c = Some r" "\<exists>r. start en reg (SetPropagatedHistory p c) = Some r" for p
    by (simp_all add: start_ends c_def)
  moreover define prepared where "prepared = (if ph = None then Inr c
      else (case PropagatedHistoryFromProto (en_lib en) ph of
          Inl err \<Rightarrow> Inl (Wrapped ''invalid propagated history'' err)
        | Inr h \<Rightarrow> Inr (SetPropagatedHistory h c)))"
  ultimately have "\<exists>r. start en reg c1 = Some r" if "prepared = Inr c1" for c1
    using that by (auto split: if_splits sum.splits)
  then show ?thesis
    unfolding ExecuteWorkflow_def Let_def c_def [symmetric] prepared_def [symmetric]
    by (cases prepared) (auto split: option.split sum.split)
qed

end
