(* ===== verification/ReplaySplit.thy ===== *)
theory ReplaySplit
  imports ReplayEnds
begin

text \<open>
  The engine reads the history as one list: where it is split into committed and new events shows
  only in \<open>IsReplaying\<close>. \<open>norm\<close> forgets the split and the flag, every operation commutes with it, and
  the runs on two contexts that agree up to the split proceed in step.
\<close>

section \<open>The history as one list\<close>

definition norm :: "WorkflowContext \<Rightarrow> WorkflowContext" where
  "norm c = c\<lparr>wc_oldEvents := wc_oldEvents c @ wc_newEvents c, wc_newEvents := [], wc_IsReplaying := False\<rparr>"

lemma norm_norm [simp]: "norm (norm c) = norm c"
  by (simp add: norm_def)

lemma norm_sel [simp]:
  "wc_ID (norm c) = wc_ID c" "wc_tasks (norm c) = wc_tasks c" "wc_actions (norm c) = wc_actions c"
  "wc_pendingActions (norm c) = wc_pendingActions c" "wc_pendingTasks (norm c) = wc_pendingTasks c"
  "wc_bufferedResolutions (norm c) = wc_bufferedResolutions c" "wc_resolvedResolutions (norm c) = wc_resolvedResolutions c"
  "wc_optionalTimerIDs (norm c) = wc_optionalTimerIDs c" "wc_lists (norm c) = wc_lists c"
  "wc_pendingExternalEventTasks (norm c) = wc_pendingExternalEventTasks c"
  "wc_bufferedExternalEvents (norm c) = wc_bufferedExternalEvents c" "wc_sequenceNumber (norm c) = wc_sequenceNumber c"
  "wc_retries (norm c) = wc_retries c" "wc_firsts (norm c) = wc_firsts c" "wc_uuids (norm c) = wc_uuids c"
  "wc_CurrentTimeUtc (norm c) = wc_CurrentTimeUtc c" "wc_appliedPatches (norm c) = wc_appliedPatches c"
  "wc_historyPatches (norm c) = wc_historyPatches c" "wc_encounteredPatches (norm c) = wc_encounteredPatches c"
  "wc_isSuspended (norm c) = wc_isSuspended c" "wc_isTerminated (norm c) = wc_isTerminated c"
  "wc_suspendedEvents (norm c) = wc_suspendedEvents c" "wc_continuedAsNew (norm c) = wc_continuedAsNew c"
  "wc_continuedAsNewInput (norm c) = wc_continuedAsNewInput c"
  "wc_saveBufferedExternalEvents (norm c) = wc_saveBufferedExternalEvents c" "wc_VersionName (norm c) = wc_VersionName c"
  "wc_Name (norm c) = wc_Name c" "wc_rawInput (norm c) = wc_rawInput c" "wc_historyIndex (norm c) = wc_historyIndex c"
  "wc_propagatedHistory (norm c) = wc_propagatedHistory c" "wc_customStatus (norm c) = wc_customStatus c"
  "wc_defaultDetachedWorkflowCounter (norm c) = wc_defaultDetachedWorkflowCounter c"
  "wc_oldEvents (norm c) = wc_oldEvents c @ wc_newEvents c" "wc_newEvents (norm c) = []" "wc_IsReplaying (norm c) = False"
  by (simp_all add: norm_def)

text \<open>Updates of the other fields commute with \<^const>\<open>norm\<close>.\<close>

lemma norm_upd [simp]:
  "(norm c)\<lparr>wc_tasks := a1\<rparr> = norm (c\<lparr>wc_tasks := a1\<rparr>)"
  "(norm c)\<lparr>wc_actions := a2\<rparr> = norm (c\<lparr>wc_actions := a2\<rparr>)"
  "(norm c)\<lparr>wc_pendingActions := a3\<rparr> = norm (c\<lparr>wc_pendingActions := a3\<rparr>)"
  "(norm c)\<lparr>wc_pendingTasks := a4\<rparr> = norm (c\<lparr>wc_pendingTasks := a4\<rparr>)"
  "(norm c)\<lparr>wc_bufferedResolutions := a5\<rparr> = norm (c\<lparr>wc_bufferedResolutions := a5\<rparr>)"
  "(norm c)\<lparr>wc_resolvedResolutions := a6\<rparr> = norm (c\<lparr>wc_resolvedResolutions := a6\<rparr>)"
  "(norm c)\<lparr>wc_optionalTimerIDs := a7\<rparr> = norm (c\<lparr>wc_optionalTimerIDs := a7\<rparr>)"
  "(norm c)\<lparr>wc_lists := a8\<rparr> = norm (c\<lparr>wc_lists := a8\<rparr>)"
  "(norm c)\<lparr>wc_pendingExternalEventTasks := a9\<rparr> = norm (c\<lparr>wc_pendingExternalEventTasks := a9\<rparr>)"
  "(norm c)\<lparr>wc_bufferedExternalEvents := b1\<rparr> = norm (c\<lparr>wc_bufferedExternalEvents := b1\<rparr>)"
  "(norm c)\<lparr>wc_sequenceNumber := b2\<rparr> = norm (c\<lparr>wc_sequenceNumber := b2\<rparr>)"
  "(norm c)\<lparr>wc_retries := b3\<rparr> = norm (c\<lparr>wc_retries := b3\<rparr>)"
  "(norm c)\<lparr>wc_firsts := b4\<rparr> = norm (c\<lparr>wc_firsts := b4\<rparr>)"
  "(norm c)\<lparr>wc_uuids := b5\<rparr> = norm (c\<lparr>wc_uuids := b5\<rparr>)"
  "(norm c)\<lparr>wc_CurrentTimeUtc := b6\<rparr> = norm (c\<lparr>wc_CurrentTimeUtc := b6\<rparr>)"
  "(norm c)\<lparr>wc_appliedPatches := b7\<rparr> = norm (c\<lparr>wc_appliedPatches := b7\<rparr>)"
  "(norm c)\<lparr>wc_historyPatches := b8\<rparr> = norm (c\<lparr>wc_historyPatches := b8\<rparr>)"
  "(norm c)\<lparr>wc_encounteredPatches := b9\<rparr> = norm (c\<lparr>wc_encounteredPatches := b9\<rparr>)"
  "(norm c)\<lparr>wc_isSuspended := d1\<rparr> = norm (c\<lparr>wc_isSuspended := d1\<rparr>)"
  "(norm c)\<lparr>wc_isTerminated := d2\<rparr> = norm (c\<lparr>wc_isTerminated := d2\<rparr>)"
  "(norm c)\<lparr>wc_suspendedEvents := d3\<rparr> = norm (c\<lparr>wc_suspendedEvents := d3\<rparr>)"
  "(norm c)\<lparr>wc_continuedAsNew := d4\<rparr> = norm (c\<lparr>wc_continuedAsNew := d4\<rparr>)"
  "(norm c)\<lparr>wc_continuedAsNewInput := d5\<rparr> = norm (c\<lparr>wc_continuedAsNewInput := d5\<rparr>)"
  "(norm c)\<lparr>wc_saveBufferedExternalEvents := d6\<rparr> = norm (c\<lparr>wc_saveBufferedExternalEvents := d6\<rparr>)"
  "(norm c)\<lparr>wc_VersionName := d7\<rparr> = norm (c\<lparr>wc_VersionName := d7\<rparr>)"
  "(norm c)\<lparr>wc_Name := d8\<rparr> = norm (c\<lparr>wc_Name := d8\<rparr>)"
  "(norm c)\<lparr>wc_rawInput := d9\<rparr> = norm (c\<lparr>wc_rawInput := d9\<rparr>)"
  "(norm c)\<lparr>wc_historyIndex := e1\<rparr> = norm (c\<lparr>wc_historyIndex := e1\<rparr>)"
  "(norm c)\<lparr>wc_customStatus := e2\<rparr> = norm (c\<lparr>wc_customStatus := e2\<rparr>)"
  "(norm c)\<lparr>wc_defaultDetachedWorkflowCounter := e3\<rparr> = norm (c\<lparr>wc_defaultDetachedWorkflowCounter := e3\<rparr>)"
  by (simp_all add: norm_def)

section \<open>Operations commute\<close>

lemma norm_upds [simp]:
  "updTask t f (norm c) = norm (updTask t f c)" "updAction a g (norm c) = norm (updAction a g c)"
  "restoreActivityScheduleIdentity i x (norm c) = norm (restoreActivityScheduleIdentity i x c)"
  "markResolved k i (norm c) = norm (markResolved k i c)" "bufferResolution key r (norm c) = norm (bufferResolution key r c)"
  "newTask (norm c) = (fst (newTask c), norm (snd (newTask c)))" "deletePendingAction i (norm c) = norm (deletePendingAction i c)"
  "shiftAction i (norm c) = norm (shiftAction i c)"
  "shiftTask i (norm c) = norm (shiftTask i c)"
  by (simp_all add: updTask_def updAction_def restoreActivityScheduleIdentity_def markResolved_def
      bufferResolution_def newTask_def deletePendingAction_def shiftAction_def shiftTask_def Let_def
      split: option.split)

lemma norm_setOrigin [simp]: "setOrigin a ori (norm c) = norm (setOrigin a ori c)"
  by (simp add: setOrigin_def)

lemma norm_reads [simp]:
  "pendingAction i (norm c) = pendingAction i c" "resolvable kind i (norm c) = resolvable kind i c"
  "actionIDProvisional i (norm c) = actionIDProvisional i c" "resolutionIDProvisional i (norm c) = resolutionIDProvisional i c"
  "validTask x (norm c) = validTask x c" "TaskExecutionId x (norm c) = TaskExecutionId x c" "remaining (norm c) = remaining c"
  by (simp_all add: pendingAction_def resolvable_def actionIDProvisional_def resolutionIDProvisional_def fun_eq_iff
      validTask_def TaskExecutionId_def remaining_def Let_def split: Task.split option.split)

lemma norm_runCallback [simp]: "runCallback cb (norm c) = norm (runCallback cb c)"
  by (simp add: runCallback_def Let_def)

lemma norm_complete [simp]:
  "completeInternal t (norm c) = norm (completeInternal t c)" "task_complete t raw (norm c) = norm (task_complete t raw c)"
  "task_fail t fd (norm c) = norm (task_fail t fd c)" "task_cancel t (norm c) = norm (task_cancel t c)"
  "task_onCompleted t cb (norm c) = norm (task_onCompleted t cb c)"
  by (simp_all add: completeInternal_def task_complete_def task_fail_def task_cancel_def task_onCompleted_def Let_def
      split: option.split)

lemma norm_resolutions [simp]:
  "onTaskCompleted tc (norm c) = norm (onTaskCompleted tc c)" "onTaskFailed tf (norm c) = norm (onTaskFailed tf c)"
  "onChildWorkflowCompleted soc (norm c) = norm (onChildWorkflowCompleted soc c)"
  "onChildWorkflowFailed sof (norm c) = norm (onChildWorkflowFailed sof c)"
  "onTimerFired tmf (norm c) = norm (onTimerFired tmf c)"
  by (simp_all add: onTaskCompleted_def onTaskFailed_def onChildWorkflowCompleted_def onChildWorkflowFailed_def
      onTimerFired_def Let_def split: option.split)

lemma norm_redeliver [simp]: "redeliver r (norm c) = norm (redeliver r c)"
  by (cases r) (simp_all add: redeliver_def)

lemma norm_consume [simp]: "consumeBufferedResolution kind i (norm c) = norm (consumeBufferedResolution kind i c)"
  by (simp add: consumeBufferedResolution_def split: option.split)

lemma norm_consumeFor [simp]: "consumeFor is (norm c) = norm (consumeFor is c)"
  by (induction "is" arbitrary: c) (simp_all split: option.split)

lemma norm_consumeReady [simp]: "consumeReadyBufferedResolutions (norm c) = norm (consumeReadyBufferedResolutions c)"
  by (simp add: consumeReadyBufferedResolutions_def)

lemma norm_folds [simp]:
  "fold shiftAction is (norm c) = norm (fold shiftAction is c)" "fold shiftTask is (norm c) = norm (fold shiftTask is c)"
  by (induction "is" arbitrary: c) simp_all

lemma norm_drop [simp]:
  "dropOptionalExternalEventTimerAt i (norm c) =
     (fst (dropOptionalExternalEventTimerAt i c), norm (snd (dropOptionalExternalEventTimerAt i c)))"
  by (simp add: dropOptionalExternalEventTimerAt_def Let_def split: option.split)

lemma norm_dropAll [simp]: "dropOptionalTimers i (norm c) = norm (dropOptionalTimers i c)"
proof (induction i c rule: dropOptionalTimers.induct)
  case (1 i c)
  obtain b c' where r: "dropOptionalExternalEventTimerAt i c = (b, c')" by fastforce
  with 1 show ?case by (cases b) (subst (1 2) dropOptionalTimers.simps, simp)+
qed

lemma norm_schedulings [simp]:
  "onTaskScheduled i ts (norm c) = (fst (onTaskScheduled i ts c), norm (snd (onTaskScheduled i ts c)))"
  "onChildWorkflowScheduled i cs (norm c) = (fst (onChildWorkflowScheduled i cs c), norm (snd (onChildWorkflowScheduled i cs c)))"
  "onDetachedWorkflowCreated i iid (norm c) =
     (fst (onDetachedWorkflowCreated i iid c), norm (snd (onDetachedWorkflowCreated i iid c)))"
  "onTimerCreated i tc (norm c) = (fst (onTimerCreated i tc c), norm (snd (onTimerCreated i tc c)))"
  by (auto simp: onTaskScheduled_def onChildWorkflowScheduled_def onDetachedWorkflowCreated_def
      onTimerCreated_def Let_def split: option.split)

lemma norm_raised [simp]: "onExternalEventRaised en e er (norm c) = norm (onExternalEventRaised en e er c)"
  by (simp add: onExternalEventRaised_def Let_def split: option.split)

lemma norm_addAction [simp]:
  "addAction ty r (norm c) = (fst (addAction ty r c), fst (snd (addAction ty r c)), norm (snd (snd (addAction ty r c))))"
  by (simp add: addAction_def getNextSequenceNumber_def Let_def)

lemma norm_completions [simp]:
  "setCompleteInternal r st fd (norm c) = norm (setCompleteInternal r st fd c)"
  "setFailed en err (norm c) = norm (setFailed en err c)"
  "setComplete out (norm c) = (fst (setComplete out c), norm (snd (setComplete out c)))"
  "setContinuedAsNew (norm c) = (fst (setContinuedAsNew c), norm (snd (setContinuedAsNew c)))"
  "setVersionNotRegistered (norm c) = norm (setVersionNotRegistered c)"
  by (simp_all add: setCompleteInternal_def setFailed_def setComplete_def setContinuedAsNew_def setVersionNotRegistered_def
      split: option.split sum.split)

lemma norm_terminateScan [simp]: "terminateScan as input (norm c) = norm (terminateScan as input c)"
  by (induction "as" input c rule: terminateScan.induct) (simp_all split: option.split)

lemma norm_registerTask [simp]:
  "registerTask kind ca i (norm c) = (fst (registerTask kind ca i c), norm (snd (registerTask kind ca i c)))"
  by (simp add: registerTask_def Let_def case_prod_beta)

lemma norm_schedule [simp]:
  "internalScheduleActivity name x o1 (norm c) =
     (fst (internalScheduleActivity name x o1 c), norm (snd (internalScheduleActivity name x o1 c)))"
  "internalCallChildWorkflow name o2 rp (norm c) =
     (fst (internalCallChildWorkflow name o2 rp c), norm (snd (internalCallChildWorkflow name o2 rp c)))"
  "createTimerInternal nm delay (norm c) = (fst (createTimerInternal nm delay c),
     fst (snd (createTimerInternal nm delay c)), norm (snd (snd (createTimerInternal nm delay c))))"
  "createExternalEventTimerInternal name fireAt (norm c) =
     (fst (createExternalEventTimerInternal name fireAt c), norm (snd (createExternalEventTimerInternal name fireAt c)))"
  by (simp_all add: internalScheduleActivity_def internalCallChildWorkflow_def createTimerInternal_def
        createExternalEventTimerInternal_def Let_def case_prod_beta)

lemma norm_retry [simp]:
  "retrySchedule rc x b (norm c) = (fst (retrySchedule rc x b c), norm (snd (retrySchedule rc x b c)))"
  "setTimerOrigin rc a x (norm c) = norm (setTimerOrigin rc a x c)"
  by (simp_all add: retrySchedule_def setTimerOrigin_def Let_def case_prod_beta split: retryCall.split cong: option.case_cong if_cong)

lemma norm_misc [simp]:
  "isPatched p (norm c) = (fst (isPatched p c), norm (snd (isPatched p c)))"
  "newUUID en (norm c) = (fst (newUUID en c), norm (snd (newUUID en c)))"
  "ctx_ContinueAsNew inp keep (norm c) = norm (ctx_ContinueAsNew inp keep c)"
  "failedTask et msg (norm c) = (fst (failedTask et msg c), norm (snd (failedTask et msg c)))"
  "updRetry r f (norm c) = norm (updRetry r f c)" "finishRetry r err (norm c) = norm (finishRetry r err c)"
  "noteExecutionID r t (norm c) = norm (noteExecutionID r t c)"
  by (simp_all add: isPatched_def newUUID_def ctx_ContinueAsNew_def failedTask_def updRetry_def finishRetry_def
      noteExecutionID_def Let_def case_prod_beta split: option.split)

lemma norm_IsPatched [simp]: "IsPatched p (norm c) = (fst (IsPatched p c), norm (snd (IsPatched p c)))"
  by (simp add: IsPatched_def case_prod_beta)

lemma norm_timers [simp]:
  "ctx_CreateTimer en opts delay (norm c) = (fst (ctx_CreateTimer en opts delay c), norm (snd (ctx_CreateTimer en opts delay c)))"
  by (simp add: ctx_CreateTimer_def case_prod_beta split: sum.split)

lemma norm_detached [simp]:
  "ScheduleNewWorkflow name opts (norm c) = (fst (ScheduleNewWorkflow name opts c), norm (snd (ScheduleNewWorkflow name opts c)))"
  by (simp add: ScheduleNewWorkflow_def Let_def case_prod_beta split: sum.split option.split)

lemma norm_wait [simp]:
  "WaitForSingleEvent en name timeout (norm c) =
     (fst (WaitForSingleEvent en name timeout c), norm (snd (WaitForSingleEvent en name timeout c)))"
  by (simp add: WaitForSingleEvent_def Let_def case_prod_beta split: option.split)

section \<open>Contexts with the same history\<close>

text \<open>Two contexts that differ only in where the history \<open>H\<close> is split.\<close>

definition eqv :: "HistoryEvent list \<Rightarrow> WorkflowContext \<Rightarrow> WorkflowContext \<Rightarrow> bool" where
  "eqv H c d \<longleftrightarrow> norm c = norm d \<and> wc_oldEvents c @ wc_newEvents c = H \<and> wc_oldEvents d @ wc_newEvents d = H"

lemma eqv_norm: "eqv H c d \<Longrightarrow> norm c = norm d"
  by (simp add: eqv_def)

lemma eqv_sel:
  assumes "eqv H c d"
  shows "wc_tasks c = wc_tasks d" "wc_retries c = wc_retries d" "wc_CurrentTimeUtc c = wc_CurrentTimeUtc d"
    "wc_isTerminated c = wc_isTerminated d" "wc_isSuspended c = wc_isSuspended d"
    "wc_suspendedEvents c = wc_suspendedEvents d" "wc_continuedAsNew c = wc_continuedAsNew d" "remaining c = remaining d"
    "validTask x c = validTask x d" "TaskExecutionId x c = TaskExecutionId x d" "wc_VersionName c = wc_VersionName d"
    "wc_rawInput c = wc_rawInput d" "wc_historyIndex c = wc_historyIndex d" "wc_appliedPatches c = wc_appliedPatches d"
    "wc_firsts c = wc_firsts d" "wc_ID c = wc_ID d" "wc_sequenceNumber c = wc_sequenceNumber d"
    "wc_pendingActions c = wc_pendingActions d"
  using arg_cong [OF eqv_norm [OF assms], of wc_tasks] arg_cong [OF eqv_norm [OF assms], of wc_retries]
    arg_cong [OF eqv_norm [OF assms], of wc_CurrentTimeUtc] arg_cong [OF eqv_norm [OF assms], of wc_isTerminated]
    arg_cong [OF eqv_norm [OF assms], of wc_isSuspended] arg_cong [OF eqv_norm [OF assms], of wc_suspendedEvents]
    arg_cong [OF eqv_norm [OF assms], of wc_continuedAsNew] arg_cong [OF eqv_norm [OF assms], of remaining]
    arg_cong [OF eqv_norm [OF assms], of "validTask x"] arg_cong [OF eqv_norm [OF assms], of "TaskExecutionId x"]
    arg_cong [OF eqv_norm [OF assms], of wc_VersionName] arg_cong [OF eqv_norm [OF assms], of wc_rawInput]
    arg_cong [OF eqv_norm [OF assms], of wc_historyIndex] arg_cong [OF eqv_norm [OF assms], of wc_appliedPatches]
    arg_cong [OF eqv_norm [OF assms], of wc_firsts] arg_cong [OF eqv_norm [OF assms], of wc_ID]
    arg_cong [OF eqv_norm [OF assms], of wc_sequenceNumber] arg_cong [OF eqv_norm [OF assms], of wc_pendingActions]
  by simp_all

lemma frame_events: "frame c c' \<Longrightarrow> wc_oldEvents c' = wc_oldEvents c \<and> wc_newEvents c' = wc_newEvents c"
  by (simp add: frame_def)

lemma eqv_op:
  assumes "eqv H c d" and "\<And>x. f (norm x) = norm (f x)" and "\<And>x. frame x (f x)"
  shows "eqv H (f c) (f d)"
  using assms(1) assms(2) [of c] assms(2) [of d] frame_events [OF assms(3) [of c]] frame_events [OF assms(3) [of d]]
  by (simp add: eqv_def)

lemma eqv_call:
  assumes "eqv H c d" and "\<And>x. f (norm x) = (fst (f x), norm (snd (f x)))" and "\<And>x. frame x (snd (f x))"
  shows "fst (f c) = fst (f d)" "eqv H (snd (f c)) (snd (f d))"
proof -
  have "f (norm c) = f (norm d)" using assms(1) by (simp add: eqv_def)
  then have "fst (f c) = fst (f d) \<and> norm (snd (f c)) = norm (snd (f d))"
    using assms(2) [of c] assms(2) [of d] by simp
  then show "fst (f c) = fst (f d)" "eqv H (snd (f c)) (snd (f d))"
    using assms(1) frame_events [OF assms(3) [of c]] frame_events [OF assms(3) [of d]] by (simp_all add: eqv_def)
qed

fun sim :: "HistoryEvent list \<Rightarrow> 'r run \<Rightarrow> 'r run \<Rightarrow> bool" where
  "sim H (Done x c) r \<longleftrightarrow> (\<exists>d. r = Done x d \<and> eqv H c d)"
| "sim H (Blocked c) r \<longleftrightarrow> (\<exists>d. r = Blocked d \<and> eqv H c d)"
| "sim H (Panicked p c) r \<longleftrightarrow> (\<exists>d. r = Panicked p d \<and> eqv H c d)"
| "sim H OutOfFuel r \<longleftrightarrow> r = OutOfFuel"

lemma sim_bind:
  assumes "sim H r r'" and "\<And>x c d. eqv H c d \<Longrightarrow> sim H (f x c) (g x d)"
  shows "sim H (bind_run r f) (bind_run r' g)"
  using assms by (cases r) auto

lemma sim_split: "x = y \<Longrightarrow> eqv H c d \<Longrightarrow> sim H (Done x c) (Done y d)"
  by simp

section \<open>Awaiting with the same history\<close>

definition nsim :: "HistoryEvent list \<Rightarrow> next_event \<Rightarrow> bool" where
  "nsim H nxt \<longleftrightarrow> (\<forall>c d. eqv H c d \<longrightarrow> sim H (nxt c) (nxt d))"

lemma sim_awaitLoop:
  assumes "nsim H nxt"
  shows "eqv H c d \<Longrightarrow> sim H (awaitLoop m nxt t decode c) (awaitLoop m nxt t decode d)"
proof (induction m arbitrary: c d)
  case 0
  with eqv_sel(1) [OF 0] show ?case by (simp add: awaitLoop.simps)
next
  case (Suc m)
  note e = eqv_sel(1) [OF Suc.prems]
  have "sim H (nxt c) (nxt d)" using assms Suc.prems by (simp add: nsim_def)
  then show ?case
    using Suc e
    by (subst (1 2) awaitLoop.simps) (auto intro!: sim_bind split: option.split)
qed

lemma sim_task_Await: "nsim H nxt \<Longrightarrow> eqv H c d \<Longrightarrow> sim H (task_Await nxt t decode c) (task_Await nxt t decode d)"
  using sim_awaitLoop eqv_sel(8) unfolding task_Await_def by fastforce

lemma eqv_retry:
  assumes "eqv H c d"
  shows "eqv H (updRetry r f1 c) (updRetry r f1 d)" "eqv H (finishRetry r err c) (finishRetry r err d)"
    "eqv H (noteExecutionID r t c) (noteExecutionID r t d)" "eqv H (setTimerOrigin rc a x c) (setTimerOrigin rc a x d)"
proof -
  have fr: "wc_oldEvents (updRetry r f1 x) = wc_oldEvents x" "wc_newEvents (updRetry r f1 x) = wc_newEvents x" for x
    by (simp_all add: updRetry_def)
  have "norm (updRetry r f1 c) = norm (updRetry r f1 d)"
    using assms norm_misc(5) [of r f1 c] norm_misc(5) [of r f1 d] by (simp add: eqv_def)
  with fr show "eqv H (updRetry r f1 c) (updRetry r f1 d)" using assms by (simp add: eqv_def)
  show "eqv H (finishRetry r err c) (finishRetry r err d)"
    by (rule eqv_op [OF assms]) (simp_all add: frame_finishRetry)
  show "eqv H (noteExecutionID r t c) (noteExecutionID r t d)"
    by (rule eqv_op [OF assms]) (simp_all add: frame_noteExecutionID)
  show "eqv H (setTimerOrigin rc a x c) (setTimerOrigin rc a x d)"
    by (rule eqv_op [OF assms]) (simp_all add: frame_hist)
qed

lemma eqv_createTimerInternal:
  assumes "eqv H c d"
  shows "fst (createTimerInternal nm delay c) = fst (createTimerInternal nm delay d)"
    "fst (snd (createTimerInternal nm delay c)) = fst (snd (createTimerInternal nm delay d))"
    "eqv H (snd (snd (createTimerInternal nm delay c))) (snd (snd (createTimerInternal nm delay d)))"
proof -
  let ?f = "\<lambda>x. ((fst (createTimerInternal nm delay x), fst (snd (createTimerInternal nm delay x))), snd (snd (createTimerInternal nm delay x)))"
  have "fst (?f c) = fst (?f d)" "eqv H (snd (?f c)) (snd (?f d))"
    by (rule eqv_call [OF assms, of ?f]; simp add: frame_hist)+
  then show "fst (createTimerInternal nm delay c) = fst (createTimerInternal nm delay d)"
    "fst (snd (createTimerInternal nm delay c)) = fst (snd (createTimerInternal nm delay d))"
    "eqv H (snd (snd (createTimerInternal nm delay c))) (snd (snd (createTimerInternal nm delay d)))"
    by simp_all
qed

lemma eqv_retrySchedule:
  assumes "eqv H c d"
  shows "fst (retrySchedule rc x b c) = fst (retrySchedule rc x b d)"
    "eqv H (snd (retrySchedule rc x b c)) (snd (retrySchedule rc x b d))"
  by (rule eqv_call [OF assms, of "retrySchedule rc x b"]; simp add: frame_hist)+

lemma sim_if: "b = b' \<Longrightarrow> (b \<Longrightarrow> sim H x x') \<Longrightarrow> (\<not> b \<Longrightarrow> sim H y y') \<Longrightarrow>
    sim H (if b then x else y) (if b' then x' else y')"
  by simp

lemma sim_option: "sim H a a' \<Longrightarrow> (\<And>x. z = Some x \<Longrightarrow> sim H (f x) (f' x)) \<Longrightarrow>
    sim H (case z of None \<Rightarrow> a | Some x \<Rightarrow> f x) (case z of None \<Rightarrow> a' | Some x \<Rightarrow> f' x)"
  by (cases z) simp_all

text \<open>Between two attempts: the delay timer, with what follows it.\<close>

lemma sim_delay:
  assumes n: "nsim H nxt" and e: "eqv H c d"
    and k: "\<And>te c5 d5. eqv H c5 d5 \<Longrightarrow> sim H (K te c5) (K te d5)" and x: "\<And>c3 d3. eqv H c3 d3 \<Longrightarrow> X c3 = X d3"
  shows "sim H
     (let (timer, action, c3) = createTimerInternal nm delay c; c4 = setTimerOrigin rc action (X c3) c3
      in bind_run (task_Await nxt timer None c4) K)
     (let (timer, action, c3) = createTimerInternal nm delay d; c4 = setTimerOrigin rc action (X c3) c3
      in bind_run (task_Await nxt timer None c4) K)"
proof -
  note t = eqv_createTimerInternal [OF e, of nm delay]
  have "eqv H (setTimerOrigin rc (fst (snd (createTimerInternal nm delay c))) (X (snd (snd (createTimerInternal nm delay c))))
           (snd (snd (createTimerInternal nm delay c))))
         (setTimerOrigin rc (fst (snd (createTimerInternal nm delay d))) (X (snd (snd (createTimerInternal nm delay d))))
           (snd (snd (createTimerInternal nm delay d))))"
    using eqv_retry(4) [OF t(3)] x [OF t(3)] t(2) by simp
  from sim_task_Await [OF n this] show ?thesis
    using t(1) by (simp add: Let_def case_prod_beta) (rule sim_bind [OF _ k])
qed

lemma sim_retryLoop:
  assumes n: "nsim H nxt"
  shows "eqv H c d \<Longrightarrow> sim H (retryLoop k en nxt r c) (retryLoop k en nxt r d)"
proof (induction k arbitrary: c d)
  case 0
  with eqv_sel(2) [OF 0] show ?case by (simp add: retryLoop.simps)
next
  case (Suc k)
  have again: "sim H (case retrySchedule rc (rt_dispatchExecutionID (wc_retries c6 ! r)) True c6 of (t, c7) \<Rightarrow>
          retryLoop k en nxt r (updRetry r (\<lambda>x. x\<lparr>rt_current := t\<rparr>) c7))
        (case retrySchedule rc (rt_dispatchExecutionID (wc_retries d6 ! r)) True d6 of (t, c7) \<Rightarrow>
          retryLoop k en nxt r (updRetry r (\<lambda>x. x\<lparr>rt_current := t\<rparr>) c7))" if e: "eqv H c6 d6" for rc c6 d6
    using eqv_retrySchedule [OF e] eqv_sel(2) [OF e] by (auto simp: case_prod_beta intro!: Suc.IH eqv_retry)
  have aw: "sim H (task_Await nxt (rt_current (wc_retries c ! r)) None c) (task_Await nxt (rt_current (wc_retries d ! r)) None d)"
    using sim_task_Await [OF n Suc.prems] eqv_sel(2) [OF Suc.prems] by simp
  show ?case
    unfolding retryLoop.simps [of "Suc k"] nat.case
  proof (intro sim_if, goal_cases)
    case 3
    show ?case
    proof (rule sim_bind [OF aw], goal_cases)
      case (1 errOpt c1 d1)
      let ?t = "wc_tasks d1 ! rt_current (wc_retries d1 ! r)"
      note s = eqv_sel(1,2) [OF 1] and nt = eqv_retry(3) [OF 1, of r ?t] and tm = eqv_sel(3) [OF eqv_retry(3) [OF 1, of r ?t]]
      show ?case
        unfolding Let_def [of "wc_retries _ ! r"] Let_def [of "wc_tasks _ ! _"] Let_def [of "noteExecutionID _ _ _"]
          Let_def [of "computeNextDelay _ _ _ _ _ _"] s tm
        by (intro sim_option sim_if refl sim_split eqv_retry 1 nt sim_delay [OF n nt])
          (auto intro!: sim_option sim_split eqv_retry again simp: eqv_sel(2) Let_def)
    qed
  qed (use Suc.prems eqv_sel(2) [OF Suc.prems] in simp_all)
qed

lemma sim_retry_Await:
  assumes n: "nsim H nxt" and e: "eqv H c d"
  shows "sim H (retry_Await en nxt r decode c) (retry_Await en nxt r decode d)"
  unfolding retry_Await_def Let_def eqv_sel(2) [OF e]
proof (rule sim_bind [OF sim_retryLoop [OF n e]])
  fix x :: unit and c1 d1 assume e1: "eqv H c1 d1"
  show "sim H (case rt_terminalError (wc_retries c1 ! r) of
        Some err \<Rightarrow> Done (Some err) c1 | None \<Rightarrow> task_Await nxt (rt_current (wc_retries c1 ! r)) decode c1)
      (case rt_terminalError (wc_retries d1 ! r) of
        Some err \<Rightarrow> Done (Some err) d1 | None \<Rightarrow> task_Await nxt (rt_current (wc_retries d1 ! r)) decode d1)"
    unfolding eqv_sel(2) [OF e1] by (intro sim_option sim_split refl e1 sim_task_Await [OF n e1])
qed

lemma sim_legacyLoop:
  assumes n: "nsim H nxt"
  shows "eqv H c d \<Longrightarrow> sim H (legacyLoop k en nxt w decode c) (legacyLoop k en nxt w decode d)"
proof (induction k arbitrary: c d w)
  case (0 c d w)
  show ?case
    unfolding legacyLoop.simps [of 0] nat.case
  proof (rule sim_bind [OF sim_task_Await [OF n 0]], goal_cases)
    case (1 errOpt c1 d1)
    show ?case
      unfolding Let_def [of "ct_taskExecutionId _"] Let_def [of "computeNextDelay _ _ _ _ _ _"] eqv_sel(1,3) [OF 1]
      by (intro sim_option sim_if refl sim_split 1 sim_delay [OF n 1]) (auto intro!: sim_option)
  qed
next
  case (Suc k c d w)
  have again: "sim H (case retrySchedule rc x b c6 of (t, c7) \<Rightarrow> legacyLoop k en nxt (W t) decode c7)
        (case retrySchedule rc x b d6 of (t, c7) \<Rightarrow> legacyLoop k en nxt (W t) decode c7)" if e: "eqv H c6 d6" for rc x b c6 d6 W
    using eqv_retrySchedule [OF e] by (auto simp: case_prod_beta intro!: Suc.IH)
  show ?case
    unfolding legacyLoop.simps [of "Suc k"] nat.case
  proof (rule sim_bind [OF sim_task_Await [OF n Suc.prems]], goal_cases)
    case (1 errOpt c1 d1)
    show ?case
      unfolding Let_def [of "ct_taskExecutionId _"] Let_def [of "computeNextDelay _ _ _ _ _ _"] eqv_sel(1,3) [OF 1]
      by (intro sim_option sim_if refl sim_split 1 sim_delay [OF n 1]) (auto intro!: sim_option again simp: Let_def)
  qed
qed

lemma sim_awaitTask:
  assumes n: "nsim H nxt" and e: "eqv H c d"
  shows "sim H (awaitTask en nxt task decode c) (awaitTask en nxt task decode d)"
proof (cases task)
  case (TaskCompletable t)
  show ?thesis
    unfolding TaskCompletable awaitTask_def Let_def Task.case
    by (rule sim_bind [OF sim_task_Await [OF n e]]) (simp add: eqv_sel(1))
next
  case (TaskRetry r)
  show ?thesis
    unfolding TaskRetry awaitTask_def Let_def Task.case
    by (rule sim_bind [OF sim_retry_Await [OF n e]]) (simp add: eqv_sel(1,2))
next
  case (TaskWrapper w)
  show ?thesis
    unfolding TaskWrapper awaitTask_def legacy_Await_def Let_def Task.case
    by (rule sim_bind [OF sim_legacyLoop [OF n e]]) (auto simp add: eqv_sel(1))
qed

section \<open>Calls with the same history\<close>

text \<open>At most one event of the history starts the execution, so that the execution id does not depend on the split.\<close>

definition oneStart :: "HistoryEvent list \<Rightarrow> bool" where
  "oneStart H \<longleftrightarrow> length (filter (\<lambda>e. GetExecutionStarted e \<noteq> None) H) \<le> 1"

lemma historyExecutionID_norm:
  assumes "oneStart (wc_oldEvents c @ wc_newEvents c)"
  shows "historyExecutionID (norm c) = historyExecutionID c"
proof (cases "find_first GetExecutionStarted (wc_newEvents c)")
  case (Some es)
  then obtain e where e: "e \<in> set (wc_newEvents c)" "GetExecutionStarted e \<noteq> None"
    using find_first_None_iff [of GetExecutionStarted "wc_newEvents c"] by auto
  have "filter (\<lambda>e. GetExecutionStarted e \<noteq> None) (wc_newEvents c) \<noteq> []"
    using e by (auto simp: filter_empty_conv)
  then have "length (filter (\<lambda>e. GetExecutionStarted e \<noteq> None) (wc_oldEvents c)) = 0"
    using assms by (cases "filter (\<lambda>e. GetExecutionStarted e \<noteq> None) (wc_newEvents c)") (auto simp: oneStart_def)
  then have "find_first GetExecutionStarted (wc_oldEvents c) = None"
    by (auto simp: find_first_None_iff filter_empty_conv)
  with Some show ?thesis by (simp add: historyExecutionID_def find_first_append)
qed (simp add: historyExecutionID_def find_first_append split: option.split)

lemma eqv_executionID: "oneStart H \<Longrightarrow> eqv H c d \<Longrightarrow> historyExecutionID c = historyExecutionID d"
  using historyExecutionID_norm [of c] historyExecutionID_norm [of d] by (simp add: eqv_def)

lemma eqv_withRetries:
  assumes "eqv H c d"
  shows "fst (internalScheduleTaskWithRetries name t0 rc policy x c) = fst (internalScheduleTaskWithRetries name t0 rc policy x d)"
    "eqv H (snd (internalScheduleTaskWithRetries name t0 rc policy x c)) (snd (internalScheduleTaskWithRetries name t0 rc policy x d))"
proof -
  let ?f = "internalScheduleTaskWithRetries name t0 rc policy x"
  have "?f (norm y) = (fst (?f y), norm (snd (?f y)))" for y
    by (simp add: internalScheduleTaskWithRetries_def Let_def case_prod_beta split: option.split)
  then show "fst (?f c) = fst (?f d)" "eqv H (snd (?f c)) (snd (?f d))"
    using eqv_call [OF assms, of ?f] frame_withRetries by auto
qed

lemma eqv_newUUID:
  assumes "eqv H c d" shows "fst (newUUID en c) = fst (newUUID en d)" "eqv H (snd (newUUID en c)) (snd (newUUID en d))"
  by (rule eqv_call [OF assms]; simp add: frame_hist)+

lemma eqv_calls:
  assumes H: "oneStart H" and e: "eqv H c d"
  shows "fst (ctx_CallActivity en name opts c) = fst (ctx_CallActivity en name opts d)"
    "eqv H (snd (ctx_CallActivity en name opts c)) (snd (ctx_CallActivity en name opts d))"
    "fst (ctx_CallChildWorkflow en name copts c) = fst (ctx_CallChildWorkflow en name copts d)"
    "eqv H (snd (ctx_CallChildWorkflow en name copts c)) (snd (ctx_CallChildWorkflow en name copts d))"
proof -
  have ff: "eqv H (c\<lparr>wc_firsts := y\<rparr>) (d\<lparr>wc_firsts := y\<rparr>)" for y
    by (rule eqv_op [OF e]) (simp_all add: frame_hist hist_def)
  note fl = eqv_call [OF e, of "failedTask _ _", OF norm_misc(4)]
  note ac = eqv_call [OF eqv_newUUID(2) [OF e], of "internalScheduleActivity _ _ _", OF norm_schedule(1)]
  note ch = eqv_call [OF e, of "internalCallChildWorkflow _ _ _", OF norm_schedule(2)]
  note s = eqv_newUUID(1) [OF e] eqv_sel(3) [OF e] eqv_sel(15-17) [OF e] eqv_executionID [OF H e]
  show "fst (ctx_CallActivity en name opts c) = fst (ctx_CallActivity en name opts d)"
    "eqv H (snd (ctx_CallActivity en name opts c)) (snd (ctx_CallActivity en name opts d))"
    by (auto simp: ctx_CallActivity_def Let_def case_prod_beta s frame_hist fl ac eqv_withRetries [OF eqv_newUUID(2) [OF e]]
        split: sum.split option.split)
  show "fst (ctx_CallChildWorkflow en name copts c) = fst (ctx_CallChildWorkflow en name copts d)"
    "eqv H (snd (ctx_CallChildWorkflow en name copts c)) (snd (ctx_CallChildWorkflow en name copts d))"
    by (auto simp: ctx_CallChildWorkflow_def Let_def case_prod_beta s frame_hist fl ch eqv_withRetries [OF eqv_newUUID(2) [OF ff]]
        eqv_newUUID(1) [OF ff]
        split: sum.split option.split)
qed

text \<open>Workflow code that does not look at \<open>IsReplaying\<close>.\<close>

primrec replay_blind :: "Workflow \<Rightarrow> bool" where
  "replay_blind (Return output err) = True"
| "replay_blind (Panic p) = True"
| "replay_blind (Call x k) =
     ((\<forall>v b. k (AnswerView (v\<lparr>vw_IsReplaying := b\<rparr>)) = k (AnswerView v)) \<and> (\<forall>a. replay_blind (k a)))"

definition blindRegistry :: "(Workflow, 'a) TaskRegistry \<Rightarrow> bool" where
  "blindRegistry reg \<longleftrightarrow> (\<forall>name version w v. ResolveWorkflow name version reg = Inr (w, v) \<longrightarrow> replay_blind w)"

lemma readContext_norm: "readContext (norm c) = (readContext c)\<lparr>vw_IsReplaying := False\<rparr>"
  by (simp add: readContext_def)

lemma sim_perform:
  assumes n: "nsim H nxt" and H: "oneStart H" and e: "eqv H c d" and x: "x \<noteq> CallReadContext"
  shows "sim H (perform en nxt x c) (perform en nxt x d)"
proof (cases x)
  case (CallCreateTimer opts delay)
  then show ?thesis
    using eqv_call [OF e, of "ctx_CreateTimer en opts delay"] by (simp add: perform_def case_prod_beta frame_hist)
next
  case (CallWaitForSingleEvent name timeout)
  then show ?thesis
    using eqv_call [OF e, of "WaitForSingleEvent en name timeout"] by (simp add: perform_def case_prod_beta frame_hist)
next
  case (CallScheduleNewWorkflow name opts)
  then show ?thesis
    using eqv_call [OF e, of "ScheduleNewWorkflow name opts"] by (simp add: perform_def case_prod_beta frame_hist)
next
  case (CallIsPatched p)
  then show ?thesis
    using eqv_call [OF e, of "IsPatched p"] by (simp add: perform_def case_prod_beta frame_hist)
next
  case (CallContinueAsNew inp keep)
  then show ?thesis
    using eqv_op [OF e, of "ctx_ContinueAsNew inp keep"] by (simp add: perform_def frame_hist)
next
  case (CallSetCustomStatus s)
  then show ?thesis
    using eqv_op [OF e, of "\<lambda>c. c\<lparr>wc_customStatus := s\<rparr>"] by (simp add: perform_def frame_hist)
next
  case (CallAwait task decode)
  then show ?thesis
    using sim_awaitTask [OF n e] eqv_sel(9) [OF e] e by (simp add: perform_def)
qed (use e x eqv_calls [OF H e] eqv_sel(9,10) [OF e] in \<open>simp_all add: perform_def case_prod_beta\<close>)

lemma sim_runWorkflow:
  assumes n: "nsim H nxt" and H: "oneStart H"
  shows "replay_blind w \<Longrightarrow> eqv H c d \<Longrightarrow> sim H (runWorkflow en nxt w c) (runWorkflow en nxt w d)"
proof (induction w arbitrary: c d)
  case (Call x k)
  show ?case
  proof (cases "x = CallReadContext")
    case True
    have v: "k (AnswerView (v\<lparr>vw_IsReplaying := b\<rparr>)) = k (AnswerView v)" for v b using Call.prems(1) by simp
    have "k (AnswerView (readContext c)) = k (AnswerView (readContext d))"
      using v [of False "readContext c"] v [of False "readContext d"] readContext_norm [of c] readContext_norm [of d]
        eqv_norm [OF Call.prems(2)] by simp
    then show ?thesis
      using True Call.IH [of "k (AnswerView (readContext d))" c d] Call.prems by (simp add: perform_def)
  next
    case False
    show ?thesis
      unfolding runWorkflow.simps
    proof (rule sim_bind [OF sim_perform [OF n H Call.prems(2) False]])
      fix a c1 d1 assume "eqv H c1 d1"
      then show "sim H (runWorkflow en nxt (k a) c1) (runWorkflow en nxt (k a) d1)"
        using Call.IH [of "k a" c1 d1] Call.prems(1) by simp
    qed
  qed
qed simp_all

section \<open>Events with the same history\<close>

lemma eqv_getNextHistoryEvent:
  assumes "eqv H c d"
  shows "getNextHistoryEvent c = None \<and> getNextHistoryEvent d = None \<or>
    (\<exists>e c1 d1. getNextHistoryEvent c = Some (e, c1) \<and> getNextHistoryEvent d = Some (e, d1) \<and> eqv H c1 d1)"
proof (cases "getNextHistoryEvent c")
  case None
  then show ?thesis using eqv_sel(8) [OF assms] by (simp add: getNextHistoryEvent_None)
next
  case (Some p)
  have next_event: "\<exists>b. getNextHistoryEvent x = Some (H ! wc_historyIndex x,
        x\<lparr>wc_IsReplaying := b, wc_historyIndex := Suc (wc_historyIndex x)\<rparr>)"
    if "getNextHistoryEvent x \<noteq> None" "wc_oldEvents x @ wc_newEvents x = H" for x
    using that by (auto simp: getNextHistoryEvent_def nth_append split: if_splits)
  have H: "wc_oldEvents c @ wc_newEvents c = H" "wc_oldEvents d @ wc_newEvents d = H" using assms by (simp_all add: eqv_def)
  have "getNextHistoryEvent d \<noteq> None"
    using Some eqv_sel(8) [OF assms] getNextHistoryEvent_None [of c] getNextHistoryEvent_None [of d] by simp
  then obtain b b' where g: "getNextHistoryEvent c = Some (H ! wc_historyIndex c,
        c\<lparr>wc_IsReplaying := b, wc_historyIndex := Suc (wc_historyIndex c)\<rparr>)"
      "getNextHistoryEvent d = Some (H ! wc_historyIndex d,
        d\<lparr>wc_IsReplaying := b', wc_historyIndex := Suc (wc_historyIndex d)\<rparr>)"
    using next_event [of c] next_event [of d] Some H by auto
  have nx: "norm (x\<lparr>wc_IsReplaying := r, wc_historyIndex := i\<rparr>) = (norm x)\<lparr>wc_historyIndex := i\<rparr>" for x r i
    by (simp add: norm_def)
  show ?thesis
    using g eqv_sel(13) [OF assms] assms by (simp add: eqv_def nx del: norm_upd)
qed

lemma nsim_processNextEvent:
  assumes "\<And>e c d. eqv H c d \<Longrightarrow> sim H (pe e c) (pe e d)"
  shows "nsim H (processNextEvent pe)"
  unfolding nsim_def
proof (intro allI impI)
  fix c d assume "eqv H c d"
  from eqv_getNextHistoryEvent [OF this] show "sim H (processNextEvent pe c) (processNextEvent pe d)"
    using \<open>eqv H c d\<close> assms by (auto simp: processNextEvent_def intro!: sim_bind)
qed

lemma norm_onWorkflowStarted [simp]: "onWorkflowStarted e v (norm c) = norm (onWorkflowStarted e v c)"
  by (simp add: onWorkflowStarted_def Let_def split: option.split)

lemma norm_finishWorkflow [simp]: "finishWorkflow en out err (norm c) = norm (finishWorkflow en out err c)"
proof -
  define p where "p x = (if wc_continuedAsNew x then setContinuedAsNew x else setComplete out x)" for x
  have "p (norm c) = (fst (p c), norm (snd (p c)))" by (simp add: p_def)
  then show ?thesis
    unfolding finishWorkflow_def p_def [symmetric] by (cases "p c") (simp split: option.split)
qed

lemma eqv_finishWorkflow: "eqv H c d \<Longrightarrow> eqv H (finishWorkflow en out err c) (finishWorkflow en out err d)"
  by (rule eqv_op) (simp_all add: frame_hist)

lemma sim_onExecutionStarted:
  assumes n: "nsim H nxt" and H: "oneStart H" and reg: "blindRegistry reg" and e: "eqv H c d"
  shows "sim H (onExecutionStarted en reg nxt es c) (onExecutionStarted en reg nxt es d)"
proof (cases "ResolveWorkflow (es_Name es) (wc_VersionName d) reg")
  case (Inl err)
  then show ?thesis using e eqv_sel(11) [OF e] by (simp add: onExecutionStarted_def getWorkflow_def)
next
  case (Inr p)
  obtain w version where p: "p = (w, version)" by fastforce
  let ?prep = "\<lambda>x. (case version of None \<Rightarrow> x | Some v \<Rightarrow> x\<lparr>wc_VersionName := Some v\<rparr>)\<lparr>wc_Name := es_Name es,
      wc_rawInput := (case es_Input es of None \<Rightarrow> wc_rawInput x | Some i \<Rightarrow> i)\<rparr>"
  have r: "wc_rawInput (case version of None \<Rightarrow> x | Some v \<Rightarrow> x\<lparr>wc_VersionName := Some v\<rparr>) = wc_rawInput x" for x
    by (simp split: option.split)
  have prep: "eqv H (?prep c) (?prep d)"
    by (rule eqv_op [OF e, of ?prep]) (simp_all add: frame_hist hist_def split: option.split)
  have "replay_blind w" using reg Inr p by (auto simp: blindRegistry_def)
  note run = sim_runWorkflow [OF n H this prep, of en]
  show ?thesis
    using Inr p eqv_sel(11) [OF e] sim_bind [OF run, of "\<lambda>(output, appError) c3. Done None (finishWorkflow en output appError c3)"
        "\<lambda>(output, appError) c3. Done None (finishWorkflow en output appError c3)"]
    by (auto simp: onExecutionStarted_def getWorkflow_def Let_def r eqv_finishWorkflow cong: option.case_cong)
qed

lemma sim_processAll:
  assumes "\<And>e c d. eqv H c d \<Longrightarrow> sim H (pe e c) (pe e d)"
  shows "eqv H c d \<Longrightarrow> sim H (processAll pe es c) (processAll pe es d)"
proof (induction es arbitrary: c d)
  case (Cons e es)
  show ?case
    unfolding processAll.simps by (rule sim_bind [OF assms [OF Cons.prems]]) (auto intro!: sim_option Cons.IH)
qed simp

lemma sim_onExecutionResumed:
  assumes "\<And>e c d. eqv H c d \<Longrightarrow> sim H (pe e c) (pe e d)" and e: "eqv H c d"
  shows "sim H (onExecutionResumed pe c) (onExecutionResumed pe d)"
proof -
  have c1: "eqv H (c\<lparr>wc_isSuspended := False\<rparr>) (d\<lparr>wc_isSuspended := False\<rparr>)"
    by (rule eqv_op [OF e]) (simp_all add: frame_fields)
  have c2: "eqv H (x\<lparr>wc_suspendedEvents := []\<rparr>) (y\<lparr>wc_suspendedEvents := []\<rparr>)" if "eqv H x y" for x y
    by (rule eqv_op [OF that]) (simp_all add: frame_def susp_ok_def)
  show ?thesis
    unfolding onExecutionResumed_def Let_def eqv_sel(6) [OF c1]
    by (rule sim_bind [OF sim_processAll [OF assms(1) c1]]) (auto intro!: sim_option c2)
qed

lemma norm_onExecutionTerminated [simp]: "onExecutionTerminated en et (norm c) = norm (onExecutionTerminated en et c)"
  by (simp add: onExecutionTerminated_def)

lemma eqv_events:
  assumes e: "eqv H c d"
  shows "eqv H (onWorkflowStarted ev v c) (onWorkflowStarted ev v d)" "eqv H (onTaskCompleted tc c) (onTaskCompleted tc d)"
    "eqv H (onTaskFailed tf c) (onTaskFailed tf d)" "eqv H (onChildWorkflowCompleted soc c) (onChildWorkflowCompleted soc d)"
    "eqv H (onChildWorkflowFailed sof c) (onChildWorkflowFailed sof d)" "eqv H (onTimerFired tmf c) (onTimerFired tmf d)"
    "eqv H (onExternalEventRaised en ev er c) (onExternalEventRaised en ev er d)"
    "eqv H (onExecutionTerminated en et c) (onExecutionTerminated en et d)"
    "eqv H (c\<lparr>wc_isSuspended := b\<rparr>) (d\<lparr>wc_isSuspended := b\<rparr>)"
  by (rule eqv_op [OF e]; simp add: frame_hist frame_fields frame_onExecutionTerminated)+

lemma eqv_scheduling:
  assumes e: "eqv H c d"
  shows "fst (onTaskScheduled i ts c) = fst (onTaskScheduled i ts d)"
    "eqv H (snd (onTaskScheduled i ts c)) (snd (onTaskScheduled i ts d))"
    "fst (onChildWorkflowScheduled i cs c) = fst (onChildWorkflowScheduled i cs d)"
    "eqv H (snd (onChildWorkflowScheduled i cs c)) (snd (onChildWorkflowScheduled i cs d))"
    "fst (onDetachedWorkflowCreated i iid c) = fst (onDetachedWorkflowCreated i iid d)"
    "eqv H (snd (onDetachedWorkflowCreated i iid c)) (snd (onDetachedWorkflowCreated i iid d))"
    "fst (onTimerCreated i tc c) = fst (onTimerCreated i tc d)" "eqv H (snd (onTimerCreated i tc c)) (snd (onTimerCreated i tc d))"
  by (rule eqv_call [OF e]; simp add: frame_hist)+

lemma eqv_buffer:
  assumes "eqv H c d"
  shows "eqv H (c\<lparr>wc_suspendedEvents := es\<rparr>) (d\<lparr>wc_suspendedEvents := es\<rparr>)"
proof -
  have nx: "norm (x\<lparr>wc_suspendedEvents := es\<rparr>) = (norm x)\<lparr>wc_suspendedEvents := es\<rparr>" for x by (simp add: norm_def)
  show ?thesis using assms by (simp add: eqv_def nx del: norm_upd)
qed

lemma sim_processEvent:
  assumes H: "oneStart H" and reg: "blindRegistry reg"
  shows "eqv H c d \<Longrightarrow> sim H (processEvent n en reg e c) (processEvent n en reg e d)"
proof (induction n arbitrary: e c d)
  case (Suc n)
  note n = nsim_processNextEvent [OF Suc.IH]
  note st = sim_onExecutionStarted [OF n H reg Suc.prems] and rs = sim_onExecutionResumed [OF Suc.IH Suc.prems]
  note sc = eqv_scheduling [OF Suc.prems] and ev = eqv_events [OF Suc.prems] and s = eqv_sel(4-6) [OF Suc.prems]
  show ?case
    by (cases "he_EventType e")
      (simp_all add: isResumeOrTerminate_def case_prod_beta s st rs sc ev Suc.prems eqv_buffer [OF Suc.prems])
qed simp

lemma eqv_completions:
  assumes e: "eqv H c d"
  shows "eqv H (setFailed en err c) (setFailed en err d)" "eqv H (setVersionNotRegistered c) (setVersionNotRegistered d)"
  by (rule eqv_op [OF e]; simp add: frame_hist)+

lemma sim_startLoop:
  assumes n: "nsim H nxt"
  shows "eqv H c d \<Longrightarrow> sim H (startLoop m en nxt c) (startLoop m en nxt d)"
proof (induction m arbitrary: c d)
  case (Suc m)
  have "sim H (nxt c) (nxt d)" using n Suc.prems by (simp add: nsim_def)
  then show ?case
    unfolding startLoop.simps
    by (rule sim_bind) (auto intro!: sim_option Suc.IH simp: eqv_completions)
qed simp

lemma norm_resetContext: "resetContext (norm c) = norm (resetContext c)"
  by (simp add: resetContext_def)

lemma eqv_resetContext: "eqv H c d \<Longrightarrow> eqv H (resetContext c) (resetContext d)"
  using norm_resetContext [of c] norm_resetContext [of d] by (simp add: eqv_def resetContext_def)

lemma norm_ctx_actions: "ctx_actions en (norm c) = ctx_actions en c"
  by (simp add: ctx_actions_def)

lemma eqv_start:
  assumes H: "oneStart H" and reg: "blindRegistry reg" and e: "eqv H c d"
  shows "rel_option (rel_sum (=) (rel_prod (=) (eqv H))) (start en reg c) (start en reg d)"
proof -
  note r = eqv_resetContext [OF e]
  have n: "nestingBound (resetContext c) = nestingBound (resetContext d)" "remaining (resetContext c) = remaining (resetContext d)"
    using eqv_sel(8) [OF r] by (simp_all add: nestingBound_def)
  have "nsim H (processNextEvent (processEvent k en reg))" for k
    by (rule nsim_processNextEvent, rule sim_processEvent [OF H reg])
  then have "sim H (runTurns en reg c) (runTurns en reg d)"
    unfolding runTurns_def Let_def n using r by (intro sim_startLoop)
  moreover have "eqv H x y \<Longrightarrow> ctx_actions en x = ctx_actions en y" for x y
    using norm_ctx_actions [of en x] norm_ctx_actions [of en y] by (simp add: eqv_def)
  ultimately show ?thesis
    by (cases "runTurns en reg c") (auto simp: start_def)
qed

lemma eqv_workflowResponse: "eqv H c d \<Longrightarrow> workflowResponse iid actions c = workflowResponse iid actions d"
proof -
  assume e: "eqv H c d"
  have "workflowResponse iid actions (norm x) = workflowResponse iid actions x" for x by (simp add: workflowResponse_def)
  from this [of c] this [of d] eqv_norm [OF e] show ?thesis by simp
qed

lemma eqv_NewWorkflowContext:
  "olds @ news = olds' @ news' \<Longrightarrow> eqv (olds @ news) (SetPropagatedHistory ph (NewWorkflowContext iid olds news))
     (SetPropagatedHistory ph (NewWorkflowContext iid olds' news'))"
  by (simp add: eqv_def norm_def SetPropagatedHistory_def NewWorkflowContext_def)

lemma ExecuteWorkflow_split:
  assumes H: "oneStart (olds @ news)" and reg: "blindRegistry reg" and same: "olds @ news = olds' @ news'"
  shows "ExecuteWorkflow en reg iid olds news propagated = ExecuteWorkflow en reg iid olds' news' propagated"
proof -
  have none: "SetPropagatedHistory None (NewWorkflowContext iid olds news) = NewWorkflowContext iid olds news" for olds news
    by (simp add: SetPropagatedHistory_def NewWorkflowContext_def)
  note st = eqv_start [OF H reg eqv_NewWorkflowContext [OF same], of en _ iid]
  have turn: "(case start en reg c of None \<Rightarrow> None | Some (Inl p) \<Rightarrow> Some (Crashed p)
        | Some (Inr (actions, c2)) \<Rightarrow> Some (Returned (Inr (workflowResponse iid actions c2)))) =
      (case start en reg d of None \<Rightarrow> None | Some (Inl p) \<Rightarrow> Some (Crashed p)
        | Some (Inr (actions, c2)) \<Rightarrow> Some (Returned (Inr (workflowResponse iid actions c2))))"
    if "rel_option (rel_sum (=) (rel_prod (=) (eqv (olds @ news)))) (start en reg c) (start en reg d)" for c d
    using that by (auto split: option.split sum.split elim!: option.rel_cases simp: rel_sum_simps) (rule eqv_workflowResponse)
  show ?thesis
    using turn [OF st] turn [OF st [of None, unfolded none]]
    by (auto simp: ExecuteWorkflow_def Let_def split: sum.split)
qed

end
