(* ===== verification/ReplayInv.thy ===== *)
theory ReplayInv
  imports ReplayEnds
begin

text \<open>
  Invariants of the replay engine. \<open>action_invariant\<close> and \<open>turn_invariant\<close> state what a property of the
  pending actions has to keep so that every run keeps it; they are interpreted on \<open>turn_ok\<close>: the
  actions are entered once, under their own ids, below the sequence number, and a terminated
  workflow has a final completion among them.
\<close>

section \<open>Invariants of a turn\<close>

text \<open>The part of the context that holds the actions.\<close>

definition acts :: "WorkflowContext \<Rightarrow> (int32 \<times> nat) list \<times> WorkflowAction list \<times> int32 \<times> bool" where
  "acts c = (wc_pendingActions c, wc_actions c, wc_sequenceNumber c, wc_isTerminated c)"

lemma acts_fields [simp]:
  "acts (c\<lparr>wc_customStatus := a1\<rparr>) = acts c" "acts (c\<lparr>wc_isSuspended := a2\<rparr>) = acts c"
  "acts (c\<lparr>wc_suspendedEvents := a3\<rparr>) = acts c" "acts (c\<lparr>wc_optionalTimerIDs := a4\<rparr>) = acts c"
  "acts (c\<lparr>wc_IsReplaying := a5\<rparr>) = acts c" "acts (c\<lparr>wc_historyIndex := a6\<rparr>) = acts c"
  "acts (c\<lparr>wc_Name := a7\<rparr>) = acts c" "acts (c\<lparr>wc_rawInput := a8\<rparr>) = acts c" "acts (c\<lparr>wc_VersionName := a9\<rparr>) = acts c"
  by (simp_all add: acts_def)

lemma acts_upds [simp]:
  "acts (updTask t f c) = acts c" "acts (markResolved k i c) = acts c" "acts (bufferResolution key r c) = acts c"
  "acts (snd (newTask c)) = acts c" "acts (runCallback cb c) = acts c" "acts (ctx_ContinueAsNew inp keep c) = acts c"
  "acts (snd (newUUID en c)) = acts c" "acts (updRetry q f2 c) = acts c" "acts (finishRetry q err c) = acts c"
  "acts (noteExecutionID q ct c) = acts c"
  by (simp_all add: acts_def updTask_def markResolved_def bufferResolution_def newTask_def runCallback_def ctx_ContinueAsNew_def
      newUUID_def updRetry_def finishRetry_def noteExecutionID_def Let_def)

lemma acts_tasks [simp]:
  "acts (completeInternal t c) = acts c" "acts (task_complete t raw c) = acts c"
  "acts (task_fail t fd c) = acts c" "acts (task_cancel t c) = acts c" "acts (task_onCompleted t cb c) = acts c"
  by (simp_all add: completeInternal_def task_complete_def task_fail_def task_cancel_def task_onCompleted_def Let_def
      split: option.split)

lemma acts_misc [simp]:
  "acts (snd (failedTask et msg c)) = acts c" "acts (snd (isPatched p c)) = acts c" "acts (onWorkflowStarted e v c) = acts c"
  by (simp_all add: failedTask_def isPatched_def onWorkflowStarted_def Let_def case_prod_beta split: option.split)
    (simp_all add: acts_def split: option.split)

lemma acts_IsPatched [simp]: "acts (snd (IsPatched p c)) = acts c"
proof -
  have "acts (d\<lparr>wc_encounteredPatches := x\<rparr>) = acts d" for d x by (simp add: acts_def)
  then show ?thesis by (simp add: IsPatched_def case_prod_beta)
qed

lemma acts_raised [simp]: "acts (onExternalEventRaised en e er c) = acts c"
proof -
  have "acts (c\<lparr>wc_lists := x\<rparr>) = acts c" "acts (c\<lparr>wc_pendingExternalEventTasks := y\<rparr>) = acts c"
    "acts (c\<lparr>wc_bufferedExternalEvents := z\<rparr>) = acts c" for x y z by (simp_all add: acts_def)
  then show ?thesis by (simp add: onExternalEventRaised_def Let_def split: option.split)
qed

text \<open>
  What depends only on the actions and is kept by a change of an action that is not a completion is
  kept by the delivery of results.
\<close>

locale action_invariant =
  fixes I :: "WorkflowContext \<Rightarrow> bool"
  assumes same: "acts d = acts c \<Longrightarrow> I c \<Longrightarrow> I d"
    and upd: "wa_Id (f (wc_actions c ! a)) = wa_Id (wc_actions c ! a) \<Longrightarrow>
      GetCompleteWorkflow (f (wc_actions c ! a)) = GetCompleteWorkflow (wc_actions c ! a) \<Longrightarrow> I c \<Longrightarrow> I (updAction a f c)"
begin

lemma I_restore: "I c \<Longrightarrow> I (restoreActivityScheduleIdentity i x c)"
  by (auto simp: restoreActivityScheduleIdentity_def GetScheduleTask_def GetCompleteWorkflow_def
      split: option.split WorkflowActionType.splits intro!: upd)

lemma I_markResolved: "I c \<Longrightarrow> I (markResolved k i c)"
  by (rule same) simp_all

lemma I_resolutions:
  assumes "I c"
  shows "I (onTaskCompleted tc c)" "I (onTaskFailed tf c)" "I (onChildWorkflowCompleted soc c)"
    "I (onChildWorkflowFailed sof c)" "I (onTimerFired tmf c)"
proof -
  have r: "I (restoreActivityScheduleIdentity i x (markResolved k j c))" for i x k j
    using assms by (intro I_restore I_markResolved)
  show "I (onTaskCompleted tc c)" "I (onTaskFailed tf c)"
    using same [OF _ r] same [OF _ assms]
    by (simp_all add: onTaskCompleted_def onTaskFailed_def Let_def split: option.split)
  show "I (onChildWorkflowCompleted soc c)" "I (onChildWorkflowFailed sof c)" "I (onTimerFired tmf c)"
    using same [OF _ assms]
    by (simp_all add: onChildWorkflowCompleted_def onChildWorkflowFailed_def onTimerFired_def Let_def split: option.split)
qed

lemma I_redeliver: "I c \<Longrightarrow> I (redeliver r c)"
  using I_resolutions by (cases r) (simp_all add: redeliver_def)

lemma I_consume: "I c \<Longrightarrow> I (consumeBufferedResolution kind i c)"
proof -
  assume c: "I c"
  have "I (c\<lparr>wc_bufferedResolutions := m\<rparr>)" for m by (rule same [OF _ c]) (simp add: acts_def)
  with c show ?thesis by (simp add: consumeBufferedResolution_def I_redeliver split: option.split)
qed

lemma I_consumeFor: "I c \<Longrightarrow> I (consumeFor is c)"
  by (induction "is" arbitrary: c) (simp_all add: I_consume split: option.split)

lemma I_consumeReady: "I c \<Longrightarrow> I (consumeReadyBufferedResolutions c)"
  by (simp add: consumeReadyBufferedResolutions_def I_consumeFor)

end

text \<open>Iterating over a map visits its entries, in any order.\<close>

definition orders :: "engine \<Rightarrow> bool" where
  "orders en \<longleftrightarrow> (\<forall>m. set (en_orderActions en m) = set m)"

text \<open>
  What is also kept by a new action, by the removal of an action or of an optional timer by an event,
  and by a termination is kept by every run.
\<close>

locale turn_invariant = action_invariant I for I :: "WorkflowContext \<Rightarrow> bool" +
  assumes add: "I c \<Longrightarrow> I (snd (snd (addAction ty r c)))"
    and delete: "\<not> wc_isTerminated c \<Longrightarrow> I c \<Longrightarrow> I (deletePendingAction i c)"
    and drop: "\<not> wc_isTerminated c \<Longrightarrow> I c \<Longrightarrow> I (snd (dropOptionalExternalEventTimerAt i c))"
    and terminated: "orders en \<Longrightarrow> \<not> wc_isTerminated c \<Longrightarrow> I c \<Longrightarrow> I (onExecutionTerminated en et c)"
begin

lemma I_registerTask: "I c \<Longrightarrow> I (snd (registerTask kind ca i c))"
proof -
  assume c: "I c"
  have "acts (d\<lparr>wc_pendingTasks := m\<rparr>) = acts d" for d m by (simp add: acts_def)
  then show ?thesis using same [OF _ c] by (simp add: registerTask_def Let_def case_prod_beta I_consume)
qed

lemma I_schedule:
  assumes "I c"
  shows "I (snd (internalScheduleActivity name x o1 c))" "I (snd (internalCallChildWorkflow name o2 rp c))"
    "I (snd (snd (createTimerInternal nm delay c)))" "I (snd (createExternalEventTimerInternal name fireAt c))"
proof -
  have o: "I d \<Longrightarrow> I (d\<lparr>wc_optionalTimerIDs := m\<rparr>)" for d m by (erule same [rotated]) (simp add: acts_def)
  show "I (snd (internalScheduleActivity name x o1 c))" "I (snd (internalCallChildWorkflow name o2 rp c))"
    "I (snd (snd (createTimerInternal nm delay c)))" "I (snd (createExternalEventTimerInternal name fireAt c))"
    using assms
    by (simp_all add: internalScheduleActivity_def internalCallChildWorkflow_def createTimerInternal_def
        createExternalEventTimerInternal_def Let_def case_prod_beta I_registerTask add o)
qed

lemma I_retry:
  assumes "I c" shows "I (snd (retrySchedule rc x b c))" "I (setTimerOrigin rc a x c)"
proof -
  have f: "I d \<Longrightarrow> I (d\<lparr>wc_firsts := y\<rparr>)" for d y by (erule same [rotated]) (simp add: acts_def)
  have o: "I d \<Longrightarrow> I (setOrigin a ori d)" for d ori
    unfolding setOrigin_def by (rule upd) (auto simp: GetCompleteWorkflow_def split: WorkflowActionType.split)
  show "I (snd (retrySchedule rc x b c))" "I (setTimerOrigin rc a x c)"
    using assms by (simp_all add: retrySchedule_def setTimerOrigin_def Let_def case_prod_beta I_schedule f o split: retryCall.split)
qed

lemma I_withRetries: "I c \<Longrightarrow> I (snd (internalScheduleTaskWithRetries name t0 rc policy x c))"
proof -
  assume c: "I c"
  have r: "I d \<Longrightarrow> I (d\<lparr>wc_retries := y\<rparr>)" for d y by (erule same [rotated]) (simp add: acts_def)
  have "I (snd (IsPatched p c))" for p by (rule same [OF _ c]) simp
  with c r show ?thesis
    by (simp add: internalScheduleTaskWithRetries_def Let_def case_prod_beta I_retry split: option.split)
qed

lemma I_calls:
  assumes c: "I c"
  shows "I (snd (ctx_CallActivity en name opts c))" "I (snd (ctx_CallChildWorkflow en name copts c))"
    "I (snd (ctx_CreateTimer en topts delay c))" "I (snd (ScheduleNewWorkflow name dopts c))"
proof -
  have u: "I (snd (newUUID en c))" "I (snd (failedTask et msg c))" for et msg by (rule same [OF _ c], simp)+
  have f: "I (snd (newUUID en (c\<lparr>wc_firsts := y\<rparr>)))" "I (c\<lparr>wc_defaultDetachedWorkflowCounter := n\<rparr>)" for y n
    by (rule same [OF _ c], simp add: acts_def newUUID_def)+
  show "I (snd (ctx_CallActivity en name opts c))" "I (snd (ctx_CallChildWorkflow en name copts c))"
    "I (snd (ctx_CreateTimer en topts delay c))" "I (snd (ScheduleNewWorkflow name dopts c))"
    using c by (auto simp: ctx_CallActivity_def ctx_CallChildWorkflow_def ctx_CreateTimer_def ScheduleNewWorkflow_def Let_def
        case_prod_beta u f I_withRetries I_schedule add split: sum.splits option.splits)
qed

lemma I_wait: "I c \<Longrightarrow> I (snd (WaitForSingleEvent en name timeout c))"
proof -
  assume c: "I c"
  have a: "acts (d\<lparr>wc_lists := m\<rparr>) = acts d" "acts (d\<lparr>wc_bufferedExternalEvents := m2\<rparr>) = acts d"
    "acts (d\<lparr>wc_pendingExternalEventTasks := m3\<rparr>) = acts d" "acts (d\<lparr>wc_lists := m, wc_pendingExternalEventTasks := m3\<rparr>) = acts d"
    for d m m2 m3 by (simp_all add: acts_def)
  have t: "I (snd (createExternalEventTimerInternal name fireAt d))" if "acts d = acts c" for d fireAt
    using that same [OF _ c] I_schedule(4) by blast
  show ?thesis
    using same [OF _ c] same [OF _ t]
    by (simp add: WaitForSingleEvent_def Let_def case_prod_beta a split: option.split)
qed

end

text \<open>All the contexts in which a run can end satisfy a predicate.\<close>

fun keeps :: "(WorkflowContext \<Rightarrow> bool) \<Rightarrow> 'r run \<Rightarrow> bool" where
  "keeps I (Done x c) = I c"
| "keeps I (Blocked c) = I c"
| "keeps I (Panicked p c) = I c"
| "keeps I OutOfFuel = True"

lemma keeps_bind: "keeps I r \<Longrightarrow> (\<And>x c. I c \<Longrightarrow> keeps I (f x c)) \<Longrightarrow> keeps I (bind_run r f)"
  by (cases r) simp_all

lemma keeps_option:
  "keeps I a \<Longrightarrow> (\<And>x. z = Some x \<Longrightarrow> keeps I (f x)) \<Longrightarrow> keeps I (case z of None \<Rightarrow> a | Some x \<Rightarrow> f x)"
  by (cases z) simp_all

lemma keeps_if: "(b \<Longrightarrow> keeps I x) \<Longrightarrow> (\<not> b \<Longrightarrow> keeps I y) \<Longrightarrow> keeps I (if b then x else y)"
  by simp

lemma isTerminated_hist: "hist d = hist c \<Longrightarrow> wc_isTerminated d = wc_isTerminated c"
  by (simp add: hist_def)

context turn_invariant
begin

lemma keeps_awaitLoop:
  assumes n: "\<And>c. I c \<Longrightarrow> keeps I (nxt c)"
  shows "I c \<Longrightarrow> keeps I (awaitLoop m nxt t decode c)"
proof (induction m arbitrary: c)
  case (Suc m)
  then show ?case
    by (subst awaitLoop.simps) (auto intro!: keeps_bind n keeps_option)
qed (simp add: awaitLoop.simps)

lemma keeps_task_Await: "(\<And>c. I c \<Longrightarrow> keeps I (nxt c)) \<Longrightarrow> I c \<Longrightarrow> keeps I (task_Await nxt t decode c)"
  unfolding task_Await_def by (rule keeps_awaitLoop)

lemma I_retryUpds: "I c \<Longrightarrow> I (updRetry r f c)" "I c \<Longrightarrow> I (finishRetry r err c)" "I c \<Longrightarrow> I (noteExecutionID r t c)"
  by (erule same [rotated], simp)+

lemma keeps_retryLoop:
  assumes n: "\<And>c. I c \<Longrightarrow> keeps I (nxt c)"
  shows "I c \<Longrightarrow> keeps I (retryLoop k en nxt r c)"
proof (induction k arbitrary: c)
  case (Suc k)
  then show ?case
    by (subst retryLoop.simps)
      (auto simp: Let_def case_prod_beta intro!: keeps_bind keeps_task_Await n keeps_option
        I_retryUpds I_schedule I_retry Suc.IH)
qed (simp add: retryLoop.simps)

lemma keeps_legacyLoop:
  assumes n: "\<And>c. I c \<Longrightarrow> keeps I (nxt c)"
  shows "I c \<Longrightarrow> keeps I (legacyLoop k en nxt w decode c)"
proof (induction k arbitrary: c w)
  case (Suc k)
  then show ?case
    by (subst legacyLoop.simps)
      (auto simp: Let_def case_prod_beta intro!: keeps_bind keeps_task_Await n keeps_option I_schedule I_retry Suc.IH)
qed (subst legacyLoop.simps,
    auto simp: Let_def case_prod_beta intro!: keeps_bind keeps_task_Await n keeps_option I_schedule I_retry)

lemma keeps_awaitTask:
  assumes n: "\<And>c. I c \<Longrightarrow> keeps I (nxt c)" and c: "I c"
  shows "keeps I (awaitTask en nxt task decode c)"
proof -
  have "keeps I (retry_Await en nxt r decode c)" for r
    unfolding retry_Await_def Let_def
    by (rule keeps_bind [OF keeps_retryLoop [OF n c]]) (auto intro!: keeps_option keeps_task_Await n)
  then show ?thesis
    using c
    by (auto simp: awaitTask_def legacy_Await_def Let_def split: Task.split
        intro!: keeps_bind keeps_task_Await keeps_legacyLoop n)
qed

lemma keeps_perform:
  assumes n: "\<And>c. I c \<Longrightarrow> keeps I (nxt c)" and c: "I c"
  shows "keeps I (perform en nxt x c)"
proof -
  have "I (snd (IsPatched p c))" "I (ctx_ContinueAsNew inp keep c)" "I (c\<lparr>wc_customStatus := s\<rparr>)" for p inp keep s
    by (rule same [OF _ c], simp)+
  then show ?thesis
    using c I_calls [OF c] I_wait [OF c] keeps_awaitTask [OF n c]
    by (cases x) (simp_all add: perform_def case_prod_beta)
qed

lemma keeps_runWorkflow:
  assumes n: "\<And>c. I c \<Longrightarrow> keeps I (nxt c)"
  shows "I c \<Longrightarrow> keeps I (runWorkflow en nxt w c)"
proof (induction w arbitrary: c)
  case (Call x k)
  then show ?case by (auto intro!: keeps_bind keeps_perform n)
qed simp_all

lemma I_completions:
  assumes c: "I c"
  shows "I (setFailed en err c)" "I (snd (setComplete out c))" "I (snd (setContinuedAsNew c))" "I (setVersionNotRegistered c)"
  using c by (simp_all add: setCompleteInternal_def setFailed_def setComplete_def setContinuedAsNew_def
      setVersionNotRegistered_def add split: option.split sum.split)

lemma I_finishWorkflow: "I c \<Longrightarrow> I (finishWorkflow en out err c)"
proof -
  assume c: "I c"
  define p where "p = (if wc_continuedAsNew c then setContinuedAsNew c else setComplete out c)"
  have "I (snd p)" using c by (simp add: p_def I_completions)
  then show ?thesis
    unfolding finishWorkflow_def p_def [symmetric] using c by (cases p) (simp add: I_completions split: option.split)
qed

lemma keeps_onExecutionStarted:
  assumes n: "\<And>c. I c \<Longrightarrow> keeps I (nxt c)" and c: "I c"
  shows "keeps I (onExecutionStarted en reg nxt es c)"
proof -
  have v: "I (c\<lparr>wc_VersionName := v\<rparr>)" for v by (rule same [OF _ c]) (simp add: acts_def)
  have p: "I d \<Longrightarrow> I (d\<lparr>wc_Name := a, wc_rawInput := b\<rparr>)" "I d \<Longrightarrow> I (d\<lparr>wc_Name := a\<rparr>)" for d a b
    by (erule same [rotated], simp)+
  show ?thesis
    using c
    by (auto simp: onExecutionStarted_def getWorkflow_def Let_def split: sum.splits prod.splits option.splits
        intro!: keeps_bind keeps_runWorkflow n p v I_finishWorkflow)
qed

lemma keeps_processAll:
  assumes "\<And>e c. I c \<Longrightarrow> keeps I (pe e c)"
  shows "I c \<Longrightarrow> keeps I (processAll pe es c)"
  using assms by (induction es arbitrary: c) (auto intro!: keeps_bind keeps_option)

lemma keeps_onExecutionResumed:
  assumes pe: "\<And>e c. I c \<Longrightarrow> keeps I (pe e c)" and c: "I c"
  shows "keeps I (onExecutionResumed pe c)"
proof -
  have s: "I d \<Longrightarrow> I (d\<lparr>wc_isSuspended := b\<rparr>)" "I d \<Longrightarrow> I (d\<lparr>wc_suspendedEvents := es\<rparr>)" for d b es
    by (erule same [rotated], simp add: acts_def)+
  show ?thesis
    using c by (auto simp: onExecutionResumed_def Let_def intro!: keeps_bind keeps_processAll pe keeps_option s)
qed

lemma I_dropAll: "\<not> wc_isTerminated c \<Longrightarrow> I c \<Longrightarrow> I (dropOptionalTimers i c)"
proof (induction i c rule: dropOptionalTimers.induct)
  case (1 i c)
  obtain b c' where r: "dropOptionalExternalEventTimerAt i c = (b, c')" by fastforce
  have "I c'" "\<not> wc_isTerminated c'"
    using drop [OF 1(2,3), of i] isTerminated_hist [OF hist_drop [of i c]] 1(2) r by simp_all
  with 1 r show ?case by (cases b) (subst dropOptionalTimers.simps, simp)+
qed

lemma I_schedulings:
  assumes t: "\<not> wc_isTerminated c" and c: "I c"
  shows "I (snd (onTaskScheduled i ts c))" "I (snd (onChildWorkflowScheduled i cs c))"
    "I (snd (onDetachedWorkflowCreated i iid c))" "I (snd (onTimerCreated i tc c))"
proof -
  have o: "I d \<Longrightarrow> I (d\<lparr>wc_optionalTimerIDs := x\<rparr>)" "I d \<Longrightarrow> I (updTask y f d)" for d x y f
    by (erule same [rotated], simp)+
  have h: "wc_isTerminated (dropOptionalTimers i c) = wc_isTerminated c"
    "wc_isTerminated (snd (dropOptionalExternalEventTimerAt i c)) = wc_isTerminated c"
    by (rule isTerminated_hist, simp)+
  have ut: "wc_isTerminated (updTask y f d) = wc_isTerminated d" for y f d by (simp add: updTask_def)
  note d = I_dropAll [OF t c, of i] drop [OF t c, of i]
  show "I (snd (onTaskScheduled i ts c))" "I (snd (onChildWorkflowScheduled i cs c))"
    "I (snd (onDetachedWorkflowCreated i iid c))"
    using t c d by (auto simp: onTaskScheduled_def onChildWorkflowScheduled_def onDetachedWorkflowCreated_def Let_def h ut
        split: option.split intro!: delete o)
  show "I (snd (onTimerCreated i tc c))"
    using t c d by (auto simp: onTimerCreated_def Let_def h intro!: delete o I_consumeReady)
qed

lemma keeps_processNextEvent:
  assumes pe: "\<And>e c. I c \<Longrightarrow> keeps I (pe e c)" and c: "I c"
  shows "keeps I (processNextEvent pe c)"
proof -
  have "I (c\<lparr>wc_IsReplaying := b, wc_historyIndex := i\<rparr>)" for b i by (rule same [OF _ c]) (simp add: acts_def)
  with c show ?thesis
    by (auto simp: processNextEvent_def getNextHistoryEvent_def intro!: keeps_bind pe)
qed

lemma keeps_processEvent:
  assumes en: "orders en"
  shows "I c \<Longrightarrow> keeps I (processEvent n en reg e c)"
proof (induction n arbitrary: e c)
  case (Suc n)
  note st = keeps_onExecutionStarted [OF keeps_processNextEvent [OF Suc.IH] Suc.prems]
  note rs = keeps_onExecutionResumed [OF Suc.IH Suc.prems]
  have ev: "I (onWorkflowStarted e v c)" "I (onExternalEventRaised en e er c)" "I (c\<lparr>wc_isSuspended := b\<rparr>)"
    "I (c\<lparr>wc_suspendedEvents := es\<rparr>)" for v er b es
    by (rule same [OF _ Suc.prems], simp)+
  note sc = I_schedulings [OF _ Suc.prems] and r = I_resolutions [OF Suc.prems] and t = terminated [OF en _ Suc.prems]
  show ?case
    by (cases "he_EventType e") (simp_all add: case_prod_beta st rs ev sc r t Suc.prems)
qed simp

lemma keeps_startLoop:
  assumes n: "\<And>c. I c \<Longrightarrow> keeps I (nxt c)"
  shows "I c \<Longrightarrow> keeps I (startLoop m en nxt c)"
  by (induction m arbitrary: c) (auto intro!: keeps_bind n keeps_option I_completions)

lemma keeps_runTurns: "orders en \<Longrightarrow> I (resetContext c) \<Longrightarrow> keeps I (runTurns en reg c)"
  unfolding runTurns_def Let_def by (rule keeps_startLoop [OF keeps_processNextEvent [OF keeps_processEvent]])

text \<open>The context with which a turn ends.\<close>

lemma start_invariant:
  "orders en \<Longrightarrow> I (resetContext c) \<Longrightarrow> start en reg c = Some (Inr (actions, c')) \<Longrightarrow> I c' \<and> actions = ctx_actions en c'"
  using keeps_runTurns [of en c reg] by (auto simp: start_def split: run.splits)

end

section \<open>The ids of the pending actions\<close>

lemma sint_small: "unat (x :: int32) < 2 ^ 31 \<Longrightarrow> sint x = int (unat x)"
proof -
  assume small: "unat x < 2 ^ 31"
  have u: "uint x = int (unat x)" by (rule uint_nat)
  have "uint x < 2 ^ 31" 
    using small unfolding u by (metis of_nat_less_iff of_nat_numeral of_nat_power)
  moreover have "- (2 ^ 31) \<le> uint x" 
    using uint_ge_0 [of x] by (rule order_trans [rotated]) simp
  ultimately have "signed_take_bit 31 (uint x) = uint x" by (intro signed_take_bit_int_eq_self)
  with u show ?thesis by (simp add: sint_uint)
qed

lemma update_fresh: "k \<notin> fst ` set m \<Longrightarrow> AList.update k v m = m @ [(k, v)]"
  by (induction m) auto

text \<open>
  Actions are entered under their ids, which are below the sequence number; no action is entered
  twice. \<open>n\<close> is the number of the actions made so far.
\<close>

definition entered :: "int32 \<Rightarrow> (int32 \<times> nat) list \<Rightarrow> WorkflowAction list \<Rightarrow> bool" where
  "entered s m as \<longleftrightarrow> unat s \<le> length as \<and> length as < 2 ^ 31 \<and> distinct (map fst m) \<and> distinct (map snd m) \<and>
     (\<forall>(i, a) \<in> set m. i < s \<and> a < length as \<and> wa_Id (as ! a) = i)"

definition ids_ok :: "WorkflowContext \<Rightarrow> bool" where
  "ids_ok c \<longleftrightarrow> entered (wc_sequenceNumber c) (wc_pendingActions c) (wc_actions c)"

lemma entered_add:
  assumes "entered s m as" and "length as + 1 < 2 ^ 31"
  shows "entered (s + 1) (AList.update s (length as) m) (as @ [\<lparr>wa_Id = s, wa_Type = ty, wa_Router = r\<rparr>])"
    and "AList.update s (length as) m = m @ [(s, length as)]"
proof -
  have fresh: "s \<notin> fst ` set m" "length as \<notin> snd ` set m" using assms(1) by (auto simp: entered_def)
  show u: "AList.update s (length as) m = m @ [(s, length as)]" by (rule update_fresh [OF fresh(1)])
  have "unat s + 1 < 2 ^ 32" using assms by (simp add: entered_def)
  then have n: "unat (s + 1) = unat s + 1" by (simp add: unat_word_ariths(1))
  then have "x < s + 1 \<longleftrightarrow> x < s \<or> x = s" for x
    by (auto simp: word_less_nat_alt less_Suc_eq word_unat_eq_iff)
  then show "entered (s + 1) (AList.update s (length as) m) (as @ [\<lparr>wa_Id = s, wa_Type = ty, wa_Router = r\<rparr>])"
    using assms fresh n unfolding u by (auto simp: entered_def nth_append)
qed

lemma entered_filter: "entered s m as \<Longrightarrow> entered s (filter P m) as"
  by (auto simp: entered_def distinct_map_filter)

lemma entered_nth:
  assumes "entered s m as" and "wa_Id x = wa_Id (as ! a)"
  shows "entered s m (as[a := x])"
proof -
  have "wa_Id (as[a := x] ! b) = wa_Id (as ! b)" if "b < length as" for b
    using that assms(2) by (cases "a = b") auto
  then show ?thesis using assms(1) by (auto simp: entered_def)
qed

subsection \<open>Dropping an optional timer closes the gap in the ids\<close>

definition gap :: "int32 \<Rightarrow> int32 list \<Rightarrow> WorkflowContext \<Rightarrow> bool" where
  "gap g is c \<longleftrightarrow> ids_ok c \<and> g < wc_sequenceNumber c \<and> g \<notin> fst ` set (wc_pendingActions c) \<and>
     sorted_wrt (<) is \<and> set is = {i \<in> fst ` set (wc_pendingActions c). g < i}"

lemma entered_move:
  assumes e: "entered s m as" and i: "map_of m i = Some a" and j: "j \<notin> fst ` set m" and js: "j < s"
  shows "entered s (AList.update j a (AList.delete i m)) (as[a := (as ! a)\<lparr>wa_Id := j\<rparr>])"
    and "fst ` set (AList.update j a (AList.delete i m)) = insert j (fst ` set m - {i})"
proof -
  have jd: "j \<notin> fst ` set (AList.delete i m)" using j by (auto simp: AList.delete_eq)
  note u = update_fresh [OF jd, of a]
  show "fst ` set (AList.update j a (AList.delete i m)) = insert j (fst ` set m - {i})"
    unfolding u by (auto simp: AList.delete_eq image_iff)
  have ia: "(i, a) \<in> set m" using i by (rule map_of_SomeD)
  have once: "b \<noteq> a" if "(k, b) \<in> set m" "k \<noteq> i" for k b
  proof
    assume "b = a"
    moreover have "inj_on snd (set m)" using e by (simp add: entered_def distinct_map)
    ultimately show False using inj_onD [of snd "set m" "(k, b)" "(i, a)"] that ia by simp
  qed
  have al: "a < length as" using e ia by (auto simp: entered_def)
  have del: "entered s (AList.delete i m) as"
    using entered_filter [OF e, of "\<lambda>(k, v). i \<noteq> k"] by (simp add: AList.delete_eq case_prod_unfold)
  have na: "b \<noteq> a" if "(k, b) \<in> set (AList.delete i m)" for k b
    using that once by (auto simp: AList.delete_eq)
  have "a \<notin> snd ` set (AList.delete i m)" using na by fastforce
  moreover have "as[a := x] ! b = as ! b" if "(k, b) \<in> set (AList.delete i m)" for k b x
    using na [OF that] by simp
  ultimately show "entered s (AList.update j a (AList.delete i m)) (as[a := (as ! a)\<lparr>wa_Id := j\<rparr>])"
    using del jd js al unfolding u by (auto simp: entered_def)
qed

lemma pred_word: "g < i \<Longrightarrow> unat (i - 1 :: int32) = unat i - 1 \<and> unat i > 0"
proof -
  assume "g < i"
  then have "i \<noteq> 0" by auto
  then show ?thesis by (simp add: unat_minus_one unat_gt_0)
qed

lemma gap_shift:
  assumes "gap g (i # is) c"
  shows "gap i is (shiftAction i c)"
proof -
  let ?m = "wc_pendingActions c"
  have e: "entered (wc_sequenceNumber c) ?m (wc_actions c)" and gi: "g < i" and i: "i \<in> fst ` set ?m"
    and g: "g \<notin> fst ` set ?m" and s: "sorted_wrt (<) is"
    using assms by (auto simp: gap_def ids_ok_def)
  have all: "insert i (set is) = {k \<in> fst ` set ?m. g < k}" and up: "\<forall>k\<in>set is. i < k"
    using assms by (simp_all add: gap_def)
  have later: "set is = {k \<in> fst ` set ?m. i < k}"
  proof
    show "set is \<subseteq> {k \<in> fst ` set ?m. i < k}" using all up by blast
    show "{k \<in> fst ` set ?m. i < k} \<subseteq> set is"
    proof
      fix k assume k: "k \<in> {k \<in> fst ` set ?m. i < k}"
      then have "k \<in> insert i (set is)" unfolding all using order_less_trans [OF gi] by simp
      with k show "k \<in> set is" by auto
    qed
  qed
  obtain a where a: "map_of ?m i = Some a" using i by (metis image_iff map_of_eq_None_iff not_None_eq)
  note p = pred_word [OF gi]
  have below: "i < wc_sequenceNumber c" using e i by (auto simp: entered_def)
  have j: "i - 1 \<notin> fst ` set ?m"
  proof
    assume m: "i - 1 \<in> fst ` set ?m"
    have "g \<le> i - 1" using gi p by (simp add: word_less_nat_alt word_le_nat_alt)
    with m g have "g < i - 1" by (metis order_le_less)
    with m have "i - 1 \<in> set (i # is)" using assms by (simp add: gap_def)
    moreover have "i - 1 < i" using p by (simp add: word_less_nat_alt)
    ultimately show False using later by auto
  qed
  have js: "i - 1 < wc_sequenceNumber c" using below p by (simp add: word_less_nat_alt)
  note mv = entered_move [OF e a j js]
  have ji: "i - 1 < i" using p by (simp add: word_less_nat_alt)
  have acts: "wc_pendingActions (shiftAction i c) = AList.update (i - 1) a (AList.delete i ?m)"
    "wc_actions (shiftAction i c) = (wc_actions c)[a := (wc_actions c ! a)\<lparr>wa_Id := i - 1\<rparr>]"
    "wc_sequenceNumber (shiftAction i c) = wc_sequenceNumber c"
    using a by (simp_all add: shiftAction_def Let_def updAction_def)
  show ?thesis
    unfolding gap_def ids_ok_def acts mv(2)
  proof (intro conjI)
    show "set is = {k \<in> insert (i - 1) (fst ` set ?m - {i}). i < k}" using later ji by auto
  qed (use mv(1) below s ji in auto)
qed

lemma gap_fold: "gap g is c \<Longrightarrow> \<exists>g'. gap g' [] (fold shiftAction is c)"
  by (induction "is" arbitrary: g c) (auto dest: gap_shift)

lemma acts_shift [simp]:
  "wc_isTerminated (shiftAction i c) = wc_isTerminated c" "length (wc_actions (shiftAction i c)) = length (wc_actions c)"
  "acts (shiftTask i c) = acts c"
  by (simp_all add: shiftAction_def shiftTask_def updAction_def acts_def Let_def split: option.split)

lemma acts_folds [simp]:
  "wc_isTerminated (fold shiftAction is c) = wc_isTerminated c"
  "length (wc_actions (fold shiftAction is c)) = length (wc_actions c)" "acts (fold shiftTask is c) = acts c"
  by (induction "is" arbitrary: c) simp_all

lemma gap_closed:
  assumes "gap g [] c"
  shows "entered (wc_sequenceNumber c - 1) (wc_pendingActions c) (wc_actions c)"
proof -
  have e: "entered (wc_sequenceNumber c) (wc_pendingActions c) (wc_actions c)" and g: "g < wc_sequenceNumber c"
    and k: "\<forall>i\<in>fst ` set (wc_pendingActions c). i < g"
    using assms by (auto simp: gap_def ids_ok_def) (metis fst_conv image_eqI linorder_neqE)
  note p = pred_word [OF g]
  have "i < wc_sequenceNumber c - 1" if "(i, a) \<in> set (wc_pendingActions c)" for i a
  proof -
    have "i \<in> fst ` set (wc_pendingActions c)" using that by force
    with k have "i < g" by blast
    with g p show ?thesis by (simp add: word_less_nat_alt)
  qed
  then show ?thesis using e p by (auto simp: entered_def)
qed

lemma laterIDs_small:
  assumes "\<forall>i\<in>fst ` set m. unat i < 2 ^ 31" and "unat g < 2 ^ 31" and "distinct (map fst m)"
  shows "sorted_wrt (<) (laterIDs g m)" "set (laterIDs g m) = {i \<in> fst ` set m. g < i}"
proof -
  have s: "sint i < sint j \<longleftrightarrow> i < j" if "unat i < 2 ^ 31" "unat j < 2 ^ 31" for i j :: int32
    using that by (simp add: sint_small word_less_def)
  show st: "set (laterIDs g m) = {i \<in> fst ` set m. g < i}"
    using assms s by (auto simp: laterIDs_def)
  have "distinct (map sint (laterIDs g m))"
    unfolding laterIDs_def distinct_map [of sint] using assms(3) by (auto intro!: inj_onI signed_word_eqI)
  moreover have "sorted (map sint (laterIDs g m))" by (simp add: laterIDs_def)
  ultimately have "sorted_wrt (<) (map sint (laterIDs g m))" by (simp add: strict_sorted_iff)
  then show "sorted_wrt (<) (laterIDs g m)"
    unfolding sorted_wrt_map
  proof (rule sorted_wrt_mono_rel [rotated])
    fix x y assume "x \<in> set (laterIDs g m)" "y \<in> set (laterIDs g m)" "sint x < sint y"
    then show "x < y" using assms(1) s [of x y] unfolding st by blast
  qed
qed

text \<open>After a termination a completion that is not a continue-as-new is pending.\<close>

definition finalised :: "WorkflowContext \<Rightarrow> bool" where
  "finalised c \<longleftrightarrow> (\<exists>(i, a) \<in> set (wc_pendingActions c).
     \<exists>co. GetCompleteWorkflow (wc_actions c ! a) = Some co \<and> cwa_WorkflowStatus co \<noteq> CONTINUED_AS_NEW)"

text \<open>The invariant, as long as the ids stay below the range of \<open>int32\<close>.\<close>

definition turn_ok :: "WorkflowContext \<Rightarrow> bool" where
  "turn_ok c \<longleftrightarrow> (length (wc_actions c) < 2 ^ 31 \<longrightarrow> ids_ok c \<and> (wc_isTerminated c \<longrightarrow> finalised c))"

lemma turn_ok_same: "acts d = acts c \<Longrightarrow> turn_ok c \<Longrightarrow> turn_ok d"
  by (simp add: acts_def turn_ok_def ids_ok_def finalised_def)

lemma turn_ok_upd:
  assumes "wa_Id (f (wc_actions c ! a)) = wa_Id (wc_actions c ! a)"
    and "GetCompleteWorkflow (f (wc_actions c ! a)) = GetCompleteWorkflow (wc_actions c ! a)" and "turn_ok c"
  shows "turn_ok (updAction a f c)"
proof -
  have "GetCompleteWorkflow ((wc_actions c)[a := f (wc_actions c ! a)] ! b) = GetCompleteWorkflow (wc_actions c ! b)" for b
    using assms(2) by (cases "a = b"; cases "a < length (wc_actions c)") (auto simp: list_update_beyond)
  then show ?thesis
    using assms(1,3) entered_nth [of "wc_sequenceNumber c" "wc_pendingActions c" "wc_actions c" "f (wc_actions c ! a)" a]
    by (auto simp: turn_ok_def updAction_def ids_ok_def finalised_def)
qed

interpretation turn_actions: action_invariant turn_ok
  by unfold_locales (rule turn_ok_same, simp_all add: turn_ok_upd)

lemma turn_ok_addAction:
  assumes "turn_ok c" shows "turn_ok (snd (snd (addAction ty r c)))"
proof (cases "length (wc_actions c) + 1 < 2 ^ 31")
  case True
  then have ids: "entered (wc_sequenceNumber c) (wc_pendingActions c) (wc_actions c)"
    and fin: "wc_isTerminated c \<longrightarrow> finalised c" using assms by (simp_all add: turn_ok_def ids_ok_def)
  note e = entered_add(1) [OF ids True, of ty r] entered_add(2) [OF ids True]
  have "finalised (snd (snd (addAction ty r c)))" if f: "finalised c"
  proof -
    from f obtain i a co where i: "(i, a) \<in> set (wc_pendingActions c)"
      "GetCompleteWorkflow (wc_actions c ! a) = Some co" "cwa_WorkflowStatus co \<noteq> CONTINUED_AS_NEW"
      by (auto simp: finalised_def)
    have "a < length (wc_actions c)" using ids i(1) by (auto simp: entered_def)
    with i show ?thesis
      by (auto simp: finalised_def addAction_def getNextSequenceNumber_def Let_def e(2) nth_append intro!: bexI [of _ "(i, a)"])
  qed
  with e(1) fin show ?thesis
    by (auto simp: turn_ok_def ids_ok_def addAction_def getNextSequenceNumber_def Let_def)
qed (simp add: turn_ok_def addAction_def getNextSequenceNumber_def Let_def)

lemma turn_ok_delete: "\<not> wc_isTerminated c \<Longrightarrow> turn_ok c \<Longrightarrow> turn_ok (deletePendingAction i c)"
  using entered_filter [of "wc_sequenceNumber c" "wc_pendingActions c" "wc_actions c"]
  by (simp add: turn_ok_def deletePendingAction_def ids_ok_def AList.delete_eq)

lemma turn_ok_drop:
  assumes t: "\<not> wc_isTerminated c" and c: "turn_ok c"
  shows "turn_ok (snd (dropOptionalExternalEventTimerAt i c))"
proof (cases "length (wc_actions c) < 2 ^ 31 \<and> map_of (wc_pendingActions c) i \<noteq> None")
  case True
  let ?m = "wc_pendingActions c"
  have e: "entered (wc_sequenceNumber c) ?m (wc_actions c)" and i: "i \<in> fst ` set ?m"
    using c True by (auto simp: turn_ok_def ids_ok_def map_of_eq_None_iff)
  define c1 where "c1 = c\<lparr>wc_pendingActions := AList.delete i ?m,
      wc_pendingTasks := AList.delete i (wc_pendingTasks c), wc_optionalTimerIDs := removeAll i (wc_optionalTimerIDs c)\<rparr>"
  have e1: "ids_ok c1" using entered_filter [OF e] by (simp add: ids_ok_def c1_def AList.delete_eq)
  have small: "unat k < 2 ^ 31" if "k \<in> fst ` set ?m" for k
    using that e by (auto simp: entered_def word_less_nat_alt)
  have later: "sorted_wrt (<) (laterIDs i (wc_pendingActions c1))"
    "set (laterIDs i (wc_pendingActions c1)) = {k \<in> fst ` set (wc_pendingActions c1). i < k}"
    by (rule laterIDs_small; use small i e1 in \<open>auto simp: c1_def AList.delete_eq ids_ok_def entered_def\<close>)+
  have "gap i (laterIDs i (wc_pendingActions c1)) c1"
    unfolding gap_def using e1 later i e by (auto simp: c1_def AList.delete_eq entered_def)
  then obtain g where g: "gap g [] (fold shiftAction (laterIDs i (wc_pendingActions c1)) c1)" using gap_fold by blast
  let ?c2 = "fold shiftAction (laterIDs i (wc_pendingActions c1)) c1"
  have t2: "\<not> wc_isTerminated ?c2" using t by (simp add: c1_def)
  have "turn_ok (d\<lparr>wc_sequenceNumber := wc_sequenceNumber d - 1\<rparr>)" if "acts d = acts ?c2" for d
    using gap_closed [OF g] that t2 by (simp add: turn_ok_def ids_ok_def acts_def)
  then show ?thesis
    using c by (simp add: dropOptionalExternalEventTimerAt_def Let_def c1_def [symmetric] turn_actions.I_consumeFor split: option.split)
next
  case False
  show ?thesis
  proof (cases "map_of (wc_pendingActions c) i")
    case None
    with c show ?thesis by (simp add: dropOptionalExternalEventTimerAt_def pendingAction_def)
  next
    case (Some a)
    with False have l: "\<not> length (wc_actions c) < 2 ^ 31" by simp
    have big: "turn_ok d" if "length (wc_actions d) = length (wc_actions c)" for d using l that by (simp add: turn_ok_def)
    have st: "wc_actions (fold shiftTask is d) = wc_actions d" for "is" d
      using acts_folds(3) [of "is" d] by (simp add: acts_def)
    show ?thesis
      using c by (simp add: dropOptionalExternalEventTimerAt_def Let_def turn_actions.I_consumeFor big st split: option.split)
  qed
qed

text \<open>The order in which the loop over the pending actions meets them is any order.\<close>

lemma turn_ok_add_complete:
  assumes "length (wc_actions c) < 2 ^ 31 \<longrightarrow> ids_ok c" and "st \<noteq> CONTINUED_AS_NEW"
  shows "turn_ok (setCompleteInternal r st fd c)"
proof (cases "length (wc_actions c) + 1 < 2 ^ 31")
  case True
  then have ids: "entered (wc_sequenceNumber c) (wc_pendingActions c) (wc_actions c)" using assms(1) by (simp add: ids_ok_def)
  note e = entered_add(1) [OF ids True] entered_add(2) [OF ids True]
  have "finalised (setCompleteInternal r st fd c)"
    using assms(2)
    by (auto simp: finalised_def setCompleteInternal_def addAction_def getNextSequenceNumber_def Let_def e(2) GetCompleteWorkflow_def)
  with e(1) show ?thesis
    by (simp add: turn_ok_def ids_ok_def setCompleteInternal_def addAction_def getNextSequenceNumber_def Let_def)
qed (simp add: turn_ok_def setCompleteInternal_def addAction_def getNextSequenceNumber_def Let_def)

lemma turn_ok_terminateScan:
  assumes "length (wc_actions c) < 2 ^ 31 \<longrightarrow> ids_ok c" and "set m \<subseteq> set (wc_pendingActions c)"
  shows "turn_ok (terminateScan m input c)"
  using assms
proof (induction m input c rule: terminateScan.induct)
  case (1 input c)
  then show ?case by (simp add: turn_ok_add_complete)
next
  case (2 i a m input c)
  show ?case
  proof (cases "GetCompleteWorkflow (wc_actions c ! a)")
    case None
    with 2 show ?thesis by simp
  next
    case (Some co)
    have "length (wc_actions (deletePendingAction i c)) < 2 ^ 31 \<longrightarrow> ids_ok (deletePendingAction i c)"
      using 2(2) entered_filter [of "wc_sequenceNumber c" "wc_pendingActions c" "wc_actions c"]
      by (simp add: deletePendingAction_def ids_ok_def AList.delete_eq)
    moreover have "finalised c" if "cwa_WorkflowStatus co \<noteq> CONTINUED_AS_NEW"
      using that Some 2(3) by (auto simp: finalised_def intro!: bexI [of _ "(i, a)"])
    ultimately show ?thesis
      using Some 2(2)
      by (cases "cwa_WorkflowStatus co = CONTINUED_AS_NEW") (simp_all add: turn_ok_add_complete, simp add: turn_ok_def)
  qed
qed

lemma turn_ok_terminated:
  assumes "orders en" and "turn_ok c"
  shows "turn_ok (onExecutionTerminated en et c)"
  unfolding onExecutionTerminated_def
  by (rule turn_ok_terminateScan) (use assms in \<open>auto simp: turn_ok_def ids_ok_def orders_def\<close>)

interpretation turns: turn_invariant turn_ok
  by unfold_locales (simp_all add: turn_ok_addAction turn_ok_delete turn_ok_drop turn_ok_terminated)

lemma turn_ok_new: "turn_ok (resetContext (NewWorkflowContext iid olds news))"
  by (simp add: turn_ok_def ids_ok_def entered_def resetContext_def NewWorkflowContext_def)

end
