(* ===== verification/ReplayProps.thy ===== *)
theory ReplayProps
  imports ReplaySplit ReplayInv
begin

text \<open>
  The properties of the replay engine and of the in-process executor, with sample turns that show
  that their hypotheses can hold.
\<close>

section \<open>Sample turns\<close>

definition sample_engine :: engine where
  "sample_engine =
     \<lparr>en_uuid = (\<lambda>n. replicate (Suc n) (CHR ''u'')), en_orderActions = rev, en_orderEvents = id, en_ToUpper = id,
      en_typeOf = (\<lambda>_. ''error''), en_Error = (\<lambda>_. ''failed''), en_lib = table_lib [],
      en_backoffMs = (\<lambda>_ _ _ _. None)\<rparr>"

text \<open>A workflow that starts another one and completes.\<close>

definition sample_workflow :: Workflow where
  "sample_workflow =
     Call (CallScheduleNewWorkflow ''D'' [WithDetachedWorkflowInstanceID ''d'']) (\<lambda>_. Return None None)"

definition sample_registry :: "(Workflow, Activity) TaskRegistry" where
  "sample_registry = snd (AddWorkflowN ''W'' sample_workflow NewTaskRegistry)"

definition sample_wf_started :: HistoryEvent where
  "sample_wf_started = mkEvent (-1) 5 (WorkflowStarted None) None"

definition sample_ex_started :: HistoryEvent where
  "sample_ex_started = mkEvent (-1) 5 (ExecutionStarted (sample_start\<lparr>es_Name := ''W''\<rparr>)) None"


lemma sample_started:
  "\<not> wc_isTerminated c \<Longrightarrow> \<not> wc_isSuspended c \<Longrightarrow>
   processEvent (Suc n) en reg sample_wf_started c = Done None (c\<lparr>wc_CurrentTimeUtc := 5\<rparr>)"
  by (simp add: sample_wf_started_def mkEvent_def isResumeOrTerminate_def onWorkflowStarted_def)

lemma sample_resolve: "getWorkflow sample_registry (sample_start\<lparr>es_Name := ''W''\<rparr>) c = Inr (sample_workflow, c)"
  by (simp add: getWorkflow_def sample_registry_def AddWorkflowN_def NewTaskRegistry_def ResolveWorkflow_def)

lemma sample_runs:
  "\<not> wc_continuedAsNew c \<Longrightarrow>
   bind_run (runWorkflow en nxt sample_workflow c) (\<lambda>(output, appError) c3. Done None (finishWorkflow en output appError c3)) =
   Done None (setCompleteInternal None COMPLETED None (snd (ScheduleNewWorkflow ''D'' [WithDetachedWorkflowInstanceID ''d''] c)))"
proof -
  have "wc_continuedAsNew (snd (snd (addAction ty r d))) = wc_continuedAsNew d" for ty r d
    by (simp add: addAction_def getNextSequenceNumber_def Let_def)
  moreover assume "\<not> wc_continuedAsNew c"
  ultimately show ?thesis
    by (simp add: sample_workflow_def perform_def case_prod_beta finishWorkflow_def setComplete_def ScheduleNewWorkflow_def
        WithDetachedWorkflowInstanceID_def newScheduleNewWorkflowOptions_def)
qed

lemma sample_executed:
  "\<not> wc_isTerminated c \<Longrightarrow> \<not> wc_isSuspended c \<Longrightarrow> \<not> wc_continuedAsNew c \<Longrightarrow>
   processEvent (Suc n) en sample_registry sample_ex_started c =
     Done None (setCompleteInternal None COMPLETED None (snd (ScheduleNewWorkflow ''D'' [WithDetachedWorkflowInstanceID ''d'']
       (c\<lparr>wc_Name := ''W'', wc_rawInput := ''in''\<rparr>))))"
  unfolding sample_ex_started_def
  by (simp add: mkEvent_def isResumeOrTerminate_def onExecutionStarted_def sample_resolve sample_runs Let_def)
    (simp add: sample_start_def)

lemma startLoop_event:
  "getNextHistoryEvent c = Some (e, c1) \<Longrightarrow> pe e c1 = Done None c2 \<Longrightarrow>
   startLoop (Suc m) en (processNextEvent pe) c = startLoop m en (processNextEvent pe) c2"
  by (simp add: processNextEvent_def)

lemma startLoop_end: "remaining c = 0 \<Longrightarrow> startLoop (Suc m) en (processNextEvent pe) c = Done () c"
  by (simp add: processNextEvent_def getNextHistoryEvent_None [symmetric])

definition sample_context :: WorkflowContext where
  "sample_context = NewWorkflowContext ''i'' [sample_wf_started] [sample_ex_started]"

definition sample_after :: WorkflowContext where
  "sample_after = setCompleteInternal None COMPLETED None (snd (ScheduleNewWorkflow ''D'' [WithDetachedWorkflowInstanceID ''d'']
     (sample_context\<lparr>wc_historyIndex := 2, wc_CurrentTimeUtc := 5, wc_Name := ''W'', wc_rawInput := ''in''\<rparr>)))"

lemma sample_turn_start:
  "start sample_engine sample_registry sample_context = Some (Inr (ctx_actions sample_engine sample_after, sample_after))"
proof -
  have c: "resetContext sample_context = sample_context"
    by (simp add: resetContext_def sample_context_def NewWorkflowContext_def)
  have r: "remaining sample_context = 2" by (simp add: remaining_def sample_context_def NewWorkflowContext_def)
  let ?pe = "processEvent (Suc 5) sample_engine sample_registry"
  let ?c1 = "sample_context\<lparr>wc_IsReplaying := True, wc_historyIndex := 1\<rparr>"
  let ?c2 = "sample_context\<lparr>wc_IsReplaying := True, wc_historyIndex := 1, wc_CurrentTimeUtc := 5\<rparr>"
  let ?c3 = "sample_context\<lparr>wc_historyIndex := 2, wc_CurrentTimeUtc := 5\<rparr>"
  have f: "\<not> wc_isTerminated sample_context" "\<not> wc_isSuspended sample_context" "\<not> wc_continuedAsNew sample_context"
    by (simp_all add: sample_context_def NewWorkflowContext_def)
  have e1: "getNextHistoryEvent sample_context = Some (sample_wf_started, ?c1)"
    and e2: "getNextHistoryEvent ?c2 = Some (sample_ex_started, ?c3)"
    by (simp_all add: getNextHistoryEvent_def sample_context_def NewWorkflowContext_def)
  have p1: "?pe sample_wf_started ?c1 = Done None ?c2"
    by (rule trans [OF sample_started]) (simp_all add: f)
  have p2: "?pe sample_ex_started ?c3 = Done None sample_after"
    by (rule trans [OF sample_executed]) (simp_all add: f sample_after_def)
  have "hist sample_after = hist (?c3\<lparr>wc_Name := ''W'', wc_rawInput := ''in''\<rparr>)"
    by (simp add: sample_after_def)
  then have "remaining sample_after = 0"
    by (simp add: hist_def remaining_def sample_context_def NewWorkflowContext_def)
  then have "startLoop (Suc (Suc (Suc 0))) sample_engine (processNextEvent ?pe) sample_context = Done () sample_after"
    using startLoop_event [where pe = ?pe, OF e1 p1] startLoop_event [where pe = ?pe, OF e2 p2] by (simp only: startLoop_end)
  moreover have "Suc (2 :: nat) = Suc (Suc (Suc 0))" "2 * 2 + 2 = Suc (5 :: nat)" by simp_all
  ultimately have "runTurns sample_engine sample_registry sample_context = Done () sample_after"
    by (simp only: runTurns_def Let_def c r nestingBound_def)
  then show ?thesis by (simp add: start_def)
qed

lemma sample_after_actions:
  "wc_pendingActions sample_after = [(0, 0), (1, 1)]" "map wa_Id (wc_actions sample_after) = [0, 1]"
  by (simp_all add: sample_after_def setCompleteInternal_def ScheduleNewWorkflow_def addAction_def getNextSequenceNumber_def
      WithDetachedWorkflowInstanceID_def newScheduleNewWorkflowOptions_def sample_context_def NewWorkflowContext_def)

text \<open>A turn that terminates a workflow.\<close>

lemma sample_terminated:
  "\<not> wc_isTerminated c \<Longrightarrow> processEvent (Suc n) en reg sample_terminate c =
     Done None (onExecutionTerminated en \<lparr>et_Input = Some ''stop'', et_Recurse = True\<rparr> c)"
  by (simp add: sample_terminate_def mkEvent_def isResumeOrTerminate_def)

definition sample_ended :: WorkflowContext where
  "sample_ended = NewWorkflowContext ''i'' [] [sample_terminate]"

lemma sample_ended_start:
  "start sample_engine sample_registry sample_ended =
     Some (Inr (ctx_actions sample_engine (onExecutionTerminated sample_engine \<lparr>et_Input = Some ''stop'', et_Recurse = True\<rparr>
         (sample_ended\<lparr>wc_historyIndex := 1\<rparr>)),
       onExecutionTerminated sample_engine \<lparr>et_Input = Some ''stop'', et_Recurse = True\<rparr> (sample_ended\<lparr>wc_historyIndex := 1\<rparr>)))"
proof -
  let ?et = "\<lparr>et_Input = Some ''stop'', et_Recurse = True\<rparr>" and ?c1 = "sample_ended\<lparr>wc_historyIndex := 1\<rparr>"
  let ?pe = "processEvent (Suc 3) sample_engine sample_registry"
  have c: "resetContext sample_ended = sample_ended" and r: "remaining sample_ended = 1"
    and e: "getNextHistoryEvent sample_ended = Some (sample_terminate, ?c1)" and t: "\<not> wc_isTerminated ?c1"
    by (simp_all add: resetContext_def remaining_def getNextHistoryEvent_def sample_ended_def NewWorkflowContext_def)
  have p: "?pe sample_terminate ?c1 = Done None (onExecutionTerminated sample_engine ?et ?c1)"
    by (rule sample_terminated [OF t])
  have "hist (onExecutionTerminated sample_engine ?et ?c1) = hist (?c1\<lparr>wc_isTerminated := True\<rparr>)"
    by (simp add: onExecutionTerminated_def)
  then have "remaining (onExecutionTerminated sample_engine ?et ?c1) = 0"
    by (simp add: hist_def remaining_def sample_ended_def NewWorkflowContext_def)
  then have "startLoop (Suc (Suc 0)) sample_engine (processNextEvent ?pe) sample_ended =
      Done () (onExecutionTerminated sample_engine ?et ?c1)"
    using startLoop_event [where pe = ?pe, OF e p] by (simp only: startLoop_end)
  moreover have "Suc (1 :: nat) = Suc (Suc 0)" "2 * 1 + 2 = Suc (3 :: nat)" by simp_all
  ultimately have "runTurns sample_engine sample_registry sample_ended = Done () (onExecutionTerminated sample_engine ?et ?c1)"
    by (simp only: runTurns_def Let_def c r nestingBound_def)
  then show ?thesis by (simp add: start_def)
qed

section \<open>Properties\<close>



lemma sample_blind: "blindRegistry sample_registry"
  by (auto simp: blindRegistry_def sample_registry_def AddWorkflowN_def NewTaskRegistry_def ResolveWorkflow_def
      sample_workflow_def split: if_splits)

lemma sample_oneStart: "oneStart [sample_wf_started, sample_ex_started]"
  by (simp add: oneStart_def sample_wf_started_def sample_ex_started_def mkEvent_def GetExecutionStarted_def)


lemma addCarryover_id [simp]: "wa_Id (addCarryover es a) = wa_Id a"
  by (simp add: addCarryover_def split: WorkflowActionType.split)

lemma sorted_strict_ids:
  "distinct (map wa_Id xs) \<Longrightarrow> sorted_wrt (\<lambda>a b. sint (wa_Id a) < sint (wa_Id b)) (sort_key (\<lambda>a. sint (wa_Id a)) xs)"
proof -
  assume d: "distinct (map wa_Id xs)"
  have "distinct (map (\<lambda>a. sint (wa_Id a)) (sort_key (\<lambda>a. sint (wa_Id a)) xs))"
    using d by (auto simp: distinct_map inj_on_def intro: signed_word_eqI)
  moreover have "sorted (map (\<lambda>a. sint (wa_Id a)) (sort_key (\<lambda>a. sint (wa_Id a)) xs))" by simp
  ultimately have "sorted_wrt (<) (map (\<lambda>a. sint (wa_Id a)) (sort_key (\<lambda>a. sint (wa_Id a)) xs))"
    by (simp add: strict_sorted_iff)
  then show ?thesis by (simp add: sorted_wrt_map)
qed

lemma ids_ok_actions:
  assumes "ids_ok c" shows "map (\<lambda>(_, a). wa_Id (wc_actions c ! a)) (wc_pendingActions c) = map fst (wc_pendingActions c)"
  using assms by (auto simp: ids_ok_def entered_def)

lemma ctx_actions_ids:
  assumes "ids_ok c" shows "sorted_wrt (\<lambda>a b. sint (wa_Id a) < sint (wa_Id b)) (ctx_actions en c)"
proof -
  let ?pending = "map (\<lambda>(_, a). wc_actions c ! a) (wc_pendingActions c)"
  have "map wa_Id ?pending = map fst (wc_pendingActions c)"
    using ids_ok_actions [OF assms] by (simp add: case_prod_unfold comp_def)
  then have "distinct (map wa_Id ?pending)" using assms by (simp only: ids_ok_def entered_def)
  then have "distinct (map wa_Id (map (addCarryover es) (filter P ?pending)))" for es P
    by (simp add: comp_def distinct_map_filter)
  from sorted_strict_ids [OF this] show ?thesis by (simp add: ctx_actions_def Let_def)
qed

text \<open>
  C31. The actions of a turn carry strictly increasing ids, so no two of them share one, as long as
  the turn made fewer than 2^31 actions; this includes turns in which optional timers were dropped
  and the later ids moved down.
\<close>

theorem turn_action_ids:
  assumes "orders en" and "start en reg (NewWorkflowContext iid oldEvents newEvents) = Some (Inr (actions, c'))"
    and "length (wc_actions c') < 2 ^ 31"
  shows "sorted_wrt (\<lambda>a b. sint (wa_Id a) < sint (wa_Id b)) actions"
proof -
  have "turn_ok c'" "actions = ctx_actions en c'"
    using turns.start_invariant [OF assms(1) turn_ok_new assms(2)] by simp_all
  with assms(3) show ?thesis using ctx_actions_ids by (simp add: turn_ok_def)
qed

lemma sample_orders: "orders sample_engine"
  by (simp add: orders_def sample_engine_def)

theorem turn_action_ids_witness:
  "orders sample_engine \<and>
   (\<exists>actions. start sample_engine sample_registry (NewWorkflowContext ''i'' [sample_wf_started] [sample_ex_started]) =
      Some (Inr (actions, sample_after)) \<and> length (wc_actions sample_after) < 2 ^ 31 \<and>
      sorted_wrt (\<lambda>a b. sint (wa_Id a) < sint (wa_Id b)) actions)"
proof -
  have "length (wc_actions sample_after) = 2" using arg_cong [OF sample_after_actions(2), of length] by simp
  then have l: "length (wc_actions sample_after) < 2 ^ 31" by simp
  note s = sample_turn_start [unfolded sample_context_def]
  show ?thesis using sample_orders s l turn_action_ids [OF sample_orders s l] by blast
qed

lemma addCarryover_complete:
  "GetCompleteWorkflow a = Some co \<Longrightarrow> \<exists>co'. GetCompleteWorkflow (addCarryover es a) = Some co' \<and> cwa_WorkflowStatus co' = cwa_WorkflowStatus co"
  by (auto simp: GetCompleteWorkflow_def addCarryover_def split: WorkflowActionType.splits)

lemma finalised_actions:
  assumes "wc_isTerminated c" and "finalised c"
  shows "\<exists>a\<in>set (ctx_actions en c). \<exists>co. GetCompleteWorkflow a = Some co \<and> cwa_WorkflowStatus co \<noteq> CONTINUED_AS_NEW"
proof -
  from assms(2) obtain i a co where a: "(i, a) \<in> set (wc_pendingActions c)" "GetCompleteWorkflow (wc_actions c ! a) = Some co"
    "cwa_WorkflowStatus co \<noteq> CONTINUED_AS_NEW" by (auto simp: finalised_def)
  define carry where "carry = (if wc_continuedAsNew c \<and> wc_saveBufferedExternalEvents c
      then concat (map snd (en_orderEvents en (wc_bufferedExternalEvents c))) else [])"
  have "addCarryover carry (wc_actions c ! a) \<in> set (ctx_actions en c)"
    using a(1,2) assms(1) by (auto simp: ctx_actions_def Let_def carry_def image_iff intro!: bexI [of _ "(i, a)"])
  moreover obtain co' where "GetCompleteWorkflow (addCarryover carry (wc_actions c ! a)) = Some co'"
    "cwa_WorkflowStatus co' = cwa_WorkflowStatus co" using addCarryover_complete [OF a(2), of carry] by blast
  ultimately show ?thesis using a(3) by (intro bexI exI [of _ co']) auto
qed

text \<open>
  C32. A termination is final: when the history of a turn terminated the workflow, the actions of the
  turn contain a completion of it that is not a continue-as-new, whatever the workflow function did
  before or after, and also when it was suspended.
\<close>

theorem termination_is_final:
  assumes "orders en" and "start en reg (NewWorkflowContext iid oldEvents newEvents) = Some (Inr (actions, c'))"
    and "length (wc_actions c') < 2 ^ 31" and "wc_isTerminated c'"
  shows "\<exists>a\<in>set actions. \<exists>co. GetCompleteWorkflow a = Some co \<and> cwa_WorkflowStatus co \<noteq> CONTINUED_AS_NEW"
proof -
  have "turn_ok c'" "actions = ctx_actions en c'"
    using turns.start_invariant [OF assms(1) turn_ok_new assms(2)] by simp_all
  with assms(3,4) show ?thesis using finalised_actions by (simp add: turn_ok_def)
qed

theorem termination_is_final_witness:
  "\<exists>actions c'. start sample_engine sample_registry (NewWorkflowContext ''i'' [] [sample_terminate]) = Some (Inr (actions, c')) \<and>
     length (wc_actions c') < 2 ^ 31 \<and> wc_isTerminated c' \<and>
     (\<exists>a\<in>set actions. \<exists>co. GetCompleteWorkflow a = Some co \<and> cwa_WorkflowStatus co \<noteq> CONTINUED_AS_NEW)"
proof -
  let ?c = "onExecutionTerminated sample_engine \<lparr>et_Input = Some ''stop'', et_Recurse = True\<rparr> (sample_ended\<lparr>wc_historyIndex := 1\<rparr>)"
  have l: "length (wc_actions ?c) < 2 ^ 31" and t: "wc_isTerminated ?c"
    by (simp_all add: onExecutionTerminated_def sample_ended_def NewWorkflowContext_def sample_engine_def setCompleteInternal_def
        addAction_def getNextSequenceNumber_def)
  note s = sample_ended_start
  show ?thesis
    using s l t termination_is_final [OF sample_orders s [unfolded sample_ended_def] l [unfolded sample_ended_def] t [unfolded sample_ended_def]]
    unfolding sample_ended_def by blast
qed

subsection \<open>Activity results\<close>

lemma scheduled_activity:
  assumes "internalScheduleActivity name executionId options c = (t, c1)"
    and "map_of (wc_bufferedResolutions c) (KindTask, wc_sequenceNumber c) = None"
  shows "t = length (wc_tasks c)" "map_of (wc_pendingTasks c1) (wc_sequenceNumber c) = Some t"
    "\<exists>x. wc_tasks c1 = wc_tasks c @ [x] \<and> ct_kind x = KindTask \<and> ct_completedCallback x = None \<and> ct_failureDetails x = None \<and> \<not> ct_isCanceled x"
    "wc_optionalTimerIDs c1 = wc_optionalTimerIDs c"
  using assms
  by (auto simp: internalScheduleActivity_def addAction_def getNextSequenceNumber_def registerTask_def newTask_def updTask_def
      consumeBufferedResolution_def Let_def update_conv)

lemma delivered_result:
  assumes "map_of (wc_pendingTasks c) i = Some t" and "\<not> resolutionIDProvisional i c" and "tcd_TaskScheduledId tc = i"
    and "wc_tasks c = xs @ [x]" and "t = length xs" and "ct_kind x = KindTask" and "ct_completedCallback x = None"
  shows "wc_tasks (onTaskCompleted tc c) = xs @ [x\<lparr>ct_rawResult := GetValue (tcd_Result tc), ct_isCompleted := True\<rparr>]"
proof -
  have r: "wc_tasks (restoreActivityScheduleIdentity i y d) = wc_tasks d" for y d
    by (simp add: restoreActivityScheduleIdentity_def updAction_def split: option.split)
  have "resolvable KindTask i c = Some t" using assms by (simp add: resolvable_def)
  then show ?thesis
    using assms by (simp add: onTaskCompleted_def task_complete_def completeInternal_def updTask_def r markResolved_def Let_def)
qed

lemma executed_activity:
  assumes "GetTaskScheduled e = Some ts" and "getActivity (ts_Name ts) reg = Some activity"
    and "PropagatedHistoryFromProto (en_lib en) propagated = Inr ph"
    and "activity (newTaskActivityContext (he_EventId e) ts ph) = ActivityReturns result None" and "marshalData result = Inr bytes"
  shows "\<exists>r tc. ExecuteActivity en now reg e propagated = Inr r \<and> he_EventType r = TaskCompleted tc \<and>
    tcd_TaskScheduledId tc = he_EventId e \<and> GetValue (tcd_Result tc) = bytes"
  using assms by (auto simp: ExecuteActivity_def mkEvent_def GetValue_def)


definition sample_activity :: Activity where
  "sample_activity ctx = ActivityReturns (Some (Inr (ac_rawInput ctx))) None"

definition sample_scheduled :: HistoryEvent where
  "sample_scheduled = mkEvent 0 7 (TaskScheduled \<lparr>ts_Name = ''A'', ts_Version = None, ts_Input = Some ''7'',
     ts_ParentTraceContext = None, ts_TaskExecutionId = ''u'',
     ts_HistoryPropagationScope = None\<rparr>) None"


text \<open>
  C34. An event that arrives between two suspensions is lost: on a suspended workflow, a second
  suspension, any event that is neither a resumption nor a termination, and a resumption leave the
  context exactly as it was. The event has no effect, it is no longer buffered, and the workflow
  is still suspended.
\<close>

theorem second_suspension_loses_event:
  assumes "wc_isSuspended c" and "\<not> wc_isTerminated c" and "wc_suspendedEvents c = []"
    and "he_EventType s = ExecutionSuspended x" and "\<not> isResumeOrTerminate e" and "he_EventType r = ExecutionResumed y"
  shows "processAll (processEvent (Suc (Suc n)) en reg) [s, e, r] c = Done None c"
  using assms
  by (simp add: isResumeOrTerminate_def onExecutionResumed_def Let_def)

theorem second_suspension_loses_event_witness:
  "let c = (NewWorkflowContext ''i'' [] [])\<lparr>wc_isSuspended := True\<rparr>;
       raised = mkEvent (-1) 3 (EventRaised \<lparr>evr_Name = ''go'', evr_Input = Some ''1''\<rparr>) None
   in processAll (processEvent (Suc (Suc 0)) sample_engine sample_registry)
        [mkEvent (-1) 2 (ExecutionSuspended None) None, raised, mkEvent (-1) 4 (ExecutionResumed None) None] c = Done None c"
  unfolding Let_def
  by (rule second_suspension_loses_event [where x = None and y = None])
    (simp_all add: NewWorkflowContext_def mkEvent_def isResumeOrTerminate_def)

end
