(* ===== verification/HistoryCache.thy ===== *)
theory HistoryCache
  imports Processor "HOL-Library.AList" "HOL-Library.List_Lexorder" "HOL-Library.Char_ord"
begin

text \<open>
  Stateful history: the protocol by which the server sends a worker only the part of an instance's
  committed history that the worker does not hold yet. The server side is
  \<open>backend/executor_stateful.go\<close> (what a stream is believed to hold, the rewriting of a work item
  into a delta, the stream an instance prefers), the worker side \<open>client/worker_history.go\<close> (the
  cache of histories with its budgets) and \<open>processWorkflowWorkItem\<close> of
  \<open>client/worker_grpc.go\<close>.

  Go maps are association lists without repeated keys; where the code ranges over a map, the order
  is an argument. The serialized size of an event, the clock and the answer of the
  \<open>GetInstanceHistory\<close> call are arguments. Byte counts are unbounded integers.
\<close>

unbundle bit_operations_syntax

section \<open>Messages\<close>

record WorkflowRequest =
  wq_InstanceId :: string
  wq_ExecutionId :: "string option"
  wq_PastEvents :: "HistoryEvent list"
  wq_NewEvents :: "HistoryEvent list"
  wq_PropagatedHistory :: "PropagatedHistory option"
  wq_CachedHistory :: "int32 option"

record ActivityRequest =
  aq_Name :: string
  aq_Version :: "string option"
  aq_Input :: "string option"
  aq_InstanceId :: string
  aq_TaskId :: int32
  aq_ParentTraceContext :: "TraceContext option"
  aq_TaskExecutionId :: string
  aq_PropagatedHistory :: "PropagatedHistory option"

record ActivityResponse =
  ar_InstanceId :: string
  ar_TaskId :: int32
  ar_Result :: "string option"
  ar_FailureDetails :: "TaskFailureDetails option"
  ar_CompletionToken :: string

text \<open>The execution a turn belongs to: the first identifier in the new events, then in the old ones.\<close>

definition executionID :: "HistoryEvent list \<Rightarrow> HistoryEvent list \<Rightarrow> string option" where
  "executionID oldEvents newEvents =
     find_first (\<lambda>e. case GetExecutionStarted e of None \<Rightarrow> None | Some es \<Rightarrow> es_executionId es) (newEvents @ oldEvents)"

definition workflowRequest ::
  "InstanceID \<Rightarrow> HistoryEvent list \<Rightarrow> HistoryEvent list \<Rightarrow> PropagatedHistory option \<Rightarrow> WorkflowRequest" where
  "workflowRequest iid oldEvents newEvents ph =
     \<lparr>wq_InstanceId = iid, wq_ExecutionId = executionID oldEvents newEvents, wq_PastEvents = oldEvents,
      wq_NewEvents = newEvents, wq_PropagatedHistory = ph, wq_CachedHistory = None\<rparr>"

section \<open>The server side (backend/executor_stateful.go)\<close>

definition maxWarmInstancesPerStream :: int where
  "maxWarmInstancesPerStream = 1000000"

record warmHistory =
  wh_executionID :: string
  wh_eventCount :: nat

record streamState =
  ss_id :: string
  ss_statefulHistory :: bool
  ss_warm :: "(InstanceID \<times> warmHistory) list"
  ss_maxWarm :: int

text \<open>The capabilities a worker advertises; \<open>True\<close> stands for the stateful-history one.\<close>

definition newStreamState :: "string \<Rightarrow> bool list \<Rightarrow> streamState" where
  "newStreamState sid capabilities =
     \<lparr>ss_id = sid, ss_statefulHistory = (True \<in> set capabilities), ss_warm = [], ss_maxWarm = maxWarmInstancesPerStream\<rparr>"

text \<open>\<open>fnv.New64a\<close> of the standard library: the 64-bit FNV-1a hash.\<close>

definition fnv64a :: "string \<Rightarrow> uint64" where
  "fnv64a s = foldl (\<lambda>h c. (h XOR of_char c) * 1099511628211) 14695981039346656037 s"

definition rendezvousScore :: "InstanceID \<Rightarrow> string \<Rightarrow> uint64" where
  "rendezvousScore iid streamID = fnv64a (iid @ [CHR 0x00] @ streamID)"

text \<open>One visit of the range over the connected streams, and the range.\<close>

definition betterOwner :: "InstanceID \<Rightarrow> streamState option \<Rightarrow> streamState \<Rightarrow> streamState option" where
  "betterOwner iid best ss =
     (if \<not> ss_statefulHistory ss then best
      else (case best of
              None \<Rightarrow> Some ss
            | Some b \<Rightarrow>
                if rendezvousScore iid (ss_id ss) > rendezvousScore iid (ss_id b)
                   \<or> rendezvousScore iid (ss_id ss) = rendezvousScore iid (ss_id b) \<and> ss_id ss < ss_id b
                then Some ss else Some b))"

definition affinityStreamOwner :: "InstanceID \<Rightarrow> streamState list \<Rightarrow> streamState option" where
  "affinityStreamOwner iid streams = foldl (betterOwner iid) None streams"

text \<open>Dropping warm entries, in the order \<open>ks\<close> of the range, until the map fits.\<close>

fun evictWarm :: "int \<Rightarrow> InstanceID \<Rightarrow> InstanceID list \<Rightarrow> (InstanceID \<times> warmHistory) list \<Rightarrow> (InstanceID \<times> warmHistory) list" where
  "evictWarm cap iid [] warm = warm"
| "evictWarm cap iid (k # ks) warm =
     (if k = iid then evictWarm cap iid ks warm
      else let warm' = AList.delete k warm
           in if int (length warm') \<le> cap then warm' else evictWarm cap iid ks warm')"

definition applyStatefulHistory ::
  "(InstanceID list \<Rightarrow> InstanceID list) \<Rightarrow> streamState \<Rightarrow> WorkflowRequest \<Rightarrow> streamState \<times> WorkflowRequest" where
  "applyStatefulHistory order s req =
     (if \<not> ss_statefulHistory s then (s, req)
      else
        let iid = wq_InstanceId req;
            pastLen = length (wq_PastEvents req);
            execution = GetValue (wq_ExecutionId req);
            req' = (case map_of (ss_warm s) iid of
                      None \<Rightarrow> req
                    | Some cached \<Rightarrow>
                        if execution \<noteq> [] \<and> wh_executionID cached = execution
                           \<and> wh_eventCount cached > 0 \<and> wh_eventCount cached \<le> pastLen
                        then req\<lparr>wq_PastEvents := drop (wh_eventCount cached) (wq_PastEvents req),
                                 wq_CachedHistory := Some (of_nat (wh_eventCount cached))\<rparr>
                        else req);
            warm = AList.update iid \<lparr>wh_executionID = execution, wh_eventCount = pastLen\<rparr> (ss_warm s)
        in (s\<lparr>ss_warm := if int (length warm) > ss_maxWarm s
                          then evictWarm (ss_maxWarm s) iid (order (map fst warm)) warm else warm\<rparr>,
            req'))"

section \<open>The worker's cache (client/worker_history.go)\<close>

definition maxCachedWorkflowHistories :: int where
  "maxCachedWorkflowHistories = 100000"

definition cachedWorkflowHistoryTTL :: int where
  "cachedWorkflowHistoryTTL = 3600 * second"

definition cachedWorkflowHistorySweepInterval :: int where
  "cachedWorkflowHistorySweepInterval = 60 * second"

record workflowHistoryCacheConfig =
  cfg_ttl :: "int option"
  cfg_sweepInterval :: "int option"
  cfg_maxInstances :: "int option"
  cfg_maxBytes :: "int option"

record cachedWorkflowHistory =
  ch_executionID :: string
  ch_events :: "HistoryEvent list"
  ch_lastAccess :: int
  ch_bytes :: int

type_synonym cacheEntries = "(InstanceID \<times> cachedWorkflowHistory) list"

record workflowHistoryCache =
  hc_entries :: cacheEntries
  hc_totalBytes :: int
  hc_ttl :: int
  hc_sweepInterval :: int
  hc_maxInstances :: int
  hc_maxBytes :: int

definition configured :: "int option \<Rightarrow> int \<Rightarrow> int" where
  "configured v d = (case v of Some x \<Rightarrow> if x > 0 then x else d | None \<Rightarrow> d)"

definition newWorkflowHistoryCache :: "workflowHistoryCacheConfig \<Rightarrow> workflowHistoryCache" where
  "newWorkflowHistoryCache cfg =
     \<lparr>hc_entries = [], hc_totalBytes = 0,
      hc_ttl = configured (cfg_ttl cfg) cachedWorkflowHistoryTTL,
      hc_sweepInterval = configured (cfg_sweepInterval cfg) cachedWorkflowHistorySweepInterval,
      hc_maxInstances = configured (cfg_maxInstances cfg) maxCachedWorkflowHistories,
      hc_maxBytes = configured (cfg_maxBytes cfg) 0\<rparr>"

text \<open>\<open>get\<close> with the optional execution, which must then be known and equal.\<close>

definition cache_get ::
  "int \<Rightarrow> InstanceID \<Rightarrow> string option \<Rightarrow> workflowHistoryCache \<Rightarrow> HistoryEvent list option \<times> workflowHistoryCache" where
  "cache_get now iid execution h =
     (case map_of (hc_entries h) iid of
        None \<Rightarrow> (None, h)
      | Some e \<Rightarrow>
          (case execution of
             Some x \<Rightarrow>
               if x = [] \<or> ch_executionID e \<noteq> x then (None, h)
               else (Some (ch_events e), h\<lparr>hc_entries := AList.update iid (e\<lparr>ch_lastAccess := now\<rparr>) (hc_entries h)\<rparr>)
           | None \<Rightarrow>
               (Some (ch_events e), h\<lparr>hc_entries := AList.update iid (e\<lparr>ch_lastAccess := now\<rparr>) (hc_entries h)\<rparr>)))"

definition getForExecution ::
  "int \<Rightarrow> InstanceID \<Rightarrow> string \<Rightarrow> workflowHistoryCache \<Rightarrow> HistoryEvent list option \<times> workflowHistoryCache" where
  "getForExecution now iid execution h = cache_get now iid (Some execution) h"

definition historyBytes :: "(HistoryEvent \<Rightarrow> nat) \<Rightarrow> HistoryEvent list \<Rightarrow> int" where
  "historyBytes proto_Size events = foldl (\<lambda>total e. total + int (proto_Size e)) 0 events"

definition removeEntry :: "InstanceID \<Rightarrow> workflowHistoryCache \<Rightarrow> workflowHistoryCache" where
  "removeEntry iid h =
     (case map_of (hc_entries h) iid of
        None \<Rightarrow> h
      | Some e \<Rightarrow> h\<lparr>hc_totalBytes := hc_totalBytes h - ch_bytes e, hc_entries := AList.delete iid (hc_entries h)\<rparr>)"

text \<open>The range of \<open>lruExcept\<close>; the accumulator is the entry found so far.\<close>

fun lruScan :: "InstanceID \<Rightarrow> (InstanceID \<times> int) option \<Rightarrow> cacheEntries \<Rightarrow> (InstanceID \<times> int) option" where
  "lruScan keep oldest [] = oldest"
| "lruScan keep oldest ((iid, e) # es) =
     (if iid = keep then lruScan keep oldest es
      else (case oldest of
              None \<Rightarrow> lruScan keep (Some (iid, ch_lastAccess e)) es
            | Some (_, t) \<Rightarrow>
                if ch_lastAccess e < t then lruScan keep (Some (iid, ch_lastAccess e)) es
                else lruScan keep oldest es))"

definition lruExcept :: "(cacheEntries \<Rightarrow> cacheEntries) \<Rightarrow> InstanceID \<Rightarrow> workflowHistoryCache \<Rightarrow> InstanceID option" where
  "lruExcept order keep h = map_option fst (lruScan keep None (order (hc_entries h)))"

definition overBudget :: "workflowHistoryCache \<Rightarrow> bool" where
  "overBudget h \<longleftrightarrow> int (length (hc_entries h)) > hc_maxInstances h
     \<or> hc_maxBytes h > 0 \<and> hc_totalBytes h > hc_maxBytes h"

text \<open>
  The loop of \<open>evictToFit\<close>. Every round removes an entry, so as many rounds as there are entries
  are enough (lemma \<open>evictToFit_settled\<close>).
\<close>

fun evictLoop :: "(cacheEntries \<Rightarrow> cacheEntries) \<Rightarrow> nat \<Rightarrow> InstanceID \<Rightarrow> workflowHistoryCache \<Rightarrow> workflowHistoryCache" where
  "evictLoop order 0 keep h = h"
| "evictLoop order (Suc n) keep h =
     (if length (hc_entries h) \<le> 1 then h
      else if \<not> overBudget h then h
      else (case lruExcept order keep h of
              None \<Rightarrow> h
            | Some victim \<Rightarrow> evictLoop order n keep (removeEntry victim h)))"

definition evictToFit :: "(cacheEntries \<Rightarrow> cacheEntries) \<Rightarrow> InstanceID \<Rightarrow> workflowHistoryCache \<Rightarrow> workflowHistoryCache" where
  "evictToFit order keep h = evictLoop order (length (hc_entries h)) keep h"

definition putForExecution ::
  "(HistoryEvent \<Rightarrow> nat) \<Rightarrow> (cacheEntries \<Rightarrow> cacheEntries) \<Rightarrow> int \<Rightarrow> InstanceID \<Rightarrow> string \<Rightarrow> HistoryEvent list
    \<Rightarrow> workflowHistoryCache \<Rightarrow> workflowHistoryCache" where
  "putForExecution proto_Size order now iid execution events h =
     (let size = (if hc_maxBytes h > 0 then historyBytes proto_Size events else 0);
          total = (case map_of (hc_entries h) iid of None \<Rightarrow> hc_totalBytes h | Some old \<Rightarrow> hc_totalBytes h - ch_bytes old)
      in evictToFit order iid
           (h\<lparr>hc_entries := AList.update iid
                \<lparr>ch_executionID = execution, ch_events = events, ch_lastAccess = now, ch_bytes = size\<rparr> (hc_entries h),
              hc_totalBytes := total + size\<rparr>))"

definition cache_delete :: "InstanceID \<Rightarrow> workflowHistoryCache \<Rightarrow> workflowHistoryCache" where
  "cache_delete iid h = removeEntry iid h"

definition cache_reset :: "workflowHistoryCache \<Rightarrow> workflowHistoryCache" where
  "cache_reset h = h\<lparr>hc_entries := [], hc_totalBytes := 0\<rparr>"

text \<open>\<open>time.Time.Sub\<close> saturates at the range of a duration.\<close>

definition time_Sub :: "int \<Rightarrow> int \<Rightarrow> int" where
  "time_Sub t u = max (- (2 ^ 63)) (min (2 ^ 63 - 1) (t - u))"

definition sweepExpired :: "int \<Rightarrow> workflowHistoryCache \<Rightarrow> workflowHistoryCache" where
  "sweepExpired now h =
     foldl (\<lambda>g (iid, e). if time_Sub now (ch_lastAccess e) > hc_ttl h then removeEntry iid g else g) h (hc_entries h)"

text \<open>The execution a history belongs to: that of its first start event.\<close>

definition eventsExecutionID :: "HistoryEvent list \<Rightarrow> string" where
  "eventsExecutionID events =
     (case find_first GetExecutionStarted events of None \<Rightarrow> [] | Some started \<Rightarrow> GetValue (es_executionId started))"

definition cache_put ::
  "(HistoryEvent \<Rightarrow> nat) \<Rightarrow> (cacheEntries \<Rightarrow> cacheEntries) \<Rightarrow> int \<Rightarrow> InstanceID \<Rightarrow> HistoryEvent list
    \<Rightarrow> workflowHistoryCache \<Rightarrow> workflowHistoryCache" where
  "cache_put proto_Size order now iid events h = putForExecution proto_Size order now iid (eventsExecutionID events) events h"

text \<open>\<open>fetch\<close> is the answer of \<open>GetInstanceHistory\<close>, should the code ask.\<close>

definition resolveWorkflowHistory ::
  "int \<Rightarrow> (error + HistoryEvent list) \<Rightarrow> WorkflowRequest \<Rightarrow> workflowHistoryCache
    \<Rightarrow> (error + HistoryEvent list) \<times> workflowHistoryCache" where
  "resolveWorkflowHistory now fetch workItem h =
     (case wq_CachedHistory workItem of
        None \<Rightarrow> (Inr (wq_PastEvents workItem), h)
      | Some eventCount \<Rightarrow>
          let iid = wq_InstanceId workItem; execution = GetValue (wq_ExecutionId workItem);
              (cached, h') = getForExecution now iid execution h;
              miss = and_then fetch (\<lambda>events.
                if execution \<noteq> [] \<and> eventsExecutionID events \<noteq> execution
                then Inl (ErrorString (''history for '' @ iid @ '' no longer belongs to execution '' @ execution))
                else Inr events)
          in case cached of
               None \<Rightarrow> (miss, h')
             | Some events \<Rightarrow>
                 if int (length events) = sint eventCount then (Inr (events @ wq_PastEvents workItem), h')
                 else (miss, h'))"

definition workflowHistoryReset :: "WorkflowResponse \<Rightarrow> bool" where
  "workflowHistoryReset resp \<longleftrightarrow>
     (\<exists>a\<in>set (wfr_Actions resp). case wa_Type a of CompleteWorkflow _ \<Rightarrow> True | _ \<Rightarrow> False)"

section \<open>Work items at the worker (client/worker\_grpc.go)\<close>

text \<open>
  What the worker takes from libraries and the run-time: the size of an encoded event, the name of
  the type of an error (\<open>%T\<close>) and its message.
\<close>

record workerLib =
  wl_Size :: "HistoryEvent \<Rightarrow> nat"
  wl_typeOf :: "error \<Rightarrow> string"
  wl_Error :: "error \<Rightarrow> string"

type_synonym TurnExecutor =
  "InstanceID \<Rightarrow> HistoryEvent list \<Rightarrow> HistoryEvent list \<Rightarrow> PropagatedHistory option \<Rightarrow> error + WorkflowResponse"

definition failedTurn :: "workerLib \<Rightarrow> error \<Rightarrow> WorkflowAction" where
  "failedTurn L err =
     \<lparr>wa_Id = -1,
      wa_Type = CompleteWorkflow
        \<lparr>cwa_WorkflowStatus = FAILED,
         cwa_Result = Some ''An internal error occurred while executing the orchestration.'',
         cwa_Details = None, cwa_NewVersion = None, cwa_CarryoverEvents = [],
         cwa_FailureDetails = Some (TaskFailureDetails (wl_typeOf L err) (wl_Error L err) None None False)\<rparr>,
      wa_Router = None\<rparr>"

text \<open>The handler behind the reconstruction of the history: the turn, the cache, the response.\<close>

definition finishWorkflowWorkItem ::
  "workerLib \<Rightarrow> (cacheEntries \<Rightarrow> cacheEntries) \<Rightarrow> bool \<Rightarrow> TurnExecutor \<Rightarrow> int \<Rightarrow> string \<Rightarrow> WorkflowRequest
    \<Rightarrow> HistoryEvent list \<Rightarrow> workflowHistoryCache \<Rightarrow> WorkflowResponse \<times> workflowHistoryCache" where
  "finishWorkflowWorkItem L order statefulHistoryEnabled executor now completionToken workItem pastEvents h =
     (let iid = wq_InstanceId workItem;
          results = executor iid pastEvents (wq_NewEvents workItem) (wq_PropagatedHistory workItem);
          h' = (case results of
                  Inl _ \<Rightarrow> h
                | Inr res \<Rightarrow>
                    if \<not> statefulHistoryEnabled then h
                    else if workflowHistoryReset res then cache_delete iid h
                    else putForExecution (wl_Size L) order now iid (GetValue (wq_ExecutionId workItem)) pastEvents h);
          resp = (case results of
                    Inl err \<Rightarrow> \<lparr>wfr_InstanceId = iid, wfr_Actions = [failedTurn L err], wfr_CustomStatus = None,
                                 wfr_CompletionToken = completionToken, wfr_Version = None\<rparr>
                  | Inr res \<Rightarrow> \<lparr>wfr_InstanceId = iid, wfr_Actions = wfr_Actions res, wfr_CustomStatus = wfr_CustomStatus res,
                                 wfr_CompletionToken = completionToken, wfr_Version = wfr_Version res\<rparr>)
      in (resp, h'))"

text \<open>
  The whole handler. \<open>None\<close> is the path on which the history cannot be resolved: the stream is torn
  down and nothing is sent.
\<close>

definition processWorkflowWorkItem ::
  "workerLib \<Rightarrow> (cacheEntries \<Rightarrow> cacheEntries) \<Rightarrow> bool \<Rightarrow> TurnExecutor \<Rightarrow> int \<Rightarrow> (error + HistoryEvent list) \<Rightarrow> string
    \<Rightarrow> WorkflowRequest \<Rightarrow> workflowHistoryCache \<Rightarrow> WorkflowResponse option \<times> workflowHistoryCache" where
  "processWorkflowWorkItem L order statefulHistoryEnabled executor now fetch completionToken workItem h =
     (case resolveWorkflowHistory now fetch workItem h of
        (Inl err, h') \<Rightarrow> (None, h')
      | (Inr pastEvents, h') \<Rightarrow>
          (case finishWorkflowWorkItem L order statefulHistoryEnabled executor now completionToken workItem pastEvents h' of
             (resp, h'') \<Rightarrow> (Some resp, h'')))"

definition processActivityWorkItem ::
  "workerLib \<Rightarrow> (InstanceID \<Rightarrow> HistoryEvent \<Rightarrow> PropagatedHistory option \<Rightarrow> error + HistoryEvent) \<Rightarrow> int \<Rightarrow> string
    \<Rightarrow> ActivityRequest \<Rightarrow> ActivityResponse" where
  "processActivityWorkItem L executor now completionToken req =
     (let event = mkEvent (aq_TaskId req) now
            (TaskScheduled \<lparr>ts_Name = aq_Name req, ts_Version = aq_Version req, ts_Input = aq_Input req,
               ts_ParentTraceContext = aq_ParentTraceContext req, ts_TaskExecutionId = aq_TaskExecutionId req,
               ts_HistoryPropagationScope = None\<rparr>) None;
          resp = \<lparr>ar_InstanceId = aq_InstanceId req, ar_TaskId = aq_TaskId req, ar_Result = None,
                  ar_FailureDetails = None, ar_CompletionToken = completionToken\<rparr>
      in case executor (aq_InstanceId req) event (aq_PropagatedHistory req) of
           Inl err \<Rightarrow> resp\<lparr>ar_FailureDetails := Some (TaskFailureDetails (wl_typeOf L err) (wl_Error L err) None None False)\<rparr>
         | Inr result \<Rightarrow>
             (case GetTaskCompleted result of
                Some tc \<Rightarrow> resp\<lparr>ar_Result := tcd_Result tc\<rparr>
              | None \<Rightarrow>
                  (case GetTaskFailed result of
                     Some tf \<Rightarrow> resp\<lparr>ar_FailureDetails := tf_FailureDetails tf\<rparr>
                   | None \<Rightarrow> resp\<lparr>ar_FailureDetails :=
                       Some (TaskFailureDetails ''UnknownTaskResult'' ''Unknown task result'' None None False)\<rparr>)))"

text \<open>
  One iteration of the receiving loop of \<open>StartWorkItemListener\<close>: whether the listener was
  stopped before, what \<open>Recv\<close> returned, whether it was stopped during the pause or the
  reconnection, and the error that ended these. \<open>Inl\<close> is the new count of
  resource errors, \<open>Inr\<close> that the loop ended, with the terminal error handed to the handler.
\<close>

datatype received = ReceivedWorkflow | ReceivedActivity | ReceivedUnknown
  | ReceivedEOF | ReceivedResourceExhausted error | ReceivedStatus error | ReceivedOther error

definition workItemResourceErrorLimit :: nat where
  "workItemResourceErrorLimit = 3"

definition reconnect :: "bool \<Rightarrow> nat \<Rightarrow> error option \<Rightarrow> nat + error option" where
  "reconnect stopped resourceErrors failure =
     (case failure of None \<Rightarrow> Inl resourceErrors | Some err \<Rightarrow> Inr (if stopped then None else Some err))"

definition listenerStep :: "bool \<Rightarrow> received \<Rightarrow> bool \<Rightarrow> error option \<Rightarrow> nat \<Rightarrow> nat + error option" where
  "listenerStep stopped r stoppedLater failure resourceErrors =
     (case r of
        ReceivedWorkflow \<Rightarrow> Inl 0
      | ReceivedActivity \<Rightarrow> Inl 0
      | ReceivedUnknown \<Rightarrow> Inl resourceErrors
      | ReceivedEOF \<Rightarrow> if stopped then Inr None else reconnect stoppedLater resourceErrors failure
      | ReceivedResourceExhausted err \<Rightarrow>
          if stopped then Inr None
          else if resourceErrors + 1 \<ge> workItemResourceErrorLimit
          then Inr (Some (Wrapped ''work item stream resource retry budget exhausted'' err))
          else reconnect stoppedLater (resourceErrors + 1) failure
      | ReceivedStatus err \<Rightarrow> if stopped then Inr None else reconnect stoppedLater resourceErrors failure
      | ReceivedOther err \<Rightarrow> if stopped then Inr None else Inr (Some err))"

fun listen :: "nat \<Rightarrow> (bool \<times> received \<times> bool \<times> error option) list \<Rightarrow> nat + error option" where
  "listen resourceErrors [] = Inl resourceErrors"
| "listen resourceErrors ((stopped, r, stoppedLater, failure) # rs) =
     (case listenerStep stopped r stoppedLater failure resourceErrors of
        Inl n \<Rightarrow> listen n rs
      | Inr e \<Rightarrow> Inr e)"

section \<open>The exchange between server and worker\<close>

text \<open>
  The steps of a server and a worker that share a stream, in any order: the server commits events
  of an execution and dispatches a turn; the worker reconstructs the history of a received item,
  and later finishes the turn; entries expire; the stream reconnects. Between the two halves of the
  handler the cache may change, since every work item has its own goroutine. An item in flight is
  kept with the request it was made from. The histories that the server commits are per execution
  and only grow, as the backends have it; they stay below the range of the event counter.
\<close>

record world =
  w_log :: "InstanceID \<Rightarrow> string \<Rightarrow> HistoryEvent list"
  w_stream :: streamState
  w_cache :: workflowHistoryCache
  w_sent :: "(WorkflowRequest \<times> WorkflowRequest) list"
  w_replaying :: "(WorkflowRequest \<times> WorkflowRequest \<times> HistoryEvent list) list"

definition newWorld :: "string \<Rightarrow> bool list \<Rightarrow> workflowHistoryCacheConfig \<Rightarrow> world" where
  "newWorld sid capabilities cfg =
     \<lparr>w_log = (\<lambda>_ _. []), w_stream = newStreamState sid capabilities, w_cache = newWorkflowHistoryCache cfg,
      w_sent = [], w_replaying = []\<rparr>"

inductive exchange :: "world \<Rightarrow> world \<Rightarrow> bool" where
  exchange_commit:
    "exchange w (w\<lparr>w_log := (w_log w)(iid := (w_log w iid)(x := w_log w iid x @ es))\<rparr>)"
    if "eventsExecutionID (w_log w iid x @ es) = x" and "length (w_log w iid x @ es) < 2 ^ 31"
| exchange_dispatch:
    "exchange w (w\<lparr>w_stream := s, w_sent := (original, req) # w_sent w\<rparr>)"
    if "original = workflowRequest iid (w_log w iid x) new ph" and "GetValue (wq_ExecutionId original) = x"
      and "applyStatefulHistory order (w_stream w) original = (s, req)"
| exchange_resolve:
    "exchange w (w\<lparr>w_cache := h, w_sent := remove1 (original, req) (w_sent w),
        w_replaying := (case r of Inl _ \<Rightarrow> [] | Inr past \<Rightarrow> [(original, req, past)]) @ w_replaying w\<rparr>)"
    if "(original, req) \<in> set (w_sent w)"
      and "fetch = Inl err \<or> fetch = Inr (w_log w (wq_InstanceId req) y)"
      and "resolveWorkflowHistory now fetch req (w_cache w) = (r, h)"
| exchange_finish:
    "exchange w (w\<lparr>w_cache := h, w_replaying := remove1 (original, req, past) (w_replaying w)\<rparr>)"
    if "(original, req, past) \<in> set (w_replaying w)"
      and "finishWorkflowWorkItem L order stateful executor now token req past (w_cache w) = (resp, h)"
| exchange_sweep: "exchange w (w\<lparr>w_cache := sweepExpired now (w_cache w)\<rparr>)"
| exchange_reconnect:
    "exchange w (w\<lparr>w_stream := newStreamState sid capabilities, w_cache := cache_reset (w_cache w)\<rparr>)"

end
