(* ===== verification/HistoryProps.thy ===== *)
theory HistoryProps
  imports HistoryCache
begin

text \<open>
  Correctness of the stateful-history protocol: the owner of an instance is a function of the set of
  connected streams, the cache stays within its budgets whatever is done with it, and the worker
  replays what the server committed, however the steps of the two sides interleave.
\<close>

section \<open>Owners\<close>

text \<open>The order in which streams compete for an instance.\<close>

definition outranks :: "InstanceID \<Rightarrow> streamState \<Rightarrow> streamState \<Rightarrow> bool" where
  "outranks iid a b \<longleftrightarrow> rendezvousScore iid (ss_id b) < rendezvousScore iid (ss_id a)
     \<or> rendezvousScore iid (ss_id a) = rendezvousScore iid (ss_id b) \<and> ss_id a \<le> ss_id b"

lemma outranks_refl [simp]: "outranks iid a a"
  by (simp add: outranks_def)

lemma outranks_trans: "outranks iid a b \<Longrightarrow> outranks iid b c \<Longrightarrow> outranks iid a c"
  by (auto simp: outranks_def)

lemma outranks_total: "outranks iid a b \<or> outranks iid b a"
  by (auto simp: outranks_def)

lemma outranks_antisym: "outranks iid a b \<Longrightarrow> outranks iid b a \<Longrightarrow> ss_id a = ss_id b"
  by (auto simp: outranks_def)

lemma betterOwner_simps:
  "\<not> ss_statefulHistory s \<Longrightarrow> betterOwner iid best s = best"
  "ss_statefulHistory s \<Longrightarrow> betterOwner iid None s = Some s"
  "ss_statefulHistory s \<Longrightarrow> outranks iid b s \<Longrightarrow> betterOwner iid (Some b) s = Some b"
  "ss_statefulHistory s \<Longrightarrow> \<not> outranks iid b s \<Longrightarrow> betterOwner iid (Some b) s = Some s"
  by (auto simp: betterOwner_def outranks_def)

lemma owner_fold_Some:
  "foldl (betterOwner iid) (Some b) ss = Some r \<Longrightarrow>
     (r = b \<or> r \<in> set ss \<and> ss_statefulHistory r) \<and> outranks iid r b
       \<and> (\<forall>s\<in>set ss. ss_statefulHistory s \<longrightarrow> outranks iid r s)"
proof (induction ss arbitrary: b)
  case Nil
  then show ?case by simp
next
  case (Cons s ss)
  consider "\<not> ss_statefulHistory s" | "ss_statefulHistory s" "outranks iid b s"
    | "ss_statefulHistory s" "\<not> outranks iid b s" by blast
  then show ?case
  proof cases
    case 1
    with Cons.IH [of b] Cons.prems show ?thesis by (auto simp: betterOwner_simps)
  next
    case 2
    with Cons.IH [of b] Cons.prems show ?thesis by (auto simp: betterOwner_simps intro: outranks_trans)
  next
    case 3
    with outranks_total [of iid b s] Cons.IH [of s] Cons.prems show ?thesis
      by (auto simp: betterOwner_simps intro: outranks_trans)
  qed
qed

lemma owner_fold_exists: "\<exists>r. foldl (betterOwner iid) (Some b) ss = Some r"
proof (induction ss arbitrary: b)
  case (Cons s ss)
  have "\<exists>c. betterOwner iid (Some b) s = Some c" by (auto simp: betterOwner_def)
  with Cons show ?case by auto
qed simp

lemma owner_None_iff: "affinityStreamOwner iid ss = None \<longleftrightarrow> (\<forall>s\<in>set ss. \<not> ss_statefulHistory s)"
proof -
  have "foldl (betterOwner iid) None ss = None \<longleftrightarrow> (\<forall>s\<in>set ss. \<not> ss_statefulHistory s)"
  proof (induction ss)
    case (Cons s ss)
    then show ?case
      using owner_fold_exists [of iid s ss] by (cases "ss_statefulHistory s") (auto simp: betterOwner_simps)
  qed simp
  then show ?thesis by (simp add: affinityStreamOwner_def)
qed

lemma owner_SomeD:
  assumes "affinityStreamOwner iid ss = Some r"
  shows "r \<in> set ss" and "ss_statefulHistory r" and "\<forall>s\<in>set ss. ss_statefulHistory s \<longrightarrow> outranks iid r s"
proof -
  have "foldl (betterOwner iid) None ss = Some r \<Longrightarrow>
      r \<in> set ss \<and> ss_statefulHistory r \<and> (\<forall>s\<in>set ss. ss_statefulHistory s \<longrightarrow> outranks iid r s)"
  proof (induction ss)
    case (Cons s ss)
    then show ?case
      using owner_fold_Some [of iid s ss r] by (cases "ss_statefulHistory s") (auto simp: betterOwner_simps)
  qed simp
  with assms show "r \<in> set ss" "ss_statefulHistory r" "\<forall>s\<in>set ss. ss_statefulHistory s \<longrightarrow> outranks iid r s"
    by (simp_all add: affinityStreamOwner_def)
qed

text \<open>The owner is the best of the capable streams, so neither the order of the range nor other streams matter.\<close>

lemma owner_iff:
  assumes "inj_on ss_id (set ss)"
  shows "affinityStreamOwner iid ss = Some r \<longleftrightarrow>
    r \<in> set ss \<and> ss_statefulHistory r \<and> (\<forall>s\<in>set ss. ss_statefulHistory s \<longrightarrow> outranks iid r s)"
    (is "?L \<longleftrightarrow> ?R")
proof
  assume ?L then show ?R using owner_SomeD by blast
next
  assume R: ?R
  then obtain r' where r': "affinityStreamOwner iid ss = Some r'"
    using owner_None_iff [of iid ss] by (cases "affinityStreamOwner iid ss") auto
  from owner_SomeD [OF r'] R have "ss_id r' = ss_id r" by (metis outranks_antisym)
  with assms owner_SomeD(1) [OF r'] R have "r' = r" by (auto dest: inj_onD)
  with r' show ?L by simp
qed

section \<open>The cache\<close>

text \<open>What the cache holds, without the bookkeeping.\<close>

definition holdings :: "workflowHistoryCache \<Rightarrow> (InstanceID \<times> string \<times> HistoryEvent list) set" where
  "holdings h = (\<lambda>(iid, e). (iid, ch_executionID e, ch_events e)) ` set (hc_entries h)"

lemma set_update_subset: "set (AList.update k v al) \<subseteq> insert (k, v) (set al)"
  by (induction al) auto

lemma set_delete_subset: "set (AList.delete k al) \<subseteq> set al"
  by (auto simp: AList.delete_eq)

lemma holdings_remove: "holdings (removeEntry iid h) \<subseteq> holdings h"
  using set_delete_subset by (fastforce simp: holdings_def removeEntry_def split: option.splits)

lemma holdings_delete: "holdings (cache_delete iid h) \<subseteq> holdings h"
  by (simp add: cache_delete_def holdings_remove)

lemma holdings_evict: "holdings (evictLoop order n keep h) \<subseteq> holdings h"
proof (induction n arbitrary: h)
  case (Suc n)
  have "holdings (evictLoop order n keep (removeEntry v h)) \<subseteq> holdings h" for v
    using subset_trans [OF Suc.IH holdings_remove] .
  then show ?case by (simp split: option.splits)
qed simp

lemma holdings_put: "holdings (putForExecution sz order now iid x evs h) \<subseteq> insert (iid, x, evs) (holdings h)"
proof -
  have "holdings (h\<lparr>hc_entries := AList.update iid \<lparr>ch_executionID = x, ch_events = evs, ch_lastAccess = now, ch_bytes = b\<rparr>
      (hc_entries h), hc_totalBytes := t\<rparr>) \<subseteq> insert (iid, x, evs) (holdings h)" for b t
    using set_update_subset by (fastforce simp: holdings_def)
  then show ?thesis
    unfolding putForExecution_def evictToFit_def Let_def using holdings_evict by (meson subset_trans)
qed

lemma holdings_get:
  assumes "cache_get now iid (Some x) h = (r, h')"
  shows "holdings h' \<subseteq> holdings h" and "r = Some evs \<Longrightarrow> x \<noteq> [] \<and> (iid, x, evs) \<in> holdings h"
proof -
  show "holdings h' \<subseteq> holdings h"
    using assms set_update_subset
    by (fastforce simp: cache_get_def holdings_def dest: map_of_SomeD split: option.splits if_splits)
  show "x \<noteq> [] \<and> (iid, x, evs) \<in> holdings h" if "r = Some evs"
    using assms that by (force simp: cache_get_def holdings_def dest: map_of_SomeD split: option.splits if_splits)
qed

lemma holdings_sweep: "holdings (sweepExpired now h) \<subseteq> holdings h"
proof -
  have "holdings (foldl (\<lambda>g (iid, e). if P iid e then removeEntry iid g else g) g es) \<subseteq> holdings g" for P g es
  proof (induction es arbitrary: g)
    case (Cons a es)
    obtain iid e where a: "a = (iid, e)" by (cases a)
    from subset_trans [OF Cons.IH holdings_remove] Cons.IH show ?case by (simp add: a)
  qed simp
  then show ?thesis by (simp add: sweepExpired_def)
qed

lemma holdings_reset [simp]: "holdings (cache_reset h) = {}"
  by (simp add: holdings_def cache_reset_def)

lemma holdings_new [simp]: "holdings (newWorkflowHistoryCache cfg) = {}"
  by (simp add: holdings_def newWorkflowHistoryCache_def)

lemma holdings_finish:
  "finishWorkflowWorkItem L order st ex now tok r past h = (resp, h') \<Longrightarrow>
     holdings h' \<subseteq> insert (wq_InstanceId r, GetValue (wq_ExecutionId r), past) (holdings h)"
  using holdings_put holdings_delete
  by (fastforce simp: finishWorkflowWorkItem_def Let_def split: sum.splits if_splits)

lemma holdings_resolve:
  "resolveWorkflowHistory now fetch r h = (res, h') \<Longrightarrow> holdings h' \<subseteq> holdings h"
  by (auto simp: resolveWorkflowHistory_def getForExecution_def Let_def
      dest: holdings_get(1) split: option.splits prod.splits if_splits)


section \<open>Transparency\<close>

text \<open>What a request in flight tells: the original history, or its length and the rest.\<close>

definition carries :: "WorkflowRequest \<Rightarrow> WorkflowRequest \<Rightarrow> bool" where
  "carries original r \<longleftrightarrow> r = original \<or> GetValue (wq_ExecutionId original) \<noteq> [] \<and>
     (\<exists>n. 0 < n \<and> n \<le> length (wq_PastEvents original) \<and>
        r = original\<lparr>wq_PastEvents := drop n (wq_PastEvents original), wq_CachedHistory := Some (of_nat n)\<rparr>)"

lemma carries_applyStatefulHistory:
  "applyStatefulHistory order s original = (s', r) \<Longrightarrow> carries original r"
  by (auto simp: applyStatefulHistory_def carries_def Let_def split: if_splits option.splits)

lemma carries_fields:
  "carries original r \<Longrightarrow> wq_InstanceId r = wq_InstanceId original \<and> wq_ExecutionId r = wq_ExecutionId original
     \<and> wq_NewEvents r = wq_NewEvents original \<and> wq_PropagatedHistory r = wq_PropagatedHistory original"
  by (auto simp: carries_def)

definition committed :: "world \<Rightarrow> WorkflowRequest \<Rightarrow> HistoryEvent list" where
  "committed w original = w_log w (wq_InstanceId original) (GetValue (wq_ExecutionId original))"

definition world_ok :: "world \<Rightarrow> bool" where
  "world_ok w \<longleftrightarrow>
     (\<forall>iid x. w_log w iid x = [] \<or> eventsExecutionID (w_log w iid x) = x) \<and>
     (\<forall>iid x. length (w_log w iid x) < 2 ^ 31) \<and>
     (\<forall>(iid, x, evs)\<in>holdings (w_cache w). prefix evs (w_log w iid x)) \<and>
     (\<forall>(original, r)\<in>set (w_sent w). carries original r \<and> wq_CachedHistory original = None
        \<and> prefix (wq_PastEvents original) (committed w original)) \<and>
     (\<forall>(original, r, evs)\<in>set (w_replaying w). carries original r \<and> prefix (wq_PastEvents original) evs
        \<and> prefix evs (committed w original))"

lemma sint_of_nat_small: "n < 2 ^ 31 \<Longrightarrow> sint (of_nat n :: int32) = int n"
  by (simp add: sint_uint uint_nat unat_of_nat signed_take_bit_int_eq_self)

lemma resolve_extends:
  assumes ok: "world_ok w" and sent: "(original, r) \<in> set (w_sent w)"
    and fetch: "fetch = Inl err \<or> fetch = Inr (w_log w (wq_InstanceId r) y)"
    and res: "resolveWorkflowHistory now fetch r (w_cache w) = (Inr evs, h)"
  shows "prefix (wq_PastEvents original) evs \<and> prefix evs (committed w original)"
proof -
  let ?past = "wq_PastEvents original" let ?x = "GetValue (wq_ExecutionId original)"
  from ok sent have c: "carries original r" "wq_CachedHistory original = None"
    and pre: "prefix ?past (committed w original)"
    by (auto simp: world_ok_def)
  from c(1) consider "r = original" | n where "?x \<noteq> []" "0 < n" "n \<le> length ?past"
      "r = original\<lparr>wq_PastEvents := drop n ?past, wq_CachedHistory := Some (of_nat n)\<rparr>"
    by (auto simp: carries_def)
  then show ?thesis
  proof cases
    case 1
    with c(2) res pre show ?thesis by (simp add: resolveWorkflowHistory_def)
  next
    case 2
    obtain cached h' where get: "cache_get now (wq_InstanceId original) (Some ?x) (w_cache w) = (cached, h')"
      by (cases "cache_get now (wq_InstanceId original) (Some ?x) (w_cache w)")
    have len: "length ?past < 2 ^ 31"
      using ok prefix_length_le [OF pre] by (auto simp: world_ok_def committed_def intro: le_less_trans)
    have miss: "evs = committed w original" if "and_then fetch (\<lambda>events. if eventsExecutionID events \<noteq> ?x
        then Inl e else Inr events) = Inr evs" for e
    proof -
      from that fetch have evs: "evs = w_log w (wq_InstanceId original) y" and "eventsExecutionID evs = ?x"
        using carries_fields [OF c(1)] by (auto split: if_splits)
      moreover from \<open>eventsExecutionID evs = ?x\<close> \<open>?x \<noteq> []\<close> have "evs \<noteq> []" by (auto simp: eventsExecutionID_def)
      moreover from ok have "\<forall>iid x. w_log w iid x = [] \<or> eventsExecutionID (w_log w iid x) = x"
        by (simp add: world_ok_def)
      ultimately have "y = ?x" by metis
      with evs show ?thesis by (simp add: committed_def)
    qed
    show ?thesis
    proof (cases "\<exists>c. cached = Some c \<and> length c = n")
      case True
      then obtain c where c': "cached = Some c" "length c = n" by blast
      from holdings_get(2) [OF get c'(1)] ok have "prefix c (committed w original)"
        by (auto simp: world_ok_def committed_def)
      with pre c'(2) 2 have "c = take n ?past"
        by (auto simp: prefix_def) (metis append_eq_append_conv_if append_take_drop_id take_append)
      moreover have "int (length c) = sint (of_nat n :: int32)"
        using c'(2) 2 len by (simp add: sint_of_nat_small)
      ultimately have "evs = ?past"
        using res 2 get c' by (simp add: resolveWorkflowHistory_def getForExecution_def Let_def)
      with pre show ?thesis by simp
    next
      case False
      then have "and_then fetch (\<lambda>events. if eventsExecutionID events \<noteq> ?x then
          Inl (ErrorString (''history for '' @ wq_InstanceId original @ '' no longer belongs to execution '' @ ?x))
          else Inr events) = Inr evs"
        using res 2 get len
        by (auto simp: resolveWorkflowHistory_def getForExecution_def Let_def sint_of_nat_small split: option.splits if_splits)
      from miss [OF this] pre show ?thesis by simp
    qed
  qed
qed


lemma exchange_keeps_ok: "exchange w w' \<Longrightarrow> world_ok w \<Longrightarrow> world_ok w'"
proof (induction rule: exchange.induct)
  case (exchange_commit w iid x es)
  let ?w = "w\<lparr>w_log := (w_log w)(iid := (w_log w iid)(x := w_log w iid x @ es))\<rparr>"
  have grows: "prefix evs (w_log w i y) \<Longrightarrow> prefix evs (w_log ?w i y)" for evs i y
    by (auto simp: prefix_def)
  then have "prefix evs (committed w q) \<Longrightarrow> prefix evs (committed ?w q)" for evs q
    by (simp add: committed_def)
  moreover have "length (w_log ?w i y) < 2 ^ 31" "w_log ?w i y = [] \<or> eventsExecutionID (w_log ?w i y) = y" for i y
    using exchange_commit by (auto simp: world_ok_def)
  ultimately show ?case
    using exchange_commit.prems grows unfolding world_ok_def by (fastforce simp del: fun_upd_apply)
next
  case (exchange_dispatch original iid w x new ph order s req)
  then show ?case
    by (auto simp: world_ok_def committed_def workflowRequest_def dest: carries_applyStatefulHistory)
next
  case (exchange_resolve original req w fetch err y now r h)
  have "holdings h \<subseteq> holdings (w_cache w)" using exchange_resolve(3) by (rule holdings_resolve)
  moreover have "prefix (wq_PastEvents original) past \<and> prefix past (committed w original)" if "r = Inr past" for past
    using resolve_extends [OF exchange_resolve(4,1,2)] exchange_resolve(3) that by blast
  moreover have "carries original req" using exchange_resolve by (auto simp: world_ok_def)
  ultimately show ?case
    using exchange_resolve.prems
    by (auto simp: world_ok_def committed_def dest!: notin_set_remove1 set_remove1_subset [THEN subsetD] split: sum.splits)
next
  case (exchange_finish original req past w L order stateful executor now token resp h)
  then have "carries original req" and "prefix past (committed w original)"
    by (auto simp: world_ok_def)
  then have "\<forall>(iid, x, evs)\<in>holdings h. prefix evs (w_log w iid x)"
    using holdings_finish [OF exchange_finish(2)] exchange_finish.prems carries_fields [of original req]
    by (auto simp: world_ok_def committed_def)
  then show ?case
    using exchange_finish.prems
    by (auto simp: world_ok_def committed_def dest: set_remove1_subset [THEN subsetD])
next
  case (exchange_sweep w now)
  then show ?case using holdings_sweep [of now "w_cache w"] by (auto simp: world_ok_def committed_def)
next
  case (exchange_reconnect w sid capabilities)
  then show ?case by (auto simp: world_ok_def committed_def)
qed

lemma reachable_world_ok: "exchange\<^sup>*\<^sup>* (newWorld sid caps cfg) w \<Longrightarrow> world_ok w"
proof (induction rule: rtranclp_induct)
  case base
  then show ?case by (simp add: world_ok_def newWorld_def)
next
  case (step w w')
  then show ?case using exchange_keeps_ok by blast
qed


section \<open>Budgets\<close>

definition cache_wf :: "workflowHistoryCache \<Rightarrow> bool" where
  "cache_wf h \<longleftrightarrow> distinct (map fst (hc_entries h)) \<and> (\<forall>(iid, e)\<in>set (hc_entries h). 0 \<le> ch_bytes e)
     \<and> hc_totalBytes h = (\<Sum>(iid, e)\<leftarrow>hc_entries h. ch_bytes e)"

definition budgets :: "workflowHistoryCache \<Rightarrow> int \<times> int \<times> int" where
  "budgets h = (hc_maxInstances h, hc_maxBytes h, hc_ttl h)"

text \<open>Nothing is left to evict: within both budgets, or a single entry.\<close>

definition settled :: "workflowHistoryCache \<Rightarrow> bool" where
  "settled h \<longleftrightarrow> length (hc_entries h) \<le> 1 \<or> \<not> overBudget h"

lemma delete_absent: "k \<notin> fst ` set al \<Longrightarrow> AList.delete k al = al"
  by (induction al) auto

lemma sum_delete:
  fixes f :: "'b \<Rightarrow> int"
  assumes "distinct (map fst al)" and "map_of al k = Some v"
  shows "(\<Sum>(i, e)\<leftarrow>AList.delete k al. f e) = (\<Sum>(i, e)\<leftarrow>al. f e) - f v"
  using assms
proof (induction al)
  case (Cons a al)
  then show ?case
    by (cases a; cases "fst a = k") (simp_all add: delete_absent)
qed simp

lemma length_delete:
  assumes "distinct (map fst al)" and "map_of al k = Some v"
  shows "length al = Suc (length (AList.delete k al))"
  using assms
proof (induction al)
  case (Cons a al)
  then show ?case
    by (cases a; cases "fst a = k") (simp_all add: delete_absent)
qed simp

lemma sum_update:
  fixes f :: "'b \<Rightarrow> int"
  assumes "distinct (map fst al)"
  shows "(\<Sum>(i, e)\<leftarrow>AList.update k v al. f e) =
    (\<Sum>(i, e)\<leftarrow>al. f e) - (case map_of al k of None \<Rightarrow> 0 | Some u \<Rightarrow> f u) + f v"
  using assms by (induction al) (auto split: option.splits)

lemma alist_update_length: "length (AList.update k v al) \<le> Suc (length al)"
  by (induction al) auto

lemma removeEntry_wf:
  assumes "cache_wf h"
  shows "cache_wf (removeEntry iid h)" and "budgets (removeEntry iid h) = budgets h"
    and "hc_totalBytes (removeEntry iid h) \<le> hc_totalBytes h"
    and "map_of (hc_entries h) iid = Some e \<Longrightarrow> length (hc_entries h) = Suc (length (hc_entries (removeEntry iid h)))"
proof -
  show "cache_wf (removeEntry iid h)"
    using assms sum_delete [of "hc_entries h" iid _ ch_bytes] set_delete_subset [of iid "hc_entries h"]
    by (auto simp: cache_wf_def removeEntry_def distinct_delete split: option.splits)
  show "budgets (removeEntry iid h) = budgets h"
    by (simp add: removeEntry_def budgets_def split: option.splits)
  show "hc_totalBytes (removeEntry iid h) \<le> hc_totalBytes h"
    using assms by (auto simp: removeEntry_def cache_wf_def dest!: map_of_SomeD split: option.splits)
  show "length (hc_entries h) = Suc (length (hc_entries (removeEntry iid h)))" if "map_of (hc_entries h) iid = Some e"
    using assms length_delete [of "hc_entries h" iid e] that by (simp add: removeEntry_def cache_wf_def)
qed

lemma settled_removeEntry:
  assumes "cache_wf h" and "settled h"
  shows "settled (removeEntry iid h)"
proof (cases "map_of (hc_entries h) iid")
  case (Some e)
  from removeEntry_wf(2,3) [OF assms(1), of iid] removeEntry_wf(4) [OF assms(1) Some] show ?thesis
    using assms(2) by (auto simp: settled_def overBudget_def budgets_def)
qed (use assms in \<open>simp add: removeEntry_def\<close>)


text \<open>The victim is an entry other than the kept one, and none of the others is older.\<close>

lemma lruScan_None: "lruScan keep acc es = None \<Longrightarrow> acc = None \<and> (\<forall>(i, e)\<in>set es. i = keep)"
proof (induction es arbitrary: acc)
  case (Cons a es)
  show ?case using Cons.prems by (cases a; cases acc) (auto dest: Cons.IH split: if_splits prod.splits)
qed simp

lemma lruScan_Some:
  "lruScan keep acc es = Some (v, t) \<Longrightarrow>
     (acc = Some (v, t) \<or> (\<exists>e. (v, e) \<in> set es \<and> v \<noteq> keep \<and> t = ch_lastAccess e))
       \<and> (\<forall>(i, e)\<in>set es. i \<noteq> keep \<longrightarrow> t \<le> ch_lastAccess e) \<and> (\<forall>u s. acc = Some (u, s) \<longrightarrow> t \<le> s)"
proof (induction es arbitrary: acc)
  case (Cons a es)
  obtain i e where a: "a = (i, e)" by (cases a)
  consider "i = keep" | "i \<noteq> keep" "acc = None" | u s where "i \<noteq> keep" "acc = Some (u, s)" "ch_lastAccess e < s"
    | u s where "i \<noteq> keep" "acc = Some (u, s)" "\<not> ch_lastAccess e < s"
    by (cases acc) auto
  then show ?case
  proof cases
    case 1
    with Cons.IH [of acc] Cons.prems show ?thesis by (auto simp: a)
  next
    case 2
    with Cons.IH [of "Some (i, ch_lastAccess e)"] Cons.prems show ?thesis by (auto simp: a)
  next
    case 3
    with Cons.IH [of "Some (i, ch_lastAccess e)"] Cons.prems show ?thesis by (auto simp: a)
  next
    case 4
    with Cons.IH [of acc] Cons.prems show ?thesis by (auto simp: a)
  qed
qed simp

lemma lruExcept_spec:
  assumes "mset (order (hc_entries h)) = mset (hc_entries h)"
  shows "lruExcept order keep h = None \<Longrightarrow> \<forall>(i, e)\<in>set (hc_entries h). i = keep"
    and "lruExcept order keep h = Some v \<Longrightarrow>
      \<exists>e. (v, e) \<in> set (hc_entries h) \<and> v \<noteq> keep \<and> (\<forall>(i, f)\<in>set (hc_entries h). i \<noteq> keep \<longrightarrow> ch_lastAccess e \<le> ch_lastAccess f)"
proof -
  note eq = mset_eq_setD [OF assms]
  show "\<forall>(i, e)\<in>set (hc_entries h). i = keep" if "lruExcept order keep h = None"
    using that lruScan_None [of keep None "order (hc_entries h)"] by (simp add: lruExcept_def eq)
  show "\<exists>e. (v, e) \<in> set (hc_entries h) \<and> v \<noteq> keep \<and> (\<forall>(i, f)\<in>set (hc_entries h). i \<noteq> keep \<longrightarrow> ch_lastAccess e \<le> ch_lastAccess f)"
    if "lruExcept order keep h = Some v"
    using that lruScan_Some [of keep None "order (hc_entries h)" v] by (auto simp: lruExcept_def eq)
qed


lemma evictLoop_settled:
  assumes "\<And>es. mset (order es) = mset es" and "cache_wf h" and "length (hc_entries h) \<le> Suc n"
  shows "cache_wf (evictLoop order n keep h) \<and> settled (evictLoop order n keep h)
    \<and> budgets (evictLoop order n keep h) = budgets h
    \<and> map_of (hc_entries (evictLoop order n keep h)) keep = map_of (hc_entries h) keep"
  using assms(2,3)
proof (induction n arbitrary: h)
  case 0
  then show ?case by (simp add: settled_def)
next
  case (Suc n)
  show ?case
  proof (cases "length (hc_entries h) \<le> 1 \<or> \<not> overBudget h")
    case True
    with Suc show ?thesis by (auto simp: settled_def)
  next
    case False
    then obtain a b es where es: "hc_entries h = a # b # es"
      by (cases "hc_entries h"; cases "tl (hc_entries h)") auto
    with Suc.prems(1) have "fst a \<noteq> fst b" by (simp add: cache_wf_def)
    then have "\<not> (\<forall>(i, e)\<in>set (hc_entries h). i = keep)" by (auto simp: es)
    then obtain v where v: "lruExcept order keep h = Some v"
      using lruExcept_spec(1) [of order h keep, OF assms(1)] by (cases "lruExcept order keep h") auto
    from lruExcept_spec(2) [OF assms(1) v] obtain e where e: "(v, e) \<in> set (hc_entries h)" "v \<noteq> keep" by blast
    then have m: "map_of (hc_entries h) v = Some e" using Suc.prems(1) by (simp add: cache_wf_def)
    note removed = removeEntry_wf [OF Suc.prems(1), of v]
    have "length (hc_entries (removeEntry v h)) \<le> Suc n"
      using removed(4) [OF m] Suc.prems(2) by simp
    from Suc.IH [OF removed(1) this] have rest:
      "cache_wf (evictLoop order n keep (removeEntry v h))" "settled (evictLoop order n keep (removeEntry v h))"
      "budgets (evictLoop order n keep (removeEntry v h)) = budgets h"
      "map_of (hc_entries (evictLoop order n keep (removeEntry v h))) keep = map_of (hc_entries (removeEntry v h)) keep"
      using removed(2) by simp_all
    moreover have "map_of (hc_entries (removeEntry v h)) keep = map_of (hc_entries h) keep"
      using e(2) m by (simp add: removeEntry_def AList.delete_conv')
    moreover have "evictLoop order (Suc n) keep h = evictLoop order n keep (removeEntry v h)"
      using False v by simp
    ultimately show ?thesis by simp
  qed
qed

inductive cache_step :: "(HistoryEvent \<Rightarrow> nat) \<Rightarrow> workflowHistoryCache \<Rightarrow> workflowHistoryCache \<Rightarrow> bool" for sz where
  "cache_step sz h (snd (cache_get now iid x h))"
| "cache_step sz h (putForExecution sz order now iid x evs h)" if "\<And>es. mset (order es) = mset es"
| "cache_step sz h (cache_delete iid h)"
| "cache_step sz h (cache_reset h)"
| "cache_step sz h (sweepExpired now h)"

definition measured :: "(HistoryEvent \<Rightarrow> nat) \<Rightarrow> int \<Rightarrow> InstanceID \<times> cachedWorkflowHistory \<Rightarrow> bool" where
  "measured sz limit p \<longleftrightarrow> ch_bytes (snd p) = (if limit > 0 then historyBytes sz (ch_events (snd p)) else 0)"

definition cache_ok :: "(HistoryEvent \<Rightarrow> nat) \<Rightarrow> workflowHistoryCache \<Rightarrow> bool" where
  "cache_ok sz h \<longleftrightarrow> cache_wf h \<and> settled h \<and> hc_maxInstances h \<ge> 1 \<and>
     (\<forall>p\<in>set (hc_entries h). measured sz (hc_maxBytes h) p)"

lemma historyBytes_sum: "historyBytes sz evs = (\<Sum>e\<leftarrow>evs. int (sz e))"
proof -
  have "foldl (\<lambda>total e. total + int (sz e)) a evs = a + (\<Sum>e\<leftarrow>evs. int (sz e))" for a
    by (induction evs arbitrary: a) auto
  then show ?thesis by (simp add: historyBytes_def)
qed

lemma historyBytes_nonneg: "0 \<le> historyBytes sz evs"
  by (auto simp: historyBytes_sum intro!: sum_list_nonneg)

lemma removeEntry_ok: "cache_ok sz h \<Longrightarrow> cache_ok sz (removeEntry iid h)"
proof -
  assume ok: "cache_ok sz h"
  then have wf: "cache_wf h" and st: "settled h" by (simp_all add: cache_ok_def)
  have "set (hc_entries (removeEntry iid h)) \<subseteq> set (hc_entries h)"
    using set_delete_subset by (fastforce simp: removeEntry_def split: option.splits)
  with ok removeEntry_wf(1,2) [OF wf, of iid] settled_removeEntry [OF wf st, of iid]
  show "cache_ok sz (removeEntry iid h)" unfolding cache_ok_def budgets_def by (auto dest: subsetD)
qed

lemma sweep_ok: "cache_ok sz h \<Longrightarrow> cache_ok sz (sweepExpired now h)"
proof -
  have "cache_ok sz g \<Longrightarrow> cache_ok sz (foldl (\<lambda>g (iid, e). if P iid e then removeEntry iid g else g) g es)" for P g es
    by (induction es arbitrary: g) (auto simp: removeEntry_ok)
  then show "cache_ok sz h \<Longrightarrow> cache_ok sz (sweepExpired now h)" by (simp add: sweepExpired_def)
qed

lemma ball_update: "\<forall>p\<in>set al. P p \<Longrightarrow> P (k, v) \<Longrightarrow> \<forall>p\<in>set (AList.update k v al). P p"
  using set_update_subset [of k v al] by blast

lemma touch_ok:
  assumes "cache_ok sz h" and "map_of (hc_entries h) iid = Some e"
  shows "cache_ok sz (h\<lparr>hc_entries := AList.update iid (e\<lparr>ch_lastAccess := now\<rparr>) (hc_entries h)\<rparr>)"
proof -
  let ?al = "AList.update iid (e\<lparr>ch_lastAccess := now\<rparr>) (hc_entries h)"
  have len: "length ?al = length (hc_entries h)"
    using assms(2) by (metis (no_types) length_map map_of_eq_None_iff option.distinct(1) update_keys dom_map_of_conv_image_fst set_map AList.update_keys)
  have nonneg: "\<forall>(i, f)\<in>set ?al. 0 \<le> ch_bytes f"
    using assms map_of_SomeD [OF assms(2)] by (intro ball_update) (auto simp: cache_ok_def cache_wf_def)
  have sized: "\<forall>p\<in>set ?al. measured sz (hc_maxBytes h) p"
    using assms map_of_SomeD [OF assms(2)] by (intro ball_update) (auto simp: cache_ok_def measured_def)
  show ?thesis
    using assms nonneg sized sum_update [of "hc_entries h" ch_bytes iid "e\<lparr>ch_lastAccess := now\<rparr>"]
    by (auto simp add: cache_ok_def cache_wf_def settled_def overBudget_def len distinct_update)
qed

lemma put_ok:
  assumes "cache_ok sz h" and "\<And>es. mset (order es) = mset es"
  shows "cache_ok sz (putForExecution sz order now iid x evs h)"
    and "map_of (hc_entries (putForExecution sz order now iid x evs h)) iid =
      Some \<lparr>ch_executionID = x, ch_events = evs, ch_lastAccess = now,
        ch_bytes = (if hc_maxBytes h > 0 then historyBytes sz evs else 0)\<rparr>"
proof -
  let ?e = "\<lparr>ch_executionID = x, ch_events = evs, ch_lastAccess = now,
    ch_bytes = (if hc_maxBytes h > 0 then historyBytes sz evs else 0)\<rparr>"
  let ?al = "AList.update iid ?e (hc_entries h)"
  let ?t = "(case map_of (hc_entries h) iid of None \<Rightarrow> hc_totalBytes h | Some old \<Rightarrow> hc_totalBytes h - ch_bytes old) + ch_bytes ?e"
  let ?g = "h\<lparr>hc_entries := ?al, hc_totalBytes := ?t\<rparr>"
  have put: "putForExecution sz order now iid x evs h = evictLoop order (length ?al) iid ?g"
    by (simp add: putForExecution_def evictToFit_def Let_def split: option.splits)
  have wf: "cache_wf ?g"
    using assms(1) sum_update [of "hc_entries h" ch_bytes iid ?e] set_update_subset [of iid ?e "hc_entries h"]
    by (auto simp: cache_ok_def cache_wf_def historyBytes_nonneg distinct_update split: option.splits)
  from evictLoop_settled [of order ?g "length ?al" iid, OF assms(2) wf]
  have ev: "cache_wf (evictLoop order (length ?al) iid ?g)" "settled (evictLoop order (length ?al) iid ?g)"
    "budgets (evictLoop order (length ?al) iid ?g) = budgets h"
    "map_of (hc_entries (evictLoop order (length ?al) iid ?g)) iid = Some ?e"
    by (simp_all add: budgets_def update_conv')
  show "map_of (hc_entries (putForExecution sz order now iid x evs h)) iid = Some ?e"
    using ev(4) by (simp add: put)
  have "set (hc_entries (evictLoop order n iid g)) \<subseteq> set (hc_entries g)" for n g
  proof (induction n arbitrary: g)
    case (Suc n)
    have "set (hc_entries (removeEntry v g)) \<subseteq> set (hc_entries g)" for v
      using set_delete_subset by (fastforce simp: removeEntry_def split: option.splits)
    with subset_trans [OF Suc.IH] show ?case by (simp split: option.splits)
  qed simp
  from this [of "length ?al" ?g] set_update_subset [of iid ?e "hc_entries h"]
  have "set (hc_entries (evictLoop order (length ?al) iid ?g)) \<subseteq> insert (iid, ?e) (set (hc_entries h))" by auto
  moreover have "\<forall>p\<in>insert (iid, ?e) (set (hc_entries h)). measured sz (hc_maxBytes h) p"
    using assms(1) by (simp add: cache_ok_def measured_def)
  ultimately have "\<forall>p\<in>set (hc_entries (evictLoop order (length ?al) iid ?g)). measured sz (hc_maxBytes h) p"
    by blast
  then show "cache_ok sz (putForExecution sz order now iid x evs h)"
    using ev(1-3) assms(1) unfolding put cache_ok_def budgets_def by simp
qed

lemma cache_step_ok: "cache_step sz h h' \<Longrightarrow> cache_ok sz h \<Longrightarrow> cache_ok sz h'"
proof (induction rule: cache_step.induct)
  case (1 h now iid x)
  then show ?case using touch_ok by (auto simp: cache_get_def split: option.splits)
next
  case (2 order h now iid x evs)
  then show ?case by (intro put_ok(1))
next
  case (4 h)
  then show ?case by (auto simp: cache_ok_def cache_reset_def cache_wf_def settled_def)
qed (simp_all add: cache_delete_def removeEntry_ok sweep_ok)

text \<open>What was put is found again, as long as nothing else touches the cache.\<close>

lemma put_then_get:
  assumes "cache_ok sz h" and "\<And>es. mset (order es) = mset es" and "x \<noteq> []"
  shows "fst (getForExecution now' iid x (putForExecution sz order now iid x evs h)) = Some evs"
  using put_ok(2) [OF assms(1,2)] assms(3) by (simp add: getForExecution_def cache_get_def)

text \<open>
  C36: the budgets of the worker's cache. After any sequence of its operations the cache holds at
  most the configured number of histories, its byte count is the sum of the sizes of what it holds,
  and it is within the byte budget unless a single history alone exceeds it.
\<close>

theorem history_cache_bounds:
  assumes "(cache_step sz)\<^sup>*\<^sup>* (newWorkflowHistoryCache cfg) h"
  shows "int (length (hc_entries h)) \<le> hc_maxInstances h \<and>
    (hc_maxBytes h > 0 \<longrightarrow> hc_totalBytes h = (\<Sum>(iid, e)\<leftarrow>hc_entries h. historyBytes sz (ch_events e))
       \<and> (hc_totalBytes h \<le> hc_maxBytes h \<or> length (hc_entries h) = 1))"
proof -
  from assms have ok: "cache_ok sz h"
  proof (induction rule: rtranclp_induct)
    case base
    then show ?case
      by (auto simp: cache_ok_def newWorkflowHistoryCache_def cache_wf_def settled_def configured_def
          maxCachedWorkflowHistories_def split: option.splits)
  next
    case (step g h)
    then show ?case using cache_step_ok by blast
  qed
  have "(\<Sum>(iid, e)\<leftarrow>hc_entries h. ch_bytes e) = (\<Sum>(iid, e)\<leftarrow>hc_entries h. historyBytes sz (ch_events e))"
    if "hc_maxBytes h > 0"
    using ok that by (intro arg_cong [of _ _ sum_list] map_cong refl) (auto simp: cache_ok_def measured_def)
  with ok show ?thesis
    by (cases "hc_entries h") (auto simp: cache_ok_def cache_wf_def settled_def overBudget_def)
qed

section \<open>The listener and the warm set\<close>

text \<open>The counter of resource errors stays below its limit as long as the listener runs.\<close>

lemma listen_bounded: "listen n rs = Inl m \<Longrightarrow> n < workItemResourceErrorLimit \<Longrightarrow> m < workItemResourceErrorLimit"
proof (induction n rs rule: listen.induct)
  case (2 n stopped r stoppedLater failure rs)
  then show ?case
    by (cases "listenerStep stopped r stoppedLater failure n")
      (auto simp: listenerStep_def reconnect_def workItemResourceErrorLimit_def split: received.splits if_splits option.splits)
qed simp

text \<open>Three resource errors without work in between end the listener with the budget error.\<close>

lemma listen_exhausted:
  "listen 0 [(False, ReceivedResourceExhausted e1, b1, None), (False, ReceivedResourceExhausted e2, b2, None),
     (False, ReceivedResourceExhausted e3, b3, failure)] =
   Inr (Some (Wrapped ''work item stream resource retry budget exhausted'' e3))"
  by (simp add: listenerStep_def reconnect_def workItemResourceErrorLimit_def)

text \<open>One eviction makes room again, so the warm set of a stream never exceeds its cap.\<close>

lemma evictWarm_fits:
  assumes "distinct (map fst warm)" and "int (length warm) \<le> cap + 1"
    and "\<exists>k\<in>set ks. k \<noteq> iid" and "set ks \<subseteq> fst ` set warm"
  shows "int (length (evictWarm cap iid ks warm)) \<le> cap"
  using assms(3,4)
proof (induction ks)
  case (Cons k ks)
  show ?case
  proof (cases "k = iid")
    case True
    with Cons show ?thesis by auto
  next
    case False
    from Cons.prems(2) obtain v where "map_of warm k = Some v"
      using assms(1) by (auto simp: image_iff)
    from length_delete [OF assms(1) this] False assms(2) show ?thesis by simp
  qed
qed simp

lemma warm_bounded:
  assumes "\<And>ks. mset (order ks) = mset ks" and "distinct (map fst (ss_warm s))"
    and "1 \<le> ss_maxWarm s" and "int (length (ss_warm s)) \<le> ss_maxWarm s"
    and "applyStatefulHistory order s req = (s', req')"
  shows "int (length (ss_warm s')) \<le> ss_maxWarm s'"
proof -
  let ?e = "\<lparr>wh_executionID = GetValue (wq_ExecutionId req), wh_eventCount = length (wq_PastEvents req)\<rparr>"
  let ?w = "AList.update (wq_InstanceId req) ?e (ss_warm s)"
  have len: "int (length ?w) \<le> ss_maxWarm s + 1"
    using assms(4) alist_update_length [of "wq_InstanceId req" ?e "ss_warm s"] by linarith
  have d: "distinct (map fst ?w)" using assms(2) by (simp add: distinct_update)
  have ks: "set (order (map fst ?w)) = fst ` set ?w" using mset_eq_setD [OF assms(1)] by simp
  have "int (length (evictWarm (ss_maxWarm s) (wq_InstanceId req) (order (map fst ?w)) ?w)) \<le> ss_maxWarm s"
    if "int (length ?w) > ss_maxWarm s"
  proof (rule evictWarm_fits [OF d len])
    from that assms(3) have "1 < length (map fst ?w)" by simp
    then obtain a b rest where "map fst ?w = a # b # rest" by (cases "map fst ?w"; cases "tl (map fst ?w)") auto
    with d have "\<exists>k\<in>set (map fst ?w). k \<noteq> wq_InstanceId req" by (metis distinct_length_2_or_more list.set_intros)
    then show "\<exists>k\<in>set (order (map fst ?w)). k \<noteq> wq_InstanceId req" by (simp add: ks)
  qed (simp add: ks)
  with assms(4,5) show ?thesis by (auto simp: applyStatefulHistory_def Let_def not_less split: if_splits)
qed

text \<open>
  Affinity moves as few instances as possible. Whatever streams connect or disconnect and in
  whatever order they are visited, an instance changes its owner only if the old owner is gone or
  the new one was not there before.
\<close>

lemma affinity_moves_minimal:
  assumes "inj_on ss_id (set streams \<union> set streams')"
    and "affinityStreamOwner iid streams = Some owner" and "affinityStreamOwner iid streams' = Some owner'"
  shows "owner = owner' \<or> owner \<notin> set streams' \<or> owner' \<notin> set streams"
proof (rule ccontr)
  assume neg: "\<not> ?thesis"
  note a = owner_SomeD [OF assms(2)] and b = owner_SomeD [OF assms(3)]
  from neg a b have "outranks iid owner owner'" "outranks iid owner' owner" by auto
  then have "ss_id owner = ss_id owner'" by (rule outranks_antisym)
  with assms(1) a(1) b(1) have "owner = owner'" by (auto dest: inj_onD)
  with neg show False by simp
qed

definition sample_stream :: "string \<Rightarrow> streamState" where
  "sample_stream sid = newStreamState sid [True]"

lemma sample_owners:
  "affinityStreamOwner ''j'' [sample_stream ''a'', sample_stream ''b''] = Some (sample_stream ''a'')"
  "affinityStreamOwner ''j'' [sample_stream ''c'', sample_stream ''b'', sample_stream ''a''] = Some (sample_stream ''a'')"
  by code_simp+

section \<open>A concrete exchange\<close>

definition sample_history :: "HistoryEvent list" where
  "sample_history = [mkEvent (-1) 1 (ExecutionStarted sample_start) None]"

definition sample_cfg :: workflowHistoryCacheConfig where
  "sample_cfg = \<lparr>cfg_ttl = None, cfg_sweepInterval = None, cfg_maxInstances = Some 2, cfg_maxBytes = None\<rparr>"

definition sample_request :: "HistoryEvent list \<Rightarrow> WorkflowRequest" where
  "sample_request past = workflowRequest ''child'' past [sample_done 1] None"

definition sample_wlib :: workerLib where
  "sample_wlib = \<lparr>wl_Size = (\<lambda>_. 1), wl_typeOf = (\<lambda>_. []), wl_Error = (\<lambda>_. [])\<rparr>"

definition sample_executor :: TurnExecutor where
  "sample_executor iid past new ph = Inr \<lparr>wfr_InstanceId = iid, wfr_Actions = [], wfr_CustomStatus = None,
     wfr_CompletionToken = [], wfr_Version = None\<rparr>"

text \<open>The server committed one event, the worker ran a turn over it, and another event was committed.\<close>

definition sample_world :: world where
  "sample_world =
     \<lparr>w_log = (\<lambda>_ _. [])(''child'' := (\<lambda>_. [])(''gen1'' := sample_history @ [sample_done 0])),
      w_stream = (newStreamState ''s'' [True])\<lparr>ss_warm := [(''child'', \<lparr>wh_executionID = ''gen1'', wh_eventCount = 1\<rparr>)]\<rparr>,
      w_cache = putForExecution (\<lambda>_. 1) id 5 ''child'' ''gen1'' sample_history (newWorkflowHistoryCache sample_cfg),
      w_sent = [], w_replaying = []\<rparr>"

lemma sample_ids:
  "eventsExecutionID sample_history = ''gen1''" "eventsExecutionID (sample_history @ es) = ''gen1''"
  "wq_ExecutionId (sample_request (sample_history @ es)) = Some ''gen1''"
  "wq_PastEvents (sample_request past) = past" "wq_InstanceId (sample_request past) = ''child''"
  "wq_CachedHistory (sample_request past) = None" "length sample_history = 1"
  by (simp_all add: sample_history_def eventsExecutionID_def GetExecutionStarted_def es_executionId_def sample_start_def
      sample_request_def workflowRequest_def executionID_def sample_done_def)

lemma sample_world_reachable: "exchange\<^sup>*\<^sup>* (newWorld ''s'' [True] sample_cfg) sample_world"
proof -
  let ?w0 = "newWorld ''s'' [True] sample_cfg"
  let ?w1 = "?w0\<lparr>w_log := (w_log ?w0)(''child'' := (w_log ?w0 ''child'')(''gen1'' := w_log ?w0 ''child'' ''gen1'' @ sample_history))\<rparr>"
  let ?o = "sample_request sample_history"
  let ?s = "(newStreamState ''s'' [True])\<lparr>ss_warm := [(''child'', \<lparr>wh_executionID = ''gen1'', wh_eventCount = 1\<rparr>)]\<rparr>"
  let ?w2 = "?w1\<lparr>w_stream := ?s, w_sent := [(?o, ?o)]\<rparr>"
  let ?w3 = "?w2\<lparr>w_cache := w_cache ?w2, w_sent := remove1 (?o, ?o) (w_sent ?w2),
    w_replaying := (case Inr sample_history :: error + HistoryEvent list of Inl _ \<Rightarrow> [] | Inr past \<Rightarrow> [(?o, ?o, past)]) @ w_replaying ?w2\<rparr>"
  let ?h = "putForExecution (\<lambda>_. 1) id 5 ''child'' ''gen1'' sample_history (newWorkflowHistoryCache sample_cfg)"
  let ?w4 = "?w3\<lparr>w_cache := ?h, w_replaying := remove1 (?o, ?o, sample_history) (w_replaying ?w3)\<rparr>"
  have s1: "exchange ?w0 ?w1"
    by (rule exchange_commit) (simp_all add: newWorld_def sample_ids)
  have "applyStatefulHistory id (w_stream ?w1) ?o = (?s, ?o)"
    using sample_ids(3) [of "[]"]
    by (simp add: applyStatefulHistory_def newWorld_def newStreamState_def sample_ids maxWarmInstancesPerStream_def)
  from exchange_dispatch [OF _ _ this, of "''child''" "''gen1''" "[sample_done 1]" None] have s2: "exchange ?w1 ?w2"
    using sample_ids(3) [of "[]"] by (simp add: newWorld_def sample_request_def)
  have "resolveWorkflowHistory 0 (Inl ErrNotStarted) ?o (w_cache ?w2) = (Inr sample_history, w_cache ?w2)"
    by (simp add: resolveWorkflowHistory_def sample_ids)
  from exchange_resolve [OF _ _ this, of ?o ErrNotStarted "[]"] have s3: "exchange ?w2 ?w3" by simp
  have "finishWorkflowWorkItem sample_wlib id True sample_executor 5 [] ?o sample_history (w_cache ?w3)
      = (\<lparr>wfr_InstanceId = ''child'', wfr_Actions = [], wfr_CustomStatus = None, wfr_CompletionToken = [], wfr_Version = None\<rparr>, ?h)"
    using sample_ids(3) [of "[]"]
    by (simp add: finishWorkflowWorkItem_def sample_executor_def sample_wlib_def workflowHistoryReset_def newWorld_def sample_ids Let_def)
  from exchange_finish [OF _ this, of ?o] have s4: "exchange ?w3 ?w4" by simp
  have s5: "exchange ?w4 sample_world"
    using exchange_commit [of ?w4 "''child''" "''gen1''" "[sample_done 0]"]
    by (simp add: newWorld_def sample_ids sample_world_def)
  show ?thesis
    by (intro converse_rtranclp_into_rtranclp [where r = exchange, OF s1]
        converse_rtranclp_into_rtranclp [where r = exchange, OF s2]
        converse_rtranclp_into_rtranclp [where r = exchange, OF s3]
        converse_rtranclp_into_rtranclp [where r = exchange, OF s4] r_into_rtranclp s5)
qed


text \<open>The next turn is sent as a delta, and the reachable world it is sent in.\<close>

definition sample_delta :: WorkflowRequest where
  "sample_delta = (sample_request (sample_history @ [sample_done 0]))
     \<lparr>wq_PastEvents := [sample_done 0], wq_CachedHistory := Some 1\<rparr>"

definition sample_world' :: world where
  "sample_world' = sample_world
     \<lparr>w_stream := (w_stream sample_world)\<lparr>ss_warm := [(''child'', \<lparr>wh_executionID = ''gen1'', wh_eventCount = 2\<rparr>)]\<rparr>,
      w_sent := [(sample_request (sample_history @ [sample_done 0]), sample_delta)]\<rparr>"

lemma sample_delta_sent: "exchange\<^sup>*\<^sup>* (newWorld ''s'' [True] sample_cfg) sample_world'"
proof -
  have "applyStatefulHistory id (w_stream sample_world) (sample_request (sample_history @ [sample_done 0])) =
      ((w_stream sample_world)\<lparr>ss_warm := [(''child'', \<lparr>wh_executionID = ''gen1'', wh_eventCount = 2\<rparr>)]\<rparr>, sample_delta)"
    by (simp add: applyStatefulHistory_def newStreamState_def sample_ids maxWarmInstancesPerStream_def sample_world_def
        sample_delta_def)
  from exchange_dispatch [OF _ _ this, of "''child''" "''gen1''" "[sample_done 1]" None]
  have "exchange sample_world sample_world'"
    by (simp add: sample_world_def sample_world'_def sample_ids sample_request_def [symmetric])
  then show ?thesis using sample_world_reachable by (rule rtranclp.rtrancl_into_rtrancl [rotated])
qed


text \<open>A budget of two events, into which three histories of one event do not fit.\<close>

definition sample_small :: workflowHistoryCacheConfig where
  "sample_small = \<lparr>cfg_ttl = None, cfg_sweepInterval = None, cfg_maxInstances = None, cfg_maxBytes = Some 2\<rparr>"

definition sample_puts :: "InstanceID list \<Rightarrow> workflowHistoryCache \<Rightarrow> workflowHistoryCache" where
  "sample_puts ids h = foldl (\<lambda>h iid. putForExecution (\<lambda>_. 1) id 5 iid ''gen1'' sample_history h) h ids"

theorem history_cache_bounds_witness:
  "(cache_step (\<lambda>_. 1))\<^sup>*\<^sup>* (newWorkflowHistoryCache sample_small) (sample_puts [''a'', ''b'', ''c''] (newWorkflowHistoryCache sample_small))
    \<and> int (length (hc_entries (sample_puts [''a'', ''b'', ''c''] (newWorkflowHistoryCache sample_small))))
        \<le> hc_maxInstances (sample_puts [''a'', ''b'', ''c''] (newWorkflowHistoryCache sample_small))
    \<and> map fst (hc_entries (sample_puts [''a'', ''b'', ''c''] (newWorkflowHistoryCache sample_small))) = [''b'', ''c'']"
proof -
  let ?h = "sample_puts [''a'', ''b'', ''c''] (newWorkflowHistoryCache sample_small)"
  have "(cache_step (\<lambda>_. 1))\<^sup>*\<^sup>* h (sample_puts ids h)" for ids h
  proof (induction ids arbitrary: h)
    case (Cons iid ids)
    have "cache_step (\<lambda>_. 1) h (putForExecution (\<lambda>_. 1) id 5 iid ''gen1'' sample_history h)"
      by (rule cache_step.intros(2)) simp
    with Cons show ?case by (simp add: sample_puts_def converse_rtranclp_into_rtranclp)
  qed (simp add: sample_puts_def)
  then have r: "(cache_step (\<lambda>_. 1))\<^sup>*\<^sup>* (newWorkflowHistoryCache sample_small) ?h" .
  moreover have "map fst (hc_entries ?h) = [''b'', ''c'']"
    by (simp add: sample_puts_def newWorkflowHistoryCache_def sample_small_def configured_def putForExecution_def
        evictToFit_def overBudget_def lruExcept_def removeEntry_def historyBytes_def sample_history_def
        maxCachedWorkflowHistories_def)
  ultimately show ?thesis using history_cache_bounds [OF r] by simp
qed

end
