(* ===== verification/Transport.thy ===== *)
theory Transport
  imports HistoryCache
begin

text \<open>
  The transport of work items between the executor and its workers: the attempts of
  \<open>backend/executor\_transport.go\<close>, the calls that make and complete them in
  \<open>backend/executor.go\<close>, and the waiters of \<open>backend/local/task.go\<close>.

  Every call runs on its own goroutine. The operations on one attempt, one map or one waiter are
  atomic, by a mutex, an atomic variable or the synchronised map; \<open>transport\_step\<close> interleaves
  them freely. An attempt, its context and its waiter live at one address, since every call to
  execute makes exactly one of each. The registries for workflows and for activities are one map
  over the two kinds of keys. Reconnections, the choice of a stream and the order in which maps are
  visited are left open: any stream may take an item, and any attempt may be stopped.
\<close>

section \<open>Keys and replies\<close>

definition GetActivityExecutionKey :: "string \<Rightarrow> int32 \<Rightarrow> string" where
  "GetActivityExecutionKey iid taskID = iid @ ''/'' @ string_of_int (sint taskID)"

datatype taskKey = WorkflowKey InstanceID | ActivityKey string

datatype reply = WorkflowReply WorkflowResponse | ActivityReply ActivityResponse

fun replyKey :: "reply \<Rightarrow> taskKey" where
  "replyKey (WorkflowReply res) = WorkflowKey (wfr_InstanceId res)"
| "replyKey (ActivityReply res) = ActivityKey (GetActivityExecutionKey (ar_InstanceId res) (ar_TaskId res))"

fun replyToken :: "reply \<Rightarrow> string" where
  "replyToken (WorkflowReply res) = wfr_CompletionToken res"
| "replyToken (ActivityReply res) = ar_CompletionToken res"

section \<open>Attempts (backend/executor\_transport.go)\<close>

text \<open>\<open>ta_cancelled\<close> is the state of the context that \<open>cancel\<close> cancels.\<close>

record transportAttempt =
  ta_key :: taskKey
  ta_token :: string
  ta_streamID :: "string option"
  ta_terminal :: bool
  ta_cancelled :: bool

definition attempt_stop :: "transportAttempt \<Rightarrow> transportAttempt" where
  "attempt_stop p = p\<lparr>ta_terminal := True, ta_cancelled := True\<rparr>"

definition stopForStream :: "string \<Rightarrow> transportAttempt \<Rightarrow> transportAttempt" where
  "stopForStream sid p = (if ta_streamID p = Some sid then attempt_stop p else p)"

definition claim :: "string \<Rightarrow> string \<Rightarrow> transportAttempt \<Rightarrow> bool \<times> transportAttempt" where
  "claim sid token p =
     (if ta_terminal p \<or> ta_token p \<noteq> token then (False, p) else (True, p\<lparr>ta_streamID := Some sid\<rparr>))"

text \<open>The checks of \<open>complete\<close>, made under the lock of the attempt.\<close>

definition completeCheck :: "string \<Rightarrow> bool \<Rightarrow> transportAttempt \<Rightarrow> error option" where
  "completeCheck token strict p =
     (if ta_terminal p \<or> ta_streamID p = None
      then Some (ErrorString ''attempt is no longer pending or has not been dispatched'')
      else if token = [] \<and> strict \<or> token \<noteq> [] \<and> token \<noteq> ta_token p
      then Some (ErrorString ''invalid completion token'')
      else None)"

section \<open>Waiters (backend/local/task.go)\<close>

text \<open>\<open>wt_closed\<close> is the state of the channel \<open>complete\<close>.\<close>

record waiter =
  wt_response :: "reply option"
  wt_closed :: bool

definition emptyWaiter :: waiter where
  "emptyWaiter = \<lparr>wt_response = None, wt_closed = False\<rparr>"

text \<open>What the selection in the waiter returns when the channel is closed.\<close>

definition waiterResult :: "waiter \<Rightarrow> error + reply" where
  "waiterResult w = (case wt_response w of None \<Rightarrow> Inl ErrTaskCancelled | Some r \<Rightarrow> Inr r)"

section \<open>The executor\<close>

text \<open>
  Where a call to execute stands: registered with the executor, registered with the backend too,
  item handed over, back from the waiter with a result, stopped, lock of the attempt acquired once,
  returned.
\<close>

datatype phase =
    PRegistered | PReady | PWaiting
  | PDone "error + reply" | PStopped "error + reply" | PUnlocked "error + reply" | PReturned "error + reply"

text \<open>Where a completion call stands: attempt loaded, checks passed, delivered, answered.\<close>

datatype handler =
    HNone | HLoaded nat reply | HDelivering nat reply | HDelivered nat reply | HAnswered nat reply "error option"

record hub =
  g_attempts :: "nat \<Rightarrow> transportAttempt"
  g_phase :: "nat \<Rightarrow> phase"
  g_next :: nat
  g_pending :: "taskKey \<rightharpoonup> nat"
  g_lock :: "nat \<Rightarrow> nat option"
  g_handlers :: "nat \<Rightarrow> handler"
  g_calls :: nat
  g_items :: "(taskKey \<times> string) list"
  g_shuttingDown :: bool
  g_requireCompletionTokens :: bool
  be_pending :: "taskKey \<rightharpoonup> nat"
  be_waiters :: "nat \<Rightarrow> waiter"

definition modify :: "nat \<Rightarrow> (transportAttempt \<Rightarrow> transportAttempt) \<Rightarrow> hub \<Rightarrow> hub" where
  "modify a f g = g\<lparr>g_attempts := (g_attempts g)(a := f (g_attempts g a))\<rparr>"

definition goto :: "nat \<Rightarrow> phase \<Rightarrow> hub \<Rightarrow> hub" where
  "goto a ph g = g\<lparr>g_phase := (g_phase g)(a := ph)\<rparr>"

definition handle :: "nat \<Rightarrow> handler \<Rightarrow> hub \<Rightarrow> hub" where
  "handle h st g = g\<lparr>g_handlers := (g_handlers g)(h := st)\<rparr>"

text \<open>\<open>registerAttempt\<close>, with the attempt that the call to execute makes.\<close>

definition registerAttempt :: "taskKey \<Rightarrow> string \<Rightarrow> hub \<Rightarrow> error + hub" where
  "registerAttempt key token g =
     (if g_shuttingDown g then Inl (ErrorString ''shutting down'')
      else (case g_pending g key of
              Some _ \<Rightarrow> Inl (ErrorString ''an execution attempt is already pending'')
            | None \<Rightarrow>
                let a = g_next g
                in Inr (g\<lparr>g_next := Suc a, g_pending := (g_pending g)(key \<mapsto> a),
                          g_attempts := (g_attempts g)(a := \<lparr>ta_key = key, ta_token = token, ta_streamID = None,
                            ta_terminal = False, ta_cancelled = False\<rparr>),
                          g_phase := (g_phase g)(a := PRegistered), g_lock := (g_lock g)(a := None),
                          be_waiters := (be_waiters g)(a := emptyWaiter)\<rparr>)))"

text \<open>\<open>RegisterWorkflowTaskCompletion\<close> and \<open>RegisterActivityCompletion\<close>.\<close>

definition registerCompletion :: "nat \<Rightarrow> hub \<Rightarrow> error + hub" where
  "registerCompletion a g =
     (case be_pending g (ta_key (g_attempts g a)) of
        Some _ \<Rightarrow> Inl ErrTaskAlreadyPending
      | None \<Rightarrow> Inr (g\<lparr>be_pending := (be_pending g)(ta_key (g_attempts g a) \<mapsto> a)\<rparr>))"

text \<open>\<open>deletePendingWorkflow\<close> and \<open>deletePendingActivityTask\<close>; \<open>Crash\<close> is a second close of the channel.\<close>

datatype 'a outcome = Fine 'a | Crash

definition deletePending :: "taskKey \<Rightarrow> reply option \<Rightarrow> hub \<Rightarrow> (bool \<times> hub) outcome" where
  "deletePending key res g =
     (case be_pending g key of
        None \<Rightarrow> Fine (False, g)
      | Some a \<Rightarrow>
          if wt_closed (be_waiters g a) then Crash
          else Fine (True, g\<lparr>be_pending := (be_pending g)(key := None),
                             be_waiters := (be_waiters g)(a := \<lparr>wt_response = res, wt_closed = True\<rparr>)\<rparr>))"

text \<open>The end of a waiter: \<open>CompareAndDelete\<close> removes its own registration only.\<close>

definition compareAndDelete :: "taskKey \<Rightarrow> nat \<Rightarrow> (taskKey \<rightharpoonup> nat) \<Rightarrow> (taskKey \<rightharpoonup> nat)" where
  "compareAndDelete key a m = (if m key = Some a then m(key := None) else m)"

definition leaveWaiter :: "nat \<Rightarrow> (error + reply) \<Rightarrow> hub \<Rightarrow> hub" where
  "leaveWaiter a r g =
     goto a (PDone r) (g\<lparr>be_pending := compareAndDelete (ta_key (g_attempts g a)) a (be_pending g)\<rparr>)"

text \<open>How execute turns the result of the waiter into its own.\<close>

definition executeError :: "error \<Rightarrow> error" where
  "executeError err = (if errors_Is err ErrTaskCancelled then ErrorString ''operation aborted'' else err)"

definition executeResult :: "error + reply \<Rightarrow> error + reply" where
  "executeResult r = (case r of Inl err \<Rightarrow> Inl (executeError err) | Inr res \<Rightarrow> Inr res)"

fun notDispatched :: "taskKey \<Rightarrow> error" where
  "notDispatched (WorkflowKey _) = Wrapped ''context canceled before dispatching workflow work item'' ErrContextCanceled"
| "notDispatched (ActivityKey _) = Wrapped ''context canceled before dispatching activity work item'' ErrContextCanceled"

text \<open>The errors of \<open>CompleteWorkflowTask\<close> and \<open>CompleteActivityTask\<close> of the backend without a waiter.\<close>

fun unknownTask :: "reply \<Rightarrow> error" where
  "unknownTask (WorkflowReply res) = UnknownInstanceIDError (wfr_InstanceId res)"
| "unknownTask (ActivityReply res) = UnknownTaskIDError (ar_InstanceId res) (ar_TaskId res)"

definition newHub :: "bool \<Rightarrow> hub" where
  "newHub strict =
     \<lparr>g_attempts = (\<lambda>_. \<lparr>ta_key = WorkflowKey [], ta_token = [], ta_streamID = None, ta_terminal = True, ta_cancelled = True\<rparr>),
      g_phase = (\<lambda>_. PReturned (Inl ErrNotStarted)), g_next = 0, g_pending = Map.empty, g_lock = (\<lambda>_. None),
      g_handlers = (\<lambda>_. HNone), g_calls = 0, g_items = [], g_shuttingDown = False,
      g_requireCompletionTokens = strict, be_pending = Map.empty, be_waiters = (\<lambda>_. emptyWaiter)\<rparr>"

section \<open>Activities over the transport\<close>

text \<open>The request that \<open>ExecuteActivity\<close> makes of a scheduled activity, and the event it makes of the reply.\<close>

definition activityRequest :: "InstanceID \<Rightarrow> HistoryEvent \<Rightarrow> TaskScheduledEvent \<Rightarrow> PropagatedHistory option \<Rightarrow> ActivityRequest" where
  "activityRequest iid e task ph =
     \<lparr>aq_Name = ts_Name task, aq_Version = ts_Version task, aq_Input = ts_Input task, aq_InstanceId = iid,
      aq_TaskId = he_EventId e, aq_ParentTraceContext = ts_ParentTraceContext task,
      aq_TaskExecutionId = ts_TaskExecutionId task, aq_PropagatedHistory = ph\<rparr>"

definition activityResponseEvent :: "int \<Rightarrow> HistoryEvent \<Rightarrow> TaskScheduledEvent \<Rightarrow> ActivityResponse \<Rightarrow> HistoryEvent" where
  "activityResponseEvent now e task resp =
     (case ar_FailureDetails resp of
        Some failureDetails \<Rightarrow>
          mkEvent (-1) now (TaskFailed \<lparr>tf_TaskScheduledId = ar_TaskId resp, tf_FailureDetails = Some failureDetails,
            tf_TaskExecutionId = ts_TaskExecutionId task\<rparr>) (he_Router e)
      | None \<Rightarrow>
          mkEvent (-1) now (TaskCompleted \<lparr>tcd_TaskScheduledId = ar_TaskId resp, tcd_Result = ar_Result resp,
            tcd_TaskExecutionId = ts_TaskExecutionId task\<rparr>) (he_Router e))"

section \<open>Steps\<close>

inductive transport_step :: "hub \<Rightarrow> hub \<Rightarrow> bool" where
  execute_registers: "transport_step g g'"
    if "registerAttempt key token g = Inr g'" and "token \<noteq> []" and "\<And>b. b < g_next g \<Longrightarrow> ta_token (g_attempts g b) \<noteq> token"
| execute_awaits: "transport_step g (goto a PReady g')"
    if "a < g_next g" and "g_phase g a = PRegistered" and "registerCompletion a g = Inr g'"
| execute_cannot_await: "transport_step g (goto a (PDone (Inl (Wrapped ''failed to register completion'' err))) g)"
    if "a < g_next g" and "g_phase g a = PRegistered" and "registerCompletion a g = Inl err"
| execute_hands_over:
    "transport_step g (goto a PWaiting (g\<lparr>g_items := (ta_key (g_attempts g a), ta_token (g_attempts g a)) # g_items g\<rparr>))"
    if "a < g_next g" and "g_phase g a = PReady"
| execute_not_dispatched:
    "transport_step g (leaveWaiter a (Inl (notDispatched (ta_key (g_attempts g a)))) g)"
    if "a < g_next g" and "g_phase g a = PReady" and "ta_cancelled (g_attempts g a)"
| execute_cancelled: "transport_step g (leaveWaiter a (executeResult (Inl ErrContextCanceled)) g)"
    if "a < g_next g" and "g_phase g a = PWaiting" and "ta_cancelled (g_attempts g a)"
| execute_completed: "transport_step g (leaveWaiter a (executeResult (waiterResult (be_waiters g a))) g)"
    if "a < g_next g" and "g_phase g a = PWaiting" and "wt_closed (be_waiters g a)"
| finish_stops: "transport_step g (goto a (PStopped r) (modify a attempt_stop g))"
    if "a < g_next g" and "g_phase g a = PDone r"
| finish_locks: "transport_step g (goto a (PUnlocked r) g)"
    if "a < g_next g" and "g_phase g a = PStopped r" and "g_lock g a = None"
| execute_returns:
    "transport_step g (goto a (PReturned r) (g\<lparr>g_pending := compareAndDelete (ta_key (g_attempts g a)) a (g_pending g)\<rparr>))"
    if "a < g_next g" and "g_phase g a = PUnlocked r"
| caller_cancels: "transport_step g (modify a (\<lambda>p. p\<lparr>ta_cancelled := True\<rparr>) g)"
    if "a < g_next g"
| stream_claims: "transport_step g (modify a (\<lambda>p. snd (claim sid token p)) (g\<lparr>g_items := remove1 (key, token) (g_items g)\<rparr>))"
    if "(key, token) \<in> set (g_items g)" and "g_pending g key = Some a" and "g_lock g a = None"
| stream_drops: "transport_step g (g\<lparr>g_items := remove1 (key, token) (g_items g)\<rparr>)"
    if "(key, token) \<in> set (g_items g)" and "g_pending g key = None"
| stream_closes: "transport_step g (modify a (stopForStream sid) g)"
    if "g_pending g key = Some a"
| shutdown_begins: "transport_step g (g\<lparr>g_shuttingDown := True\<rparr>)"
| shutdown_stops: "transport_step g (modify a attempt_stop g)"
    if "g_shuttingDown g" and "g_pending g key = Some a"
| backend_cancels: "transport_step g g'"
    if "deletePending key None g = Fine (True, g')"
| complete_loads: "transport_step g (handle (g_calls g) (HLoaded a res) (g\<lparr>g_calls := Suc (g_calls g)\<rparr>))"
    if "g_pending g (replyKey res) = Some a"
| complete_accepts: "transport_step g (handle h (HDelivering a res) (g\<lparr>g_lock := (g_lock g)(a \<mapsto> h)\<rparr>))"
    if "h < g_calls g" and "g_handlers g h = HLoaded a res" and "g_lock g a = None"
      and "completeCheck (replyToken res) (g_requireCompletionTokens g) (g_attempts g a) = None"
| complete_refuses: "transport_step g (handle h (HAnswered a res (Some err)) g)"
    if "h < g_calls g" and "g_handlers g h = HLoaded a res" and "g_lock g a = None"
      and "completeCheck (replyToken res) (g_requireCompletionTokens g) (g_attempts g a) = Some err"
| complete_delivers: "transport_step g (handle h (HDelivered a res) g')"
    if "h < g_calls g" and "g_handlers g h = HDelivering a res" and "deletePending (replyKey res) (Some res) g = Fine (True, g')"
| complete_misses:
    "transport_step g (handle h (HAnswered a res (Some (unknownTask res))) (g\<lparr>g_lock := (g_lock g)(a := None)\<rparr>))"
    if "h < g_calls g" and "g_handlers g h = HDelivering a res" and "deletePending (replyKey res) (Some res) g = Fine (False, g')"
| complete_answers:
    "transport_step g (handle h (HAnswered a res None)
       (modify a (\<lambda>p. p\<lparr>ta_terminal := True\<rparr>) (g\<lparr>g_lock := (g_lock g)(a := None)\<rparr>)))"
    if "h < g_calls g" and "g_handlers g h = HDelivered a res"

end
