(* ===== verification/TransportProps.thy ===== *)
theory TransportProps
  imports Transport ReplayRun
begin

text \<open>
  Correctness of the transport: an invariant of the registries, attempts, waiters and completion
  calls that every step keeps, and what follows from it for the calls that wait for a worker.
\<close>

section \<open>Keys\<close>

lemma GetActivityExecutionKey_inject:
  "GetActivityExecutionKey i t = GetActivityExecutionKey j u \<longleftrightarrow> i = j \<and> t = u"
proof
  assume eq: "GetActivityExecutionKey i t = GetActivityExecutionKey j u"
  have *: "xs @ CHR ''/'' # ys = us @ CHR ''/'' # vs \<Longrightarrow> CHR ''/'' \<notin> set ys \<Longrightarrow> CHR ''/'' \<notin> set vs \<Longrightarrow> xs = us \<and> ys = vs"
    for xs us ys vs :: string
    by (auto simp: append_eq_append_conv2 append_eq_Cons_conv Cons_eq_append_conv)
  from * [of i "string_of_int (sint t)" j "string_of_int (sint u)"] eq
  have "i = j" and "sint t = sint u"
    using slash_notin_string_of_int by (simp_all add: GetActivityExecutionKey_def)
  from this(2) have "(of_int (sint t) :: int32) = of_int (sint u)" by (rule arg_cong)
  with \<open>i = j\<close> show "i = j \<and> t = u" by simp
qed simp

section \<open>The invariant\<close>

fun live :: "phase \<Rightarrow> bool" where
  "live (PReturned _) = False"
| "live _ = True"

fun awaiting :: "phase \<Rightarrow> bool" where
  "awaiting PReady = True"
| "awaiting PWaiting = True"
| "awaiting _ = False"

fun halted :: "phase \<Rightarrow> bool" where
  "halted (PStopped _) = True"
| "halted (PUnlocked _) = True"
| "halted (PReturned _) = True"
| "halted _ = False"

fun unlocked :: "phase \<Rightarrow> bool" where
  "unlocked (PUnlocked _) = True"
| "unlocked (PReturned _) = True"
| "unlocked _ = False"

fun result :: "phase \<Rightarrow> (error + reply) option" where
  "result (PDone r) = Some r"
| "result (PStopped r) = Some r"
| "result (PUnlocked r) = Some r"
| "result (PReturned r) = Some r"
| "result _ = None"

text \<open>A reply that may complete an attempt: to its key, with its token or, unless tokens are required, none.\<close>

definition accepts :: "hub \<Rightarrow> nat \<Rightarrow> reply \<Rightarrow> bool" where
  "accepts g a res \<longleftrightarrow> replyKey res = ta_key (g_attempts g a) \<and> ta_streamID (g_attempts g a) \<noteq> None
     \<and> (replyToken res = ta_token (g_attempts g a) \<or> replyToken res = [] \<and> \<not> g_requireCompletionTokens g)"

definition handler_ok :: "hub \<Rightarrow> nat \<Rightarrow> bool" where
  "handler_ok g h =
     (case g_handlers g h of
        HNone \<Rightarrow> True
      | HLoaded a res \<Rightarrow> a < g_next g \<and> ta_key (g_attempts g a) = replyKey res
      | HDelivering a res \<Rightarrow> a < g_next g \<and> accepts g a res \<and> g_lock g a = Some h \<and> \<not> unlocked (g_phase g a)
      | HDelivered a res \<Rightarrow> a < g_next g \<and> wt_response (be_waiters g a) = Some res \<and> g_lock g a = Some h
      | HAnswered a res None \<Rightarrow> a < g_next g \<and> wt_response (be_waiters g a) = Some res
      | HAnswered a res (Some err) \<Rightarrow> True)"

definition attempt_ok :: "hub \<Rightarrow> nat \<Rightarrow> bool" where
  "attempt_ok g a \<longleftrightarrow>
     (live (g_phase g a) \<longrightarrow> g_pending g (ta_key (g_attempts g a)) = Some a) \<and>
     (halted (g_phase g a) \<longrightarrow> ta_terminal (g_attempts g a)) \<and>
     (g_phase g a = PRegistered \<longrightarrow> \<not> wt_closed (be_waiters g a)) \<and>
     (\<forall>res. wt_response (be_waiters g a) = Some res \<longrightarrow> wt_closed (be_waiters g a) \<and> accepts g a res) \<and>
     (\<forall>res. result (g_phase g a) = Some (Inr res) \<longrightarrow> wt_response (be_waiters g a) = Some res) \<and>
     ta_token (g_attempts g a) \<noteq> [] \<and>
     (\<forall>b<g_next g. ta_token (g_attempts g b) = ta_token (g_attempts g a) \<longrightarrow> b = a) \<and>
     (\<forall>h. g_lock g a = Some h \<longrightarrow> h < g_calls g \<and> (\<exists>res. g_handlers g h = HDelivering a res \<or> g_handlers g h = HDelivered a res))"

definition registries_ok :: "hub \<Rightarrow> bool" where
  "registries_ok g \<longleftrightarrow>
     (\<forall>key a. g_pending g key = Some a \<longrightarrow> a < g_next g \<and> ta_key (g_attempts g a) = key \<and> live (g_phase g a)) \<and>
     (\<forall>key a. be_pending g key = Some a \<longrightarrow> a < g_next g \<and> ta_key (g_attempts g a) = key
        \<and> \<not> wt_closed (be_waiters g a) \<and> awaiting (g_phase g a))"

definition hub_ok :: "hub \<Rightarrow> bool" where
  "hub_ok g \<longleftrightarrow> registries_ok g \<and> (\<forall>a<g_next g. attempt_ok g a) \<and> (\<forall>h<g_calls g. handler_ok g h)"

lemma goto_simps [simp]:
  "g_attempts (goto a ph g) = g_attempts g" "g_phase (goto a ph g) = (g_phase g)(a := ph)" "g_next (goto a ph g) = g_next g"
  "g_pending (goto a ph g) = g_pending g" "g_lock (goto a ph g) = g_lock g" "g_handlers (goto a ph g) = g_handlers g"
  "g_calls (goto a ph g) = g_calls g" "g_requireCompletionTokens (goto a ph g) = g_requireCompletionTokens g"
  "be_pending (goto a ph g) = be_pending g" "be_waiters (goto a ph g) = be_waiters g" "g_items (goto a ph g) = g_items g"
  by (simp_all add: goto_def)

lemma modify_simps [simp]:
  "g_attempts (modify a f g) = (g_attempts g)(a := f (g_attempts g a))" "g_phase (modify a f g) = g_phase g"
  "g_next (modify a f g) = g_next g" "g_pending (modify a f g) = g_pending g" "g_lock (modify a f g) = g_lock g"
  "g_handlers (modify a f g) = g_handlers g" "g_calls (modify a f g) = g_calls g"
  "g_requireCompletionTokens (modify a f g) = g_requireCompletionTokens g"
  "be_pending (modify a f g) = be_pending g" "be_waiters (modify a f g) = be_waiters g" "g_items (modify a f g) = g_items g"
  by (simp_all add: modify_def)

lemma handle_simps [simp]:
  "g_attempts (handle h st g) = g_attempts g" "g_phase (handle h st g) = g_phase g" "g_next (handle h st g) = g_next g"
  "g_pending (handle h st g) = g_pending g" "g_lock (handle h st g) = g_lock g" "g_handlers (handle h st g) = (g_handlers g)(h := st)"
  "g_calls (handle h st g) = g_calls g" "g_requireCompletionTokens (handle h st g) = g_requireCompletionTokens g"
  "be_pending (handle h st g) = be_pending g" "be_waiters (handle h st g) = be_waiters g" "g_items (handle h st g) = g_items g"
  by (simp_all add: handle_def)

lemma hub_okD:
  assumes "hub_ok g"
  shows "g_pending g key = Some a \<Longrightarrow> a < g_next g \<and> ta_key (g_attempts g a) = key \<and> live (g_phase g a)"
    and "be_pending g key = Some a \<Longrightarrow> a < g_next g \<and> ta_key (g_attempts g a) = key
        \<and> \<not> wt_closed (be_waiters g a) \<and> awaiting (g_phase g a)"
    and "a < g_next g \<Longrightarrow> attempt_ok g a" and "h < g_calls g \<Longrightarrow> handler_ok g h"
  using assms by (auto simp: hub_ok_def registries_ok_def)

text \<open>A change of one attempt that keeps what the invariant speaks about.\<close>

lemma modify_ok:
  assumes "hub_ok g" and "a < g_next g"
    and "ta_key (f (g_attempts g a)) = ta_key (g_attempts g a)" and "ta_token (f (g_attempts g a)) = ta_token (g_attempts g a)"
    and "ta_terminal (g_attempts g a) \<longrightarrow> ta_terminal (f (g_attempts g a))"
    and "ta_streamID (g_attempts g a) \<noteq> None \<longrightarrow> ta_streamID (f (g_attempts g a)) \<noteq> None"
  shows "hub_ok (modify a f g)"
proof -
  have k: "ta_key (g_attempts (modify a f g) b) = ta_key (g_attempts g b)"
    "ta_token (g_attempts (modify a f g) b) = ta_token (g_attempts g b)" for b
    using assms by simp_all
  have t: "ta_terminal (g_attempts g b) \<Longrightarrow> ta_terminal (g_attempts (modify a f g) b)" for b
    using assms by auto
  have acc: "accepts g b res \<Longrightarrow> accepts (modify a f g) b res" for b res
    using assms by (auto simp: accepts_def)
  have "registries_ok (modify a f g)"
    using assms(1) k unfolding hub_ok_def registries_ok_def by simp
  moreover have "attempt_ok (modify a f g) b" if "b < g_next g" for b
    using hub_okD(3) [OF assms(1) that] acc t k unfolding attempt_ok_def by (auto simp del: modify_simps(1))
  moreover have "handler_ok (modify a f g) h" if "h < g_calls g" for h
    using hub_okD(4) [OF assms(1) that] acc k unfolding handler_ok_def
    by (auto split: handler.splits option.splits simp del: modify_simps(1))
  ultimately show ?thesis by (simp add: hub_ok_def)
qed


text \<open>A call to execute that moves on while it stays in the registry.\<close>

lemma goto_ok:
  assumes "hub_ok g" and "a < g_next g" and "live ph" and "halted ph \<longrightarrow> ta_terminal (g_attempts g a)"
    and "\<And>res. result ph = Some (Inr res) \<Longrightarrow> wt_response (be_waiters g a) = Some res"
    and "\<And>key. be_pending g key = Some a \<Longrightarrow> awaiting ph" and "unlocked ph \<longrightarrow> g_lock g a = None"
    and "live (g_phase g a)" and "ph \<noteq> PRegistered"
  shows "hub_ok (goto a ph g)"
proof -
  have acc [simp]: "accepts (goto a ph g) b res = accepts g b res" for b res by (simp add: accepts_def)
  have "registries_ok (goto a ph g)"
    using assms unfolding hub_ok_def registries_ok_def by auto
  moreover have "attempt_ok (goto a ph g) b" if "b < g_next g" for b
    using hub_okD(3) [OF assms(1) that] assms(3-5,8,9) unfolding attempt_ok_def by auto
  moreover have "handler_ok (goto a ph g) h" if "h < g_calls g" for h
    using hub_okD(4) [OF assms(1) that] assms(7) unfolding handler_ok_def
    by (auto split: handler.splits option.splits)
  ultimately show ?thesis by (simp add: hub_ok_def)
qed

lemma handle_ok:
  assumes "hub_ok g" and "h < g_calls g" and "handler_ok (handle h st g) h"
    and "\<And>a. a < g_next g \<Longrightarrow> g_lock g a = Some h \<Longrightarrow> \<exists>res. st = HDelivering a res \<or> st = HDelivered a res"
  shows "hub_ok (handle h st g)"
proof -
  have acc [simp]: "accepts (handle h st g) b res = accepts g b res" for b res by (simp add: accepts_def)
  have "registries_ok (handle h st g)"
    using assms(1) unfolding hub_ok_def registries_ok_def by simp
  moreover have "attempt_ok (handle h st g) b" if "b < g_next g" for b
    using hub_okD(3) [OF assms(1) that] assms(4) [OF that] unfolding attempt_ok_def by auto
  moreover have "handler_ok (handle h st g) k" if "k < g_calls g" for k
  proof (cases "k = h")
    case True
    with assms(3) show ?thesis by simp
  next
    case False
    with hub_okD(4) [OF assms(1) that] show ?thesis unfolding handler_ok_def by (simp split: handler.splits option.splits)
  qed
  ultimately show ?thesis by (simp add: hub_ok_def)
qed

lemma be_pending_ok:
  assumes "hub_ok g"
    and "\<And>key a. m key = Some a \<Longrightarrow> a < g_next g \<and> ta_key (g_attempts g a) = key
      \<and> \<not> wt_closed (be_waiters g a) \<and> awaiting (g_phase g a)"
  shows "hub_ok (g\<lparr>be_pending := m\<rparr>)"
proof -
  have acc [simp]: "accepts (g\<lparr>be_pending := m\<rparr>) b res = accepts g b res" for b res by (simp add: accepts_def)
  have "attempt_ok (g\<lparr>be_pending := m\<rparr>) b = attempt_ok g b" for b by (simp add: attempt_ok_def)
  moreover have "handler_ok (g\<lparr>be_pending := m\<rparr>) h = handler_ok g h" for h
    by (simp add: handler_ok_def split: handler.splits option.splits)
  ultimately show ?thesis using assms by (simp add: hub_ok_def registries_ok_def)
qed

lemma leaveWaiter_ok:
  assumes "hub_ok g" and "a < g_next g" and "awaiting (g_phase g a)"
    and "\<And>res. r = Inr res \<Longrightarrow> wt_response (be_waiters g a) = Some res"
  shows "hub_ok (leaveWaiter a r g)"
proof -
  let ?g = "g\<lparr>be_pending := compareAndDelete (ta_key (g_attempts g a)) a (be_pending g)\<rparr>"
  have ok: "hub_ok ?g"
    by (rule be_pending_ok [OF assms(1)]) (auto simp: compareAndDelete_def dest: hub_okD(2) [OF assms(1)] split: if_splits)
  have gone: "be_pending ?g key \<noteq> Some a" for key
    using hub_okD(2) [OF assms(1), of key a] by (auto simp: compareAndDelete_def)
  have l: "live (g_phase ?g a)" using assms(3) by (cases "g_phase g a") auto
  show ?thesis
    unfolding leaveWaiter_def by (rule goto_ok [OF ok _ _ _ _ _ _ l]) (use assms(2,4) gone in auto)
qed

lemma registries_okI:
  assumes "\<And>key a. g_pending g key = Some a \<Longrightarrow> a < g_next g \<and> ta_key (g_attempts g a) = key \<and> live (g_phase g a)"
    and "\<And>key a. be_pending g key = Some a \<Longrightarrow> a < g_next g \<and> ta_key (g_attempts g a) = key
        \<and> \<not> wt_closed (be_waiters g a) \<and> awaiting (g_phase g a)"
  shows "registries_ok g"
  unfolding registries_ok_def using assms by blast

lemma register_ok:
  assumes "hub_ok g" and "registerAttempt key token g = Inr g'" and "token \<noteq> []"
    and "\<And>b. b < g_next g \<Longrightarrow> ta_token (g_attempts g b) \<noteq> token"
  shows "hub_ok g'"
proof -
  let ?n = "g_next g"
  from assms(2) have free: "g_pending g key = None" and g': "g' = g\<lparr>g_next := Suc ?n, g_pending := (g_pending g)(key \<mapsto> ?n),
      g_attempts := (g_attempts g)(?n := \<lparr>ta_key = key, ta_token = token, ta_streamID = None,
        ta_terminal = False, ta_cancelled = False\<rparr>),
      g_phase := (g_phase g)(?n := PRegistered), g_lock := (g_lock g)(?n := None),
      be_waiters := (be_waiters g)(?n := emptyWaiter)\<rparr>"
    by (auto simp: registerAttempt_def Let_def split: if_splits option.splits)
  have acc: "accepts g' b res = accepts g b res" if "b < ?n" for b res using that by (simp add: accepts_def g')
  have "registries_ok g'"
  proof (rule registries_okI)
    show "a < g_next g' \<and> ta_key (g_attempts g' a) = k \<and> live (g_phase g' a)" if "g_pending g' k = Some a" for k a
      using that hub_okD(1) [OF assms(1), of k a] by (auto simp: g' split: if_splits)
    show "a < g_next g' \<and> ta_key (g_attempts g' a) = k \<and> \<not> wt_closed (be_waiters g' a) \<and> awaiting (g_phase g' a)"
      if "be_pending g' k = Some a" for k a
      using that hub_okD(2) [OF assms(1), of k a] by (auto simp: g' split: if_splits)
  qed
  moreover have "attempt_ok g' b" if "b < g_next g'" for b
  proof (cases "b = ?n")
    case True
    with assms(3,4) show ?thesis by (auto simp: attempt_ok_def g' emptyWaiter_def less_Suc_eq)
  next
    case False
    with that have b: "b < ?n" by (simp add: g')
    have "ta_key (g_attempts g b) \<noteq> key" if "live (g_phase g b)"
      using hub_okD(3) [OF assms(1) b] that free by (auto simp: attempt_ok_def)
    with hub_okD(3) [OF assms(1) b] assms(4) [OF b] b acc [OF b] show ?thesis
      by (auto simp: attempt_ok_def g' less_Suc_eq)
  qed
  moreover have "handler_ok g' h" if "h < g_calls g'" for h
    using hub_okD(4) [OF assms(1), of h] that acc
    by (auto simp: handler_ok_def g' split: handler.splits option.splits)
  ultimately show ?thesis by (simp add: hub_ok_def)
qed

lemma returned_ok:
  assumes "hub_ok g" and "a < g_next g" and "g_phase g a = PUnlocked r"
  shows "hub_ok (goto a (PReturned r) (g\<lparr>g_pending := compareAndDelete (ta_key (g_attempts g a)) a (g_pending g)\<rparr>))"
    (is "hub_ok ?g")
proof -
  have acc: "accepts ?g b res = accepts g b res" for b res by (simp add: accepts_def)
  have mine: "g_pending g (ta_key (g_attempts g a)) = Some a"
    using hub_okD(3) [OF assms(1,2)] assms(3) by (simp add: attempt_ok_def)
  have "registries_ok ?g"
  proof (rule registries_okI)
    show "b < g_next ?g \<and> ta_key (g_attempts ?g b) = k \<and> live (g_phase ?g b)" if "g_pending ?g k = Some b" for k b
      using that hub_okD(1) [OF assms(1), of k b] mine by (auto simp: compareAndDelete_def split: if_splits)
    show "b < g_next ?g \<and> ta_key (g_attempts ?g b) = k \<and> \<not> wt_closed (be_waiters ?g b) \<and> awaiting (g_phase ?g b)"
      if "be_pending ?g k = Some b" for k b
      using that hub_okD(2) [OF assms(1), of k b] assms(3) by auto
  qed
  moreover have "attempt_ok ?g b" if "b < g_next g" for b
    using hub_okD(3) [OF assms(1) that] assms(3) mine acc
    by (cases "b = a") (auto simp: attempt_ok_def compareAndDelete_def)
  moreover have "handler_ok ?g h" if "h < g_calls g" for h
    using hub_okD(4) [OF assms(1) that] acc assms(3)
    by (auto simp: handler_ok_def split: handler.splits option.splits)
  ultimately show ?thesis by (simp add: hub_ok_def)
qed

text \<open>Resolving a waiter, by a reply that its attempt accepts or by a cancellation.\<close>

lemma delete_ok:
  assumes "hub_ok g" and "deletePending key res g = Fine (True, g')"
    and "\<And>a r. be_pending g key = Some a \<Longrightarrow> res = Some r \<Longrightarrow> accepts g a r"
  shows "hub_ok g'"
proof -
  from assms(2) obtain a where a: "be_pending g key = Some a" and g': "g' = g\<lparr>be_pending := (be_pending g)(key := None),
      be_waiters := (be_waiters g)(a := \<lparr>wt_response = res, wt_closed = True\<rparr>)\<rparr>"
    by (auto simp: deletePending_def split: option.splits if_splits)
  note aok = hub_okD(2) [OF assms(1) a]
  have acc: "accepts g' b r = accepts g b r" for b r by (simp add: accepts_def g')
  have none: "wt_response (be_waiters g a) = None"
    using hub_okD(3) [OF assms(1), of a] aok by (cases "wt_response (be_waiters g a)") (auto simp: attempt_ok_def)
  have "registries_ok g'"
  proof (rule registries_okI)
    show "b < g_next g' \<and> ta_key (g_attempts g' b) = k \<and> live (g_phase g' b)" if "g_pending g' k = Some b" for k b
      using that hub_okD(1) [OF assms(1), of k b] by (simp add: g')
    show "b < g_next g' \<and> ta_key (g_attempts g' b) = k \<and> \<not> wt_closed (be_waiters g' b) \<and> awaiting (g_phase g' b)"
      if "be_pending g' k = Some b" for k b
      using that hub_okD(2) [OF assms(1), of k b] aok by (auto simp: g' split: if_splits)
  qed
  moreover have "attempt_ok g' b" if "b < g_next g" for b
  proof (cases "b = a")
    case True
    have "result (g_phase g a) = None \<and> g_phase g a \<noteq> PRegistered" using aok by (cases "g_phase g a") auto
    with True hub_okD(3) [OF assms(1) that] acc assms(3) [OF a] show ?thesis by (auto simp: attempt_ok_def g')
  next
    case False
    with hub_okD(3) [OF assms(1) that] acc show ?thesis by (auto simp: attempt_ok_def g')
  qed
  moreover have "handler_ok g' h" if "h < g_calls g" for h
    using hub_okD(4) [OF assms(1) that] acc none
    by (auto simp: handler_ok_def g' split: handler.splits option.splits)
  ultimately show ?thesis by (simp add: hub_ok_def g')
qed

lemma lock_ok:
  assumes "hub_ok g" and "h < g_calls g" and "g_handlers g h = HLoaded a res" and "g_lock g a = None"
    and "accepts g a res" and "\<not> unlocked (g_phase g a)"
  shows "hub_ok (handle h (HDelivering a res) (g\<lparr>g_lock := (g_lock g)(a \<mapsto> h)\<rparr>))" (is "hub_ok ?g")
proof -
  have acc: "accepts ?g b r = accepts g b r" for b r by (simp add: accepts_def)
  have a: "a < g_next g" using hub_okD(4) [OF assms(1,2)] assms(3) by (simp add: handler_ok_def)
  have "registries_ok ?g"
    using assms(1) by (simp add: hub_ok_def registries_ok_def)
  moreover have "attempt_ok ?g b" if "b < g_next g" for b
    using hub_okD(3) [OF assms(1) that] assms(2,3) acc by (auto simp: attempt_ok_def)
  moreover have "handler_ok ?g k" if "k < g_calls g" for k
    using hub_okD(4) [OF assms(1) that] assms(4-6) acc a
    by (cases "k = h") (auto simp: handler_ok_def split: handler.splits option.splits)
  ultimately show ?thesis by (simp add: hub_ok_def)
qed

text \<open>A handler that gives up the lock it holds.\<close>

lemma unlock_ok:
  assumes "hub_ok g" and "h < g_calls g" and "g_lock g a = Some h"
    and "a < g_next g" and "err = None \<Longrightarrow> wt_response (be_waiters g a) = Some res"
  shows "hub_ok (handle h (HAnswered a res err) (g\<lparr>g_lock := (g_lock g)(a := None)\<rparr>))" (is "hub_ok ?g")
proof -
  have acc: "accepts ?g b r = accepts g b r" for b r by (simp add: accepts_def)
  have "registries_ok ?g"
    using assms(1) by (simp add: hub_ok_def registries_ok_def)
  moreover have "attempt_ok ?g b" if "b < g_next g" for b
  proof -
    have "g_lock g b \<noteq> Some h" if "b \<noteq> a"
      using hub_okD(3) [OF assms(1) \<open>b < g_next g\<close>] hub_okD(3) [OF assms(1,4)] assms(3) that
      unfolding attempt_ok_def by (metis handler.inject(2,3) handler.distinct)
    then show ?thesis using hub_okD(3) [OF assms(1) that] acc by (auto simp: attempt_ok_def)
  qed
  moreover have "handler_ok ?g k" if "k < g_calls g" for k
    using hub_okD(4) [OF assms(1) that] assms(3-5) acc
    by (cases "k = h") (auto simp: handler_ok_def split: handler.splits option.splits)
  ultimately show ?thesis by (simp add: hub_ok_def)
qed

lemma accepts_if_checked:
  "completeCheck (replyToken res) (g_requireCompletionTokens g) (g_attempts g a) = None \<Longrightarrow>
     ta_key (g_attempts g a) = replyKey res \<Longrightarrow> accepts g a res \<and> \<not> ta_terminal (g_attempts g a)"
  by (auto simp: completeCheck_def accepts_def split: if_splits)

text \<open>A reply in delivery goes to the waiter of the attempt it was checked against, if to any.\<close>

lemma delivery_target:
  assumes "hub_ok g" and "h < g_calls g" and "g_handlers g h = HDelivering a res" and "be_pending g (replyKey res) = Some b"
  shows "b = a"
proof -
  from hub_okD(4) [OF assms(1,2)] assms(3) have a: "a < g_next g" "accepts g a res" "\<not> unlocked (g_phase g a)"
    by (auto simp: handler_ok_def)
  have key: "ta_key (g_attempts g a) = replyKey res" using a(2) by (simp add: accepts_def)
  have "live (g_phase g a)" using a(3) by (cases "g_phase g a") auto
  then have pa: "g_pending g (replyKey res) = Some a"
    using hub_okD(3) [OF assms(1) a(1)] key unfolding attempt_ok_def by metis
  from hub_okD(2) [OF assms(1,4)] have b: "b < g_next g" "ta_key (g_attempts g b) = replyKey res" "awaiting (g_phase g b)"
    by auto
  have "live (g_phase g b)" using b(3) by (cases "g_phase g b") auto
  then have "g_pending g (replyKey res) = Some b"
    using hub_okD(3) [OF assms(1) b(1)] b(2) unfolding attempt_ok_def by metis
  with pa show ?thesis by simp
qed

lemma items_ok: "hub_ok g \<Longrightarrow> hub_ok (g\<lparr>g_items := xs\<rparr>)"
proof -
  assume ok: "hub_ok g"
  have acc: "accepts (g\<lparr>g_items := xs\<rparr>) b r = accepts g b r" for b r by (simp add: accepts_def)
  have "attempt_ok (g\<lparr>g_items := xs\<rparr>) b = attempt_ok g b" "handler_ok (g\<lparr>g_items := xs\<rparr>) b = handler_ok g b" for b
    by (simp_all add: attempt_ok_def handler_ok_def acc split: handler.splits option.splits)
  with ok show "hub_ok (g\<lparr>g_items := xs\<rparr>)" by (simp add: hub_ok_def registries_ok_def)
qed

lemma shutting_ok: "hub_ok g \<Longrightarrow> hub_ok (g\<lparr>g_shuttingDown := s\<rparr>)"
proof -
  assume ok: "hub_ok g"
  have acc: "accepts (g\<lparr>g_shuttingDown := s\<rparr>) b r = accepts g b r" for b r by (simp add: accepts_def)
  have "attempt_ok (g\<lparr>g_shuttingDown := s\<rparr>) b = attempt_ok g b" "handler_ok (g\<lparr>g_shuttingDown := s\<rparr>) b = handler_ok g b" for b
    by (simp_all add: attempt_ok_def handler_ok_def acc split: handler.splits option.splits)
  with ok show "hub_ok (g\<lparr>g_shuttingDown := s\<rparr>)" by (simp add: hub_ok_def registries_ok_def)
qed

lemma load_ok:
  assumes "hub_ok g" and "g_pending g (replyKey res) = Some a"
  shows "hub_ok (handle (g_calls g) (HLoaded a res) (g\<lparr>g_calls := Suc (g_calls g)\<rparr>))" (is "hub_ok ?g")
proof -
  have acc: "accepts ?g b r = accepts g b r" for b r by (simp add: accepts_def)
  have "registries_ok ?g" using assms(1) by (simp add: hub_ok_def registries_ok_def)
  moreover have "attempt_ok ?g b" if "b < g_next g" for b
    using hub_okD(3) [OF assms(1) that] acc by (auto simp: attempt_ok_def)
  moreover have "handler_ok ?g k" if "k < Suc (g_calls g)" for k
  proof (cases "k = g_calls g")
    case True
    with hub_okD(1) [OF assms] show ?thesis by (simp add: handler_ok_def)
  next
    case False
    with hub_okD(4) [OF assms(1), of k] that acc show ?thesis
      by (simp add: handler_ok_def split: handler.splits option.splits)
  qed
  ultimately show ?thesis by (simp add: hub_ok_def)
qed

lemma modify_handle: "modify a f (handle h st g) = handle h st (modify a f g)"
  by (cases g) (simp add: modify_def handle_def)

lemma transport_step_ok: "transport_step g g' \<Longrightarrow> hub_ok g \<Longrightarrow> hub_ok g'"
proof (induction rule: transport_step.induct)
  case (execute_registers key token g g')
  then show ?case using register_ok by blast
next
  case (execute_awaits a g g')
  let ?m = "(be_pending g)(ta_key (g_attempts g a) \<mapsto> a)"
  from execute_awaits(3) have g': "goto a PReady g' = (goto a PReady g)\<lparr>be_pending := ?m\<rparr>"
    by (auto simp: registerCompletion_def goto_def split: option.splits)
  have "\<not> wt_closed (be_waiters g a)"
    using hub_okD(3) [OF execute_awaits(4,1)] execute_awaits(2) by (simp add: attempt_ok_def)
  moreover have "hub_ok (goto a PReady g)"
    using execute_awaits by (intro goto_ok) (auto dest: hub_okD(2))
  ultimately show ?case
    unfolding g' using execute_awaits(1,4)
    by (intro be_pending_ok) (auto dest: hub_okD(2) split: if_splits)
next
  case (execute_cannot_await a g err)
  then show ?case
    by (intro goto_ok) (auto dest: hub_okD(2))
next
  case (execute_hands_over a g)
  then show ?case
    by (intro goto_ok items_ok) auto
next
  case (execute_not_dispatched a g)
  then show ?case by (intro leaveWaiter_ok) auto
next
  case (execute_cancelled a g)
  then show ?case by (intro leaveWaiter_ok) (auto simp: executeResult_def)
next
  case (execute_completed a g)
  then show ?case
    by (intro leaveWaiter_ok) (auto simp: executeResult_def waiterResult_def split: option.splits)
next
  case (finish_stops a g r)
  have "hub_ok (modify a attempt_stop g)"
    using finish_stops by (intro modify_ok) (auto simp: attempt_stop_def)
  moreover have "result (g_phase g a) = Some r" using finish_stops by simp
  moreover have "be_pending g key \<noteq> Some a" for key using hub_okD(2) [OF finish_stops(3), of key a] finish_stops by auto
  ultimately show ?case
    using finish_stops hub_okD(3) [OF finish_stops(3,1)]
    by (intro goto_ok) (auto simp: attempt_stop_def attempt_ok_def)
next
  case (finish_locks a g r)
  have "be_pending g key \<noteq> Some a" for key using hub_okD(2) [OF finish_locks(4), of key a] finish_locks by auto
  then show ?case
    using finish_locks hub_okD(3) [OF finish_locks(4,1)]
    by (intro goto_ok) (auto simp: attempt_ok_def)
next
  case (execute_returns a g r)
  then show ?case by (intro returned_ok)
next
  case (caller_cancels a g)
  then show ?case by (intro modify_ok) auto
next
  case (stream_claims key token g a sid)
  then have "a < g_next g" using hub_okD(1) by blast
  with stream_claims show ?case by (intro modify_ok items_ok) (auto simp: claim_def)
next
  case (stream_drops key token g)
  then show ?case by (intro items_ok)
next
  case (stream_closes g key a sid)
  then have "a < g_next g" using hub_okD(1) by blast
  with stream_closes show ?case by (intro modify_ok) (auto simp: stopForStream_def attempt_stop_def)
next
  case (shutdown_begins g)
  then show ?case by (rule shutting_ok)
next
  case (shutdown_stops g key a)
  then have "a < g_next g" using hub_okD(1) by blast
  with shutdown_stops show ?case by (intro modify_ok) (auto simp: attempt_stop_def)
next
  case (backend_cancels key g g')
  then show ?case using delete_ok [of g key None g'] by simp
next
  case (complete_loads g res a)
  then show ?case by (intro load_ok)
next
  case (complete_accepts h g a res)
  have a: "a < g_next g" "ta_key (g_attempts g a) = replyKey res"
    using hub_okD(4) [OF complete_accepts(5,1)] complete_accepts(2) by (auto simp: handler_ok_def)
  have acc: "accepts g a res \<and> \<not> ta_terminal (g_attempts g a)"
    using accepts_if_checked complete_accepts(4) a(2) by blast
  then have "\<not> unlocked (g_phase g a)"
    using hub_okD(3) [OF complete_accepts(5) a(1)] by (cases "g_phase g a") (auto simp: attempt_ok_def)
  with acc complete_accepts show ?case by (intro lock_ok) auto
next
  case (complete_refuses h g a res err)
  have "g_lock g b \<noteq> Some h" if "b < g_next g" for b
    using hub_okD(3) [OF complete_refuses(5) that] complete_refuses(2) by (auto simp: attempt_ok_def)
  with complete_refuses show ?case by (intro handle_ok) (auto simp: handler_ok_def)
next
  case (complete_delivers h g a res g')
  from complete_delivers(3) obtain b where b: "be_pending g (replyKey res) = Some b"
      and g': "g' = g\<lparr>be_pending := (be_pending g)(replyKey res := None),
        be_waiters := (be_waiters g)(b := \<lparr>wt_response = Some res, wt_closed = True\<rparr>)\<rparr>"
    by (auto simp: deletePending_def split: option.splits if_splits)
  have "b = a" using delivery_target [OF complete_delivers(4,1,2) b] .
  have a: "a < g_next g" "accepts g a res" "g_lock g a = Some h"
    using hub_okD(4) [OF complete_delivers(4,1)] complete_delivers(2) by (auto simp: handler_ok_def)
  have "hub_ok g'"
    by (rule delete_ok [OF complete_delivers(4,3)]) (use a b \<open>b = a\<close> in auto)
  moreover have "c = a" if "c < g_next g'" "g_lock g' c = Some h" for c
    using hub_okD(3) [OF complete_delivers(4), of c] that complete_delivers(2) by (auto simp: attempt_ok_def g')
  moreover have "handler_ok (handle h (HDelivered a res) g') h"
    using a \<open>b = a\<close> by (simp add: handler_ok_def g')
  ultimately show ?case
    using complete_delivers(1) by (intro handle_ok) (auto simp: g')
next
  case (complete_misses h g a res g')
  then have "g_lock g a = Some h" "a < g_next g"
    using hub_okD(4) [OF complete_misses(4,1)] by (auto simp: handler_ok_def)
  with complete_misses show ?case by (intro unlock_ok) auto
next
  case (complete_answers h g a res)
  then have l: "g_lock g a = Some h" "a < g_next g" "wt_response (be_waiters g a) = Some res"
    using hub_okD(4) [OF complete_answers(3,1)] by (auto simp: handler_ok_def)
  have "hub_ok (handle h (HAnswered a res None) (g\<lparr>g_lock := (g_lock g)(a := None)\<rparr>))"
    using complete_answers l by (intro unlock_ok) auto
  then have "hub_ok (modify a (\<lambda>p. p\<lparr>ta_terminal := True\<rparr>) (handle h (HAnswered a res None) (g\<lparr>g_lock := (g_lock g)(a := None)\<rparr>)))"
    using l by (intro modify_ok) auto
  then show ?case by (simp add: modify_handle)
qed


lemma reachable_hub_ok: "transport_step\<^sup>*\<^sup>* (newHub strict) g \<Longrightarrow> hub_ok g"
proof (induction rule: rtranclp_induct)
  case base
  then show ?case by (simp add: hub_ok_def registries_ok_def newHub_def)
next
  case (step g g')
  then show ?case using transport_step_ok by blast
qed

lemma reachable_strict: "transport_step\<^sup>*\<^sup>* (newHub strict) g \<Longrightarrow> g_requireCompletionTokens g = strict"
proof (induction rule: rtranclp_induct)
  case base
  then show ?case by (simp add: newHub_def)
next
  case (step g g')
  from step(2,3) show ?case
    by (induction rule: transport_step.induct)
      (auto simp: registerAttempt_def registerCompletion_def leaveWaiter_def deletePending_def Let_def
        split: if_splits option.splits)
qed


section \<open>Cancelled calls return\<close>

definition returns :: "nat \<Rightarrow> hub \<Rightarrow> bool" where
  "returns a g \<longleftrightarrow> (\<exists>g' r. transport_step\<^sup>*\<^sup>* g g' \<and> g_phase g' a = PReturned r)"

lemma returns_step: "transport_step g g' \<Longrightarrow> returns a g' \<Longrightarrow> returns a g"
  unfolding returns_def by (meson converse_rtranclp_into_rtranclp)

lemma returns_unlocked:
  assumes "a < g_next g" and "g_phase g a = PUnlocked r"
  shows "returns a g"
  by (rule returns_step [OF execute_returns [OF assms]]) (auto simp: returns_def)

lemma returns_free:
  assumes "a < g_next g" and "g_phase g a = PStopped r" and "g_lock g a = None"
  shows "returns a g"
  by (rule returns_step [OF finish_locks [OF assms]], rule returns_unlocked) (use assms in auto)

lemma returns_delivered:
  assumes "a < g_next g" and "g_phase g a = PStopped r" and "h < g_calls g" and "g_handlers g h = HDelivered a res"
  shows "returns a g"
  by (rule returns_step [OF complete_answers [OF assms(3,4)]], rule returns_free) (use assms in auto)

text \<open>A completion that holds the lock of the attempt always gives it up again.\<close>

lemma returns_stopped:
  assumes "hub_ok g" and "a < g_next g" and "g_phase g a = PStopped r"
  shows "returns a g"
proof (cases "g_lock g a")
  case None
  with assms(2,3) show ?thesis by (rule returns_free)
next
  case (Some h)
  with hub_okD(3) [OF assms(1,2)] obtain res where h: "h < g_calls g"
      and st: "g_handlers g h = HDelivering a res \<or> g_handlers g h = HDelivered a res"
    by (auto simp: attempt_ok_def)
  show ?thesis
  proof (cases "g_handlers g h = HDelivered a res")
    case True
    with assms h show ?thesis by (intro returns_delivered)
  next
    case False
    with st have d: "g_handlers g h = HDelivering a res" by simp
    consider g' where "deletePending (replyKey res) (Some res) g = Fine (True, g')"
      | g' where "deletePending (replyKey res) (Some res) g = Fine (False, g')"
      using hub_okD(2) [OF assms(1), of "replyKey res"] unfolding deletePending_def
      by (cases "be_pending g (replyKey res)") auto
    then show ?thesis
    proof cases
      case 1
      then have same: "g_next g' = g_next g" "g_phase g' = g_phase g" "g_calls g' = g_calls g"
        by (auto simp: deletePending_def split: option.splits if_splits)
      show ?thesis
        by (rule returns_step [OF complete_delivers [OF h d 1]], rule returns_delivered) (use assms h same in auto)
    next
      case 2
      show ?thesis
        by (rule returns_step [OF complete_misses [OF h d 2]], rule returns_free) (use assms in auto)
    qed
  qed
qed

lemma returns_done:
  assumes "hub_ok g" and "a < g_next g" and "g_phase g a = PDone r"
  shows "returns a g"
proof (rule returns_step [OF finish_stops [OF assms(2,3)]], rule returns_stopped)
  show "hub_ok (goto a (PStopped r) (modify a attempt_stop g))"
    using transport_step_ok [OF finish_stops [OF assms(2,3)] assms(1)] .
qed (use assms in auto)

lemma returns_leave:
  assumes "transport_step g (leaveWaiter a r g)" and "hub_ok g" and "a < g_next g"
  shows "returns a g"
proof (rule returns_step [OF assms(1)], rule returns_done)
  show "hub_ok (leaveWaiter a r g)" using transport_step_ok [OF assms(1,2)] .
qed (use assms in \<open>auto simp: leaveWaiter_def\<close>)

lemma returns_ready:
  assumes "hub_ok g" and "a < g_next g" and "awaiting (g_phase g a)" and "ta_cancelled (g_attempts g a)"
  shows "returns a g"
proof (cases "g_phase g a = PReady")
  case True
  show ?thesis by (rule returns_leave [OF execute_not_dispatched]) (use True assms in auto)
next
  case False
  with assms(3) have "g_phase g a = PWaiting" by (cases "g_phase g a") auto
  then show ?thesis by (intro returns_leave [OF execute_cancelled]) (use assms in auto)
qed

lemma returns_registered:
  assumes "hub_ok g" and "a < g_next g" and "g_phase g a = PRegistered" and "ta_cancelled (g_attempts g a)"
  shows "returns a g"
proof (cases "registerCompletion a g")
  case (Inl err)
  note st = execute_cannot_await [OF assms(2,3) Inl]
  show ?thesis
    by (rule returns_step [OF st], rule returns_done [OF transport_step_ok [OF st assms(1)]]) (use assms in auto)
next
  case (Inr g')
  note st = execute_awaits [OF assms(2,3) Inr]
  have same: "g_next g' = g_next g" "g_attempts g' = g_attempts g"
    using Inr by (auto simp: registerCompletion_def split: option.splits)
  show ?thesis
    by (rule returns_step [OF st], rule returns_ready [OF transport_step_ok [OF st assms(1)]]) (use assms same in auto)
qed


section \<open>A concrete call\<close>

definition sample_reply :: reply where
  "sample_reply = WorkflowReply \<lparr>wfr_InstanceId = ''i'', wfr_Actions = [], wfr_CustomStatus = None,
     wfr_CompletionToken = ''t'', wfr_Version = None\<rparr>"

text \<open>A call whose item was handed to a worker, the same call cancelled, and the same call completed.\<close>

definition sample_called :: hub where
  "sample_called = (newHub True)
     \<lparr>g_attempts := (g_attempts (newHub True))(0 := \<lparr>ta_key = WorkflowKey ''i'', ta_token = ''t'', ta_streamID = Some ''s'',
        ta_terminal = False, ta_cancelled = False\<rparr>),
      g_phase := (g_phase (newHub True))(0 := PWaiting), g_next := 1, g_pending := [WorkflowKey ''i'' \<mapsto> 0],
      be_pending := [WorkflowKey ''i'' \<mapsto> 0]\<rparr>"

definition sample_cancelled :: hub where
  "sample_cancelled = modify 0 (\<lambda>p. p\<lparr>ta_cancelled := True\<rparr>) sample_called"

definition sample_completed :: hub where
  "sample_completed = sample_called
     \<lparr>g_phase := (g_phase (newHub True))(0 := PDone (Inr sample_reply)), g_lock := (\<lambda>_. None)(0 \<mapsto> 0), g_calls := 1,
      g_handlers := (\<lambda>_. HNone)(0 := HDelivered 0 sample_reply), be_pending := Map.empty,
      be_waiters := (\<lambda>_. emptyWaiter)(0 := \<lparr>wt_response = Some sample_reply, wt_closed = True\<rparr>)\<rparr>"

lemmas sample_hub_defs = sample_called_def newHub_def registerAttempt_def registerCompletion_def emptyWaiter_def
  goto_def modify_def handle_def claim_def

lemma sample_called_reachable: "transport_step\<^sup>*\<^sup>* (newHub True) sample_called"
proof -
  define g1 where "g1 = projr (registerAttempt (WorkflowKey ''i'') ''t'' (newHub True))"
  define g2 where "g2 = goto 0 PReady (projr (registerCompletion 0 g1))"
  define g3 where "g3 = goto 0 PWaiting (g2\<lparr>g_items := (ta_key (g_attempts g2 0), ta_token (g_attempts g2 0)) # g_items g2\<rparr>)"
  have s1: "transport_step (newHub True) g1"
    by (rule execute_registers [of "WorkflowKey ''i''" "''t''"]) (simp_all add: g1_def sample_hub_defs Let_def)
  have s2: "transport_step g1 g2"
    unfolding g2_def by (rule execute_awaits) (simp_all add: g1_def sample_hub_defs Let_def)
  have s3: "transport_step g2 g3"
    unfolding g3_def by (rule execute_hands_over) (simp_all add: g2_def g1_def sample_hub_defs Let_def)
  have "transport_step g3 (modify 0 (\<lambda>p. snd (claim ''s'' ''t'' p)) (g3\<lparr>g_items := remove1 (WorkflowKey ''i'', ''t'') (g_items g3)\<rparr>))"
    by (rule stream_claims) (simp_all add: g3_def g2_def g1_def sample_hub_defs Let_def)
  moreover have "modify 0 (\<lambda>p. snd (claim ''s'' ''t'' p)) (g3\<lparr>g_items := remove1 (WorkflowKey ''i'', ''t'') (g_items g3)\<rparr>) = sample_called"
    by (simp add: g3_def g2_def g1_def sample_hub_defs Let_def fun_eq_iff)
  ultimately have s4: "transport_step g3 sample_called" by simp
  from s1 s2 s3 s4 show ?thesis by (meson rtranclp.rtrancl_into_rtrancl rtranclp.rtrancl_refl)
qed

lemma sample_completed_reachable: "transport_step\<^sup>*\<^sup>* (newHub True) sample_completed"
proof -
  define g5 where "g5 = handle (g_calls sample_called) (HLoaded 0 sample_reply) (sample_called\<lparr>g_calls := Suc (g_calls sample_called)\<rparr>)"
  define g6 where "g6 = handle 0 (HDelivering 0 sample_reply) (g5\<lparr>g_lock := (g_lock g5)(0 \<mapsto> 0)\<rparr>)"
  define g6' where "g6' = g6\<lparr>be_pending := (be_pending g6)(WorkflowKey ''i'' := None),
    be_waiters := (be_waiters g6)(0 := \<lparr>wt_response = Some sample_reply, wt_closed = True\<rparr>)\<rparr>"
  define g7 where "g7 = handle 0 (HDelivered 0 sample_reply) g6'"
  have s5: "transport_step sample_called g5"
    unfolding g5_def by (rule complete_loads) (simp add: sample_hub_defs sample_reply_def)
  have s6: "transport_step g5 g6"
    unfolding g6_def by (rule complete_accepts) (simp_all add: g5_def sample_hub_defs sample_reply_def completeCheck_def)
  have "deletePending (replyKey sample_reply) (Some sample_reply) g6 = Fine (True, g6')"
    by (simp add: deletePending_def g6'_def g6_def g5_def sample_hub_defs sample_reply_def)
  then have s7: "transport_step g6 g7"
    unfolding g7_def by (intro complete_delivers) (simp_all add: g6_def g5_def sample_hub_defs)
  have "transport_step g7 (leaveWaiter 0 (executeResult (waiterResult (be_waiters g7 0))) g7)"
    by (rule execute_completed) (simp_all add: g7_def g6'_def g6_def g5_def sample_hub_defs)
  moreover have "leaveWaiter 0 (executeResult (waiterResult (be_waiters g7 0))) g7 = sample_completed"
    by (simp add: g7_def g6'_def g6_def g5_def sample_hub_defs leaveWaiter_def compareAndDelete_def waiterResult_def
        executeResult_def sample_completed_def fun_eq_iff)
  ultimately have s8: "transport_step g7 sample_completed" by simp
  from sample_called_reachable s5 s6 s7 s8 show ?thesis by (meson rtranclp.rtrancl_into_rtrancl)
qed



section \<open>Activities\<close>

text \<open>
  An activity that a worker ran over the transport yields the event that running it in process
  yields, apart from the time stamp and the router.
\<close>

lemma remote_activity_same_result:
  assumes "GetTaskScheduled e = Some task" and "ExecuteActivity en now reg e ph = Inr r"
  shows "he_EventType (activityResponseEvent now' e task
      (processActivityWorkItem L (\<lambda>iid ev p. ExecuteActivity en now reg ev p) now'' token (activityRequest iid e task ph)))
    = he_EventType r"
  using assms
  by (auto simp: ExecuteActivity_def processActivityWorkItem_def activityRequest_def activityResponseEvent_def
      GetTaskScheduled_def GetTaskCompleted_def GetTaskFailed_def taskFailedEvent_def newTaskActivityContext_def mkEvent_def Let_def
      split: option.splits sum.splits activityOutcome.splits)

end
