(* ===== verification/Worker.thy ===== *)
theory Worker
  imports Processor "HOL-Library.Multiset"
begin

text \<open>
  The workers that poll a backend (\<open>backend/worker.go\<close>), the processor of activities
  (\<open>backend/activity.go\<close>) and the life cycle of the hub around them (\<open>backend/taskhub.go\<close>).

  The goroutines of a worker are the polling loop, one per work item and the one that waits for the
  drain. \<open>worker\_step\<close> interleaves their atomic steps. What the processor answers is left open, as
  are the lengths of the pauses; the items that were settled are kept in a log. Logging and tracing
  are left out.
\<close>

section \<open>Limits and delays\<close>

definition minDefaultMaxParallelism :: int32 where
  "minDefaultMaxParallelism = 16"

definition maxDefaultMaxParallelism :: int32 where
  "maxDefaultMaxParallelism = 64"

text \<open>\<open>gomaxprocs\<close> is the answer of the run-time; the product is truncated to 32 bits.\<close>

definition DefaultMaxParallelism :: "int \<Rightarrow> int32" where
  "DefaultMaxParallelism gomaxprocs =
     (let maxParallelism = word_of_int (4 * gomaxprocs)
      in if sint maxParallelism < sint minDefaultMaxParallelism then minDefaultMaxParallelism
         else if sint maxParallelism > sint maxDefaultMaxParallelism then maxDefaultMaxParallelism
         else maxParallelism)"

type_synonym WorkerOptions = "int32 option"

definition NewWorkerOptions :: "int \<Rightarrow> WorkerOptions" where
  "NewWorkerOptions gomaxprocs = Some (DefaultMaxParallelism gomaxprocs)"

definition WithMaxParallelism :: "int32 \<Rightarrow> WorkerOptions \<Rightarrow> WorkerOptions" where
  "WithMaxParallelism n opts = Some n"

text \<open>The capacity of the new worker; \<open>None\<close> is the panic on a limit that is not positive.\<close>

definition NewTaskWorker :: "int \<Rightarrow> (WorkerOptions \<Rightarrow> WorkerOptions) list \<Rightarrow> nat option" where
  "NewTaskWorker gomaxprocs opts =
     (case foldl (\<lambda>acc configure. configure acc) (NewWorkerOptions gomaxprocs) opts of
        None \<Rightarrow> None
      | Some n \<Rightarrow> if sint n \<le> 0 then None else Some (nat (sint n)))"

definition millisecond :: int where
  "millisecond = 1000000"

definition workerRetryInitialDelay :: int where
  "workerRetryInitialDelay = 100 * millisecond"

definition workerRetryMaxDelay :: int where
  "workerRetryMaxDelay = 5 * second"

text \<open>The loop that doubles the delay, at most \<open>attempt\<close> times.\<close>

fun doubledDelay :: "nat \<Rightarrow> int \<Rightarrow> int" where
  "doubledDelay 0 delay = delay"
| "doubledDelay (Suc n) delay =
     (if delay < workerRetryMaxDelay
      then doubledDelay n (if delay * 2 > workerRetryMaxDelay then workerRetryMaxDelay else delay * 2)
      else delay)"

text \<open>\<open>jitter\<close> is the random part, a fraction of half of the delay.\<close>

definition retryDelay :: "(int \<Rightarrow> int) \<Rightarrow> nat \<Rightarrow> int" where
  "retryDelay jitter attempt =
     (let delay = doubledDelay attempt workerRetryInitialDelay in delay div 2 + jitter (delay div 2))"

section \<open>The worker\<close>

text \<open>Where the polling loop stands: not started, about to take a slot, asking for an item, pausing, ended.\<close>

datatype polling = NotPolling | Acquiring | Asking | Pausing | Ended

datatype settlement = Completed | Abandoned "error option"

record 'i worker =
  wk_polling :: polling
  wk_running :: bool
  wk_cancelled :: bool
  wk_slots :: nat
  wk_retryAttempt :: nat
  wk_active :: "'i list"
  wk_taken :: "'i list"
  wk_settled :: "('i \<times> settlement) list"

definition newWorker :: "'i worker" where
  "newWorker = \<lparr>wk_polling = NotPolling, wk_running = False, wk_cancelled = False, wk_slots = 0, wk_retryAttempt = 0,
     wk_active = [], wk_taken = [], wk_settled = []\<rparr>"

text \<open>
  \<open>processWorkItem\<close> and \<open>abandonWorkItem\<close>: the answers of the processor to processing, completing
  and abandoning the item.
\<close>

definition processWorkItem :: "error option \<Rightarrow> error option \<Rightarrow> error option \<Rightarrow> settlement" where
  "processWorkItem processed completed abandoned =
     (if processed \<noteq> None then Abandoned abandoned
      else if completed \<noteq> None then Abandoned abandoned
      else Completed)"

text \<open>\<open>Start\<close> does nothing on a worker that runs.\<close>

definition startWorker :: "'i worker \<Rightarrow> 'i worker" where
  "startWorker w =
     (if wk_running w then w
      else w\<lparr>wk_running := True, wk_polling := Acquiring, wk_cancelled := False, wk_retryAttempt := 0\<rparr>)"

inductive worker_step :: "nat \<Rightarrow> 'i worker \<Rightarrow> 'i worker \<Rightarrow> bool" for capacity where
  poll_takes_slot: "worker_step capacity w (w\<lparr>wk_polling := Asking, wk_slots := wk_slots w + 1\<rparr>)"
    if "wk_polling w = Acquiring" and "wk_slots w < capacity"
| poll_ends: "worker_step capacity w (w\<lparr>wk_polling := Ended\<rparr>)"
    if "wk_polling w = Acquiring" and "wk_cancelled w"
| poll_gets_item:
    "worker_step capacity w (w\<lparr>wk_polling := Acquiring, wk_retryAttempt := 0, wk_active := item # wk_active w,
       wk_taken := item # wk_taken w\<rparr>)"
    if "wk_polling w = Asking"
| poll_fails: "worker_step capacity w (w\<lparr>wk_polling := (if wk_cancelled w then Ended else Pausing), wk_slots := wk_slots w - 1\<rparr>)"
    if "wk_polling w = Asking"
| poll_retries: "worker_step capacity w (w\<lparr>wk_polling := Acquiring, wk_retryAttempt := wk_retryAttempt w + 1\<rparr>)"
    if "wk_polling w = Pausing"
| poll_gives_up: "worker_step capacity w (w\<lparr>wk_polling := Ended\<rparr>)"
    if "wk_polling w = Pausing" and "wk_cancelled w"
| item_settles:
    "worker_step capacity w (w\<lparr>wk_active := remove1 item (wk_active w), wk_slots := wk_slots w - 1,
       wk_settled := (item, processWorkItem processed completed abandoned) # wk_settled w\<rparr>)"
    if "item \<in> set (wk_active w)"
| worker_cancels: "worker_step capacity w (w\<lparr>wk_cancelled := True\<rparr>)"
    if "wk_running w"
| worker_drains: "worker_step capacity w (w\<lparr>wk_running := False, wk_polling := NotPolling\<rparr>)"
    if "wk_polling w = Ended" and "wk_active w = []"

section \<open>The processor of activities (backend/activity.go)\<close>

type_synonym ActivityExecutor = "InstanceID \<Rightarrow> HistoryEvent \<Rightarrow> PropagatedHistory option \<Rightarrow> error + HistoryEvent"

record activityProcessor =
  ap_executor :: ActivityExecutor
  ap_inProcessExecutor :: "ActivityExecutor option"
  ap_inProcessNamePrefix :: string

text \<open>
  \<open>ctxErr\<close> is the answer of the parser of trace contexts and \<open>span\<close> the trace context of the
  activity's span. The scheduled event of the item carries the new trace context afterwards, also on
  failure.
\<close>

definition withTraceContext :: "TraceContext option \<Rightarrow> TaskScheduledEvent \<Rightarrow> HistoryEvent \<Rightarrow> HistoryEvent" where
  "withTraceContext span ts e = e\<lparr>he_EventType := TaskScheduled (ts\<lparr>ts_ParentTraceContext := span\<rparr>)\<rparr>"

definition chooseExecutor :: "activityProcessor \<Rightarrow> string \<Rightarrow> ActivityExecutor" where
  "chooseExecutor p name =
     (case ap_inProcessExecutor p of
        Some inProcess \<Rightarrow>
          if ap_inProcessNamePrefix p \<noteq> [] \<and> prefix (ap_inProcessNamePrefix p) name then inProcess else ap_executor p
      | None \<Rightarrow> ap_executor p)"

definition ProcessActivityWorkItem ::
  "(TraceContext option \<Rightarrow> error option) \<Rightarrow> TraceContext option \<Rightarrow> activityProcessor \<Rightarrow> ActivityWorkItem
    \<Rightarrow> error option \<times> ActivityWorkItem" where
  "ProcessActivityWorkItem ctxErr span p awi =
     (case GetTaskScheduled (awi_NewEvent awi) of
        None \<Rightarrow> (Some (ErrorString (awi_InstanceID awi @ '': invalid TaskScheduled event'')), awi)
      | Some ts \<Rightarrow>
          (case ctxErr (ts_ParentTraceContext ts) of
             Some err \<Rightarrow> (Some (Wrapped (awi_InstanceID awi @ '': failed to parse activity trace context'') err), awi)
           | None \<Rightarrow>
               let awi' = awi\<lparr>awi_NewEvent := withTraceContext span ts (awi_NewEvent awi)\<rparr>
               in case chooseExecutor p (ts_Name ts) (awi_InstanceID awi) (awi_NewEvent awi') (awi_IncomingHistory awi) of
                    Inl err \<Rightarrow> (Some err, awi')
                  | Inr result \<Rightarrow> (None, awi'\<lparr>awi_Result := Some result\<rparr>)))"

text \<open>What \<open>CompleteWorkItem\<close> refuses; otherwise the item goes to the backend. \<open>shown\<close> prints the item.\<close>

definition CompleteActivityCheck :: "(ActivityWorkItem \<Rightarrow> string) \<Rightarrow> ActivityWorkItem \<Rightarrow> error option" where
  "CompleteActivityCheck shown awi =
     (case awi_Result awi of
        None \<Rightarrow> Some (ErrorString (''can't complete work item '' @ quoted (shown awi) @ '' with nil result''))
      | Some r \<Rightarrow>
          if GetTaskCompleted r = None \<and> GetTaskFailed r = None
          then Some (ErrorString (''can't complete work item '' @ quoted (shown awi) @ '', which isn't TaskCompleted or TaskFailed''))
          else None)"

section \<open>The hub (backend/taskhub.go)\<close>

text \<open>\<open>hb_done\<close> is the channel of the current shutdown: none, open, or closed with its error.\<close>

datatype shutdownChannel = NoShutdown | ShutdownPending | ShutdownDone

record taskHubWorker =
  hb_started :: bool
  hb_stopping :: bool
  hb_done :: shutdownChannel
  hb_shutdownErr :: "error option"

definition NewTaskHubWorker :: taskHubWorker where
  "NewTaskHubWorker = \<lparr>hb_started = False, hb_stopping = False, hb_done = NoShutdown, hb_shutdownErr = None\<rparr>"

text \<open>
  \<open>start\<close>: the answers of the backend to creating the hub, to opening an existing one (\<open>None\<close> if the
  backend cannot) and to starting. The second component is whether the workers were started.
\<close>

definition startHub ::
  "bool \<Rightarrow> error option \<Rightarrow> error option option \<Rightarrow> error option \<Rightarrow> taskHubWorker \<Rightarrow> error option \<times> bool \<times> taskHubWorker" where
  "startHub create created opened started w =
     (if hb_stopping w then (Some ErrTaskHubStopping, False, w)
      else if hb_started w then (None, False, w)
      else
        let prepared = (if create then (if created = Some ErrTaskHubExists then None else created)
                        else (case opened of None \<Rightarrow> Some ErrTaskHubNotFound | Some r \<Rightarrow> r))
        in case prepared of
             Some err \<Rightarrow> (Some err, False, w)
           | None \<Rightarrow>
               (case started of
                  Some err \<Rightarrow> (Some err, False, w)
                | None \<Rightarrow> (None, True, w\<lparr>hb_started := True\<rparr>)))"

text \<open>The part of \<open>Shutdown\<close> under the lock: whether to wait, and whether the drain is to be started.\<close>

definition beginShutdown :: "taskHubWorker \<Rightarrow> bool \<times> bool \<times> taskHubWorker" where
  "beginShutdown w =
     (if \<not> hb_started w then (False, False, w)
      else if hb_stopping w then (True, False, w)
      else (True, True, w\<lparr>hb_stopping := True, hb_done := ShutdownPending, hb_shutdownErr := None\<rparr>))"

text \<open>\<open>finishShutdown\<close>: the answers of the two drains and of stopping the backend.\<close>

definition finishShutdownWithError :: "error option \<Rightarrow> bool \<Rightarrow> taskHubWorker \<Rightarrow> taskHubWorker" where
  "finishShutdownWithError err stopped w =
     (let w' = w\<lparr>hb_shutdownErr := err, hb_done := ShutdownDone\<rparr>
      in if stopped then w'\<lparr>hb_started := False, hb_stopping := False\<rparr> else w')"

definition finishShutdown :: "error option \<Rightarrow> error option \<Rightarrow> error option \<Rightarrow> taskHubWorker \<Rightarrow> taskHubWorker" where
  "finishShutdown workflowErr activityErr stopErr w =
     (if workflowErr \<noteq> None \<or> activityErr \<noteq> None
      then finishShutdownWithError (if workflowErr = None then activityErr else workflowErr) False w
      else finishShutdownWithError stopErr True w)"

section \<open>The hub with its two workers\<close>

record ('i, 'j) hubSystem =
  hs_hub :: taskHubWorker
  hs_workflows :: "'i worker"
  hs_activities :: "'j worker"
  hs_backendUp :: bool

definition newHubSystem :: "('i, 'j) hubSystem" where
  "newHubSystem = \<lparr>hs_hub = NewTaskHubWorker, hs_workflows = newWorker, hs_activities = newWorker, hs_backendUp = False\<rparr>"

text \<open>
  The hub starts the workers once the backend is up; its shutdown waits for both drains before it
  stops the backend and marks itself as stopped. The worker steps include the cancellation that the
  drains and a forced shutdown send. The drains of these workers end without an error, since the
  context they are given is never cancelled; a caller that stops waiting changes nothing.
\<close>

inductive hub_step :: "nat \<Rightarrow> nat \<Rightarrow> ('i, 'j) hubSystem \<Rightarrow> ('i, 'j) hubSystem \<Rightarrow> bool" for cw ca where
  hub_starts:
    "hub_step cw ca s (if workersStarted
       then s\<lparr>hs_hub := h, hs_backendUp := True, hs_workflows := startWorker (hs_workflows s),
         hs_activities := startWorker (hs_activities s)\<rparr>
       else s\<lparr>hs_hub := h\<rparr>)"
    if "startHub create created opened started (hs_hub s) = (err, workersStarted, h)"
| hub_workflow_step: "hub_step cw ca s (s\<lparr>hs_workflows := w\<rparr>)"
    if "worker_step cw (hs_workflows s) w"
| hub_activity_step: "hub_step cw ca s (s\<lparr>hs_activities := w\<rparr>)"
    if "worker_step ca (hs_activities s) w"
| hub_shuts_down: "hub_step cw ca s (s\<lparr>hs_hub := h\<rparr>)"
    if "beginShutdown (hs_hub s) = (waits, drains, h)"
| hub_stops_backend: "hub_step cw ca s (s\<lparr>hs_backendUp := False\<rparr>)"
    if "hb_done (hs_hub s) = ShutdownPending"
      and "\<not> wk_running (hs_workflows s)" and "\<not> wk_running (hs_activities s)"
| hub_stopped: "hub_step cw ca s (s\<lparr>hs_hub := finishShutdown None None stopErr (hs_hub s)\<rparr>)"
    if "hb_done (hs_hub s) = ShutdownPending" and "\<not> hs_backendUp s"

section \<open>Bounds\<close>

lemma DefaultMaxParallelism_bounds: "16 \<le> sint (DefaultMaxParallelism n) \<and> sint (DefaultMaxParallelism n) \<le> 64"
  by (simp add: DefaultMaxParallelism_def minDefaultMaxParallelism_def maxDefaultMaxParallelism_def Let_def)

lemma NewTaskWorker_default: "\<exists>c. NewTaskWorker n [] = Some c \<and> 16 \<le> c \<and> c \<le> 64"
  using DefaultMaxParallelism_bounds [of n] by (simp add: NewTaskWorker_def NewWorkerOptions_def le_nat_iff nat_le_iff)

lemma NewTaskWorker_positive: "NewTaskWorker n opts = Some c \<Longrightarrow> 0 < c"
  by (auto simp: NewTaskWorker_def split: option.splits if_splits)

lemma doubledDelay_bounds:
  "0 < d \<Longrightarrow> d \<le> workerRetryMaxDelay \<Longrightarrow> d \<le> doubledDelay n d \<and> doubledDelay n d \<le> workerRetryMaxDelay"
proof (induction n d rule: doubledDelay.induct)
  case (2 n delay)
  then show ?case by (auto split: if_splits)
qed simp

text \<open>Pauses between two attempts are at least 50 milliseconds and at most five seconds.\<close>

lemma retryDelay_bounds:
  assumes "\<And>h. 0 \<le> h \<Longrightarrow> 0 \<le> jitter h \<and> jitter h \<le> h"
  shows "50 * millisecond \<le> retryDelay jitter n \<and> retryDelay jitter n \<le> 5 * second"
proof -
  let ?d = "doubledDelay n workerRetryInitialDelay"
  have "100 * millisecond \<le> ?d" "?d \<le> 5 * second"
    using doubledDelay_bounds [of workerRetryInitialDelay n]
    by (simp_all add: workerRetryInitialDelay_def workerRetryMaxDelay_def millisecond_def second_def)
  moreover from this have "0 \<le> jitter (?d div 2) \<and> jitter (?d div 2) \<le> ?d div 2"
    by (intro assms) (simp add: millisecond_def)
  ultimately show ?thesis unfolding retryDelay_def Let_def millisecond_def second_def by linarith
qed

section \<open>Items\<close>

definition worker_ok :: "nat \<Rightarrow> 'i worker \<Rightarrow> bool" where
  "worker_ok capacity w \<longleftrightarrow>
     wk_slots w = length (wk_active w) + (if wk_polling w = Asking then 1 else 0) \<and> wk_slots w \<le> capacity \<and>
     mset (wk_taken w) = mset (wk_active w) + mset (map fst (wk_settled w)) \<and>
     (wk_running w \<longleftrightarrow> wk_polling w \<noteq> NotPolling) \<and> (\<not> wk_running w \<longrightarrow> wk_active w = [])"

lemma worker_step_ok: "worker_step capacity w w' \<Longrightarrow> worker_ok capacity w \<Longrightarrow> worker_ok capacity w'"
proof (induction rule: worker_step.induct)
  case (item_settles item w processed completed abandoned)
  then have "length (wk_active w) = Suc (length (remove1 item (wk_active w)))"
    by (metis One_nat_def Suc_pred length_pos_if_in_set length_remove1)
  moreover have "mset (wk_active w) = add_mset item (mset (remove1 item (wk_active w)))"
    using item_settles by simp
  ultimately show ?case using item_settles by (auto simp: worker_ok_def)
qed (auto simp: worker_ok_def)

lemma startWorker_ok: "worker_ok capacity w \<Longrightarrow> worker_ok capacity (startWorker w)"
  by (auto simp: worker_ok_def startWorker_def)

text \<open>Only \<open>Start\<close> makes a worker run.\<close>

lemma worker_step_running: "worker_step capacity w w' \<Longrightarrow> wk_running w' \<Longrightarrow> wk_running w"
  by (auto elim: worker_step.cases)

definition hub_invariant :: "nat \<Rightarrow> nat \<Rightarrow> ('i, 'j) hubSystem \<Rightarrow> bool" where
  "hub_invariant cw ca s \<longleftrightarrow> worker_ok cw (hs_workflows s) \<and> worker_ok ca (hs_activities s) \<and>
     (wk_running (hs_workflows s) \<or> wk_running (hs_activities s) \<longrightarrow> hs_backendUp s) \<and>
     (hs_backendUp s \<longrightarrow> hb_started (hs_hub s)) \<and>
     (hb_stopping (hs_hub s) \<longleftrightarrow> hb_done (hs_hub s) = ShutdownPending) \<and>
     (hb_stopping (hs_hub s) \<longrightarrow> hb_started (hs_hub s))"

lemma startHub_cases:
  "startHub create created opened started h = (err, up, h') \<Longrightarrow>
    up \<and> \<not> hb_stopping h \<and> \<not> hb_started h \<and> h' = h\<lparr>hb_started := True\<rparr> \<or> \<not> up \<and> h' = h"
  by (auto simp: startHub_def Let_def split: if_splits option.splits)

lemma hub_step_ok: "hub_step cw ca s s' \<Longrightarrow> hub_invariant cw ca s \<Longrightarrow> hub_invariant cw ca s'"
proof (induction rule: hub_step.induct)
  case (hub_starts create created opened started s err workersStarted h)
  then show ?case using startHub_cases [OF hub_starts(1)]
    by (auto simp: hub_invariant_def startWorker_ok)
next
  case (hub_workflow_step s w)
  then show ?case using worker_step_ok worker_step_running unfolding hub_invariant_def by fastforce
next
  case (hub_activity_step s w)
  then show ?case using worker_step_ok worker_step_running unfolding hub_invariant_def by fastforce
next
  case (hub_shuts_down s waits drains h)
  then show ?case by (auto simp: hub_invariant_def beginShutdown_def split: if_splits)
next
  case (hub_stops_backend s)
  then show ?case by (auto simp: hub_invariant_def)
next
  case (hub_stopped s stopErr)
  then show ?case by (auto simp: hub_invariant_def finishShutdown_def finishShutdownWithError_def Let_def)
qed

text \<open>
  C39: no work is lost and none outlives the backend. In every reachable state of a hub with its two
  workers, with starts, shutdowns, cancellations and items in any order: no worker handles more items
  at once than its limit; every item that was taken is being handled or was completed or abandoned,
  once; and while the backend is down no item is being handled.
\<close>

theorem hub_settles_work:
  assumes "(hub_step cw ca)\<^sup>*\<^sup>* newHubSystem s"
  shows "length (wk_active (hs_workflows s)) \<le> cw \<and> length (wk_active (hs_activities s)) \<le> ca \<and>
    mset (wk_taken (hs_workflows s)) = mset (wk_active (hs_workflows s)) + mset (map fst (wk_settled (hs_workflows s))) \<and>
    mset (wk_taken (hs_activities s)) = mset (wk_active (hs_activities s)) + mset (map fst (wk_settled (hs_activities s))) \<and>
    (\<not> hs_backendUp s \<longrightarrow> wk_active (hs_workflows s) = [] \<and> wk_active (hs_activities s) = [])"
proof -
  from assms have "hub_invariant cw ca s"
  proof (induction rule: rtranclp_induct)
    case base
    then show ?case by (simp add: hub_invariant_def newHubSystem_def worker_ok_def NewTaskHubWorker_def newWorker_def)
  next
    case (step s s')
    then show ?case using hub_step_ok by blast
  qed
  then show ?thesis by (auto simp: hub_invariant_def worker_ok_def split: if_splits)
qed

text \<open>A hub that started and took the item 7.\<close>

definition busyWorker :: "nat worker" where
  "busyWorker = \<lparr>wk_polling = Acquiring, wk_running = True, wk_cancelled = False, wk_slots = 1, wk_retryAttempt = 0,
     wk_active = [7], wk_taken = [7], wk_settled = []\<rparr>"

definition busyHub :: "(nat, nat) hubSystem" where
  "busyHub = \<lparr>hs_hub = NewTaskHubWorker\<lparr>hb_started := True\<rparr>, hs_workflows = busyWorker,
     hs_activities = startWorker newWorker, hs_backendUp = True\<rparr>"

lemma busyHub_reached: "(hub_step 1 1)\<^sup>*\<^sup>* newHubSystem busyHub"
proof -
  let ?s1 = "busyHub\<lparr>hs_workflows := startWorker newWorker\<rparr>"
  let ?s2 = "busyHub\<lparr>hs_workflows := (startWorker newWorker)\<lparr>wk_polling := Asking, wk_slots := 1\<rparr>\<rparr>"
  have s1: "hub_step 1 1 newHubSystem ?s1"
    using hub_starts [of True None None None newHubSystem None True "NewTaskHubWorker\<lparr>hb_started := True\<rparr>" 1 1]
    by (simp add: startHub_def newHubSystem_def NewTaskHubWorker_def busyHub_def)
  have s2: "hub_step 1 1 ?s1 ?s2"
    using hub_workflow_step [OF poll_takes_slot, of ?s1 1 1] by (simp add: busyHub_def startWorker_def newWorker_def)
  have s3: "hub_step 1 1 ?s2 busyHub"
    using hub_workflow_step [OF poll_gets_item, of ?s2 1 1 7]
    by (simp add: busyHub_def startWorker_def newWorker_def busyWorker_def)
  note into = rtranclp.rtrancl_into_rtrancl [where r = "hub_step 1 1"]
  show ?thesis by (rule into [OF into [OF into [OF rtranclp.rtrancl_refl s1] s2] s3])
qed

theorem hub_settles_work_witness:
  "(hub_step 1 1)\<^sup>*\<^sup>* newHubSystem busyHub \<and> length (wk_active (hs_workflows busyHub)) \<le> 1 \<and>
    mset (wk_taken (hs_workflows busyHub)) = mset (wk_active (hs_workflows busyHub)) \<and> hs_backendUp busyHub"
  using busyHub_reached hub_settles_work [OF busyHub_reached] by (simp add: busyHub_def busyWorker_def)

end
