(* ===== verification/Spec2Isabelle.thy ===== *)
theory Spec2Isabelle
  imports SqliteProps ReplayProps HistoryProps TransportProps Worker
begin

text \<open>
  A verification development for durabletask-go.
\<close>

end
